theory Spec2Isabelle
  imports Main "HOL-Library.Word" "HOL-Library.AList"
begin

unbundle bit_operations_syntax

section \<open>Ledger data model\<close>

type_synonym uint256 = "256 word"
type_synonym AccountID = "160 word"

text \<open>The transaction result codes the NFT transactors return or pass on.\<close>

datatype TER =
    tesSUCCESS
  | tecNO_SUITABLE_PAGE
  | tecNO_ENTRY
  | tecINTERNAL
  | tecOBJECT_NOT_FOUND
  | tecEXPIRED
  | tecBUY_SELL_MISMATCH
  | tecINSUFFICIENT_PAYMENT
  | tecOFFER_TYPE_MISMATCH
  | tecCANT_ACCEPT_OWN_OFFER
  | tecNO_PERMISSION
  | tecINSUFFICIENT_FUNDS
  | tecNO_ISSUER
  | tecMAX_SEQUENCE_REACHED
  | tecINSUFFICIENT_RESERVE
  | tecNO_LINE
  | tecFROZEN
  | tecFAILED_PROCESSING

definition isTesSuccess :: "TER \<Rightarrow> bool" where
  "isTesSuccess r = (r = tesSUCCESS)"

text \<open>
  The exceptions of NFTokenUtils.cpp (\<^verbatim>\<open>Throw<std::runtime_error>\<close>), one constructor
  per throw site, and the dereference of a null page or account-root pointer.
\<close>

datatype thrown =
    MergeOutOfOrder
  | MergeNextLinkBroken
  | MergePrevLinkBroken
  | MergeP0Missing
  | BrokenPageLink uint256 uint256
  | NullPage
  | NullAccountRoot

record NFToken =
  TokenID :: uint256
  URI :: "8 word list option"

record NFTokenPage =
  NonFungibleTokens :: "NFToken list"
  PreviousPageMin :: "uint256 option"
  NextPageMin :: "uint256 option"

record AccountRoot =
  OwnerCount :: "32 word"
  MintedTokens :: "32 word option"

text \<open>An asset (currency and issuer) and an amount of it, in the asset's smallest unit.\<close>

type_synonym Issue = nat

record STAmount =
  issue :: Issue
  amount_value :: int

record NFTokenOffer =
  offerOwner :: AccountID
  offerTokenID :: uint256
  offerAmount :: STAmount
  offerSell :: bool
  offerDestination :: "AccountID option"
  offerExpiration :: "nat option"

text \<open>
  The ledger view. NFT pages are kept as an association list from page key to page (the
  ordered ledger index restricted to NFT pages); account roots, offers and balances are
  maps; the owner directory and the per-token buy and sell directories are the lists of
  the offer keys they hold.
\<close>

record View =
  pages :: "(uint256 \<times> NFTokenPage) list"
  accounts :: "AccountID \<rightharpoonup> AccountRoot"
  offers :: "uint256 \<rightharpoonup> NFTokenOffer"
  ownerDir :: "AccountID \<Rightarrow> uint256 list"
  tokenDir :: "uint256 \<times> bool \<Rightarrow> uint256 list"
  balances :: "AccountID \<times> Issue \<Rightarrow> int"
  parentCloseTime :: nat

section \<open>Keys and the key-value store\<close>

text \<open>
  Modelled from the spec: nftPageMask.h, Indexes.h and Protocol.h are not under src.
  A page key holds the owner in its high 160 bits and a bound on the token's page part
  in its low 96 bits; a page holds at most 32 tokens.
\<close>

definition pageMask :: uint256 where
  "pageMask = mask 96"

definition dirMaxTokensPerPage :: nat where
  "dirMaxTokensPerPage = 32"

definition nftpage_min :: "AccountID \<Rightarrow> uint256" where
  "nftpage_min owner = push_bit 96 (ucast owner)"

definition nftpage_max :: "AccountID \<Rightarrow> uint256" where
  "nftpage_max owner = nftpage_min owner OR pageMask"

definition nftpage :: "uint256 \<Rightarrow> uint256 \<Rightarrow> uint256" where
  "nftpage k token = (k AND NOT pageMask) + (token AND pageMask)"

text \<open>
  Modelled from the spec: the ledger store (ApplyView: peek, insert, update, erase, succ)
  is not under src. \<open>view_succ\<close> is the least page key strictly greater than \<open>key\<close> and
  strictly below \<open>last\<close>. A page pointer of the source is a key whose page \<open>view_peek\<close>
  finds; a write through the pointer is \<open>view_modify\<close> at that key.
\<close>

fun least_key :: "uint256 list \<Rightarrow> uint256 option" where
  "least_key [] = None"
| "least_key (k # ks) =
     (case least_key ks of None \<Rightarrow> Some k | Some m \<Rightarrow> Some (min k m))"

definition view_succ :: "View \<Rightarrow> uint256 \<Rightarrow> uint256 \<Rightarrow> uint256 option" where
  "view_succ view key lastk =
     least_key (filter (\<lambda>k. key < k \<and> k < lastk) (map fst (pages view)))"

definition view_peek :: "View \<Rightarrow> uint256 \<Rightarrow> NFTokenPage option" where
  "view_peek view k = map_of (pages view) k"

definition view_insert :: "View \<Rightarrow> uint256 \<Rightarrow> NFTokenPage \<Rightarrow> View" where
  "view_insert view k p = view\<lparr>pages := AList.update k p (pages view)\<rparr>"

definition view_modify :: "View \<Rightarrow> uint256 \<Rightarrow> (NFTokenPage \<Rightarrow> NFTokenPage) \<Rightarrow> View" where
  "view_modify view k f =
     (case map_of (pages view) k of
        None \<Rightarrow> view
      | Some p \<Rightarrow> view\<lparr>pages := AList.update k (f p) (pages view)\<rparr>)"

definition view_erase :: "View \<Rightarrow> uint256 \<Rightarrow> View" where
  "view_erase view k = view\<lparr>pages := AList.delete k (pages view)\<rparr>"

text \<open>
  Modelled from the spec: adjustOwnerCount (View.h) is not under src. The owner's object
  count changes by the given amount; an absent account root is left alone.
\<close>

definition adjustOwnerCount :: "View \<Rightarrow> AccountID \<Rightarrow> int \<Rightarrow> View" where
  "adjustOwnerCount view owner amount =
     (case accounts view owner of
        None \<Rightarrow> view
      | Some root \<Rightarrow>
          view\<lparr>accounts := (accounts view)
                 (owner \<mapsto> root\<lparr>OwnerCount := OwnerCount root + word_of_int amount\<rparr>)\<rparr>)"

section \<open>NFTokenUtils.cpp: the directory page engine\<close>

definition page_prefix :: "uint256 \<Rightarrow> uint256" where
  "page_prefix tid = tid AND pageMask"

text \<open>\<open>std::find_if\<close> as the index of the first match, the length when there is none.\<close>

fun find_if :: "('a \<Rightarrow> bool) \<Rightarrow> 'a list \<Rightarrow> nat" where
  "find_if P [] = 0"
| "find_if P (x # xs) = (if P x then 0 else Suc (find_if P xs))"

definition find_if_not :: "('a \<Rightarrow> bool) \<Rightarrow> 'a list \<Rightarrow> nat" where
  "find_if_not P xs = find_if (\<lambda>x. \<not> P x) xs"

definition locatePage :: "View \<Rightarrow> AccountID \<Rightarrow> uint256 \<Rightarrow> (uint256 \<times> NFTokenPage) option" where
  "locatePage view owner tid =
     (let first = nftpage (nftpage_min owner) tid;
          lastk = nftpage_max owner;
          k = (case view_succ view first (lastk + 1) of Some s \<Rightarrow> s | None \<Rightarrow> lastk)
      in map_option (Pair k) (view_peek view k))"

text \<open>
  The split index of a full page: \<open>find_if_not\<close> from the middle, then \<open>find_if\<close> from
  the front when the first search reaches the end.
\<close>

definition splitIter :: "NFToken list \<Rightarrow> nat" where
  "splitIter narr =
     (let cmp = TokenID (narr ! ((dirMaxTokensPerPage div 2) - 1)) AND pageMask;
          it = (dirMaxTokensPerPage div 2) +
               find_if_not (\<lambda>obj. TokenID obj AND pageMask = cmp)
                 (drop (dirMaxTokensPerPage div 2) narr)
      in if it = length narr
         then find_if (\<lambda>obj. TokenID obj AND pageMask = cmp) narr
         else it)"

text \<open>
  \<open>getPageForToken\<close> returns the view and the key of the page to insert into;
  \<open>None\<close> is the source's \<open>nullptr\<close>.
\<close>

definition getPageForToken ::
  "View \<Rightarrow> AccountID \<Rightarrow> uint256 \<Rightarrow> (View \<Rightarrow> AccountID \<Rightarrow> View) \<Rightarrow> View \<times> uint256 option" where
  "getPageForToken view owner tid createCallback =
     (let base = nftpage_min owner;
          first = nftpage base tid;
          lastk = nftpage_max owner;
          k = (case view_succ view first (lastk + 1) of Some s \<Rightarrow> s | None \<Rightarrow> lastk)
      in case view_peek view k of
           None \<Rightarrow>
             (let cp = \<lparr>NonFungibleTokens = [], PreviousPageMin = None, NextPageMin = None\<rparr>;
                  view1 = view_insert view lastk cp
              in (createCallback view1 owner, Some lastk))
         | Some cp \<Rightarrow>
             (let narr = NonFungibleTokens cp
              in if length narr \<noteq> dirMaxTokensPerPage then (view, Some k)
                 else
                   (let i = splitIter narr
                    in if i = 0 \<or> i = length narr then (view, None)
                       else
                         (let carr = drop i narr;
                              narr1 = take i narr;
                              npkey = nftpage base (TokenID (carr ! 0));
                              np0 = \<lparr>NonFungibleTokens = narr1, PreviousPageMin = None,
                                     NextPageMin = Some k\<rparr>;
                              np = (case PreviousPageMin cp of
                                      None \<Rightarrow> np0
                                    | Some ppm \<Rightarrow> np0\<lparr>PreviousPageMin := Some ppm\<rparr>);
                              view1 = (case PreviousPageMin cp of
                                         None \<Rightarrow> view
                                       | Some ppm \<Rightarrow>
                                           view_modify view ppm
                                             (\<lambda>p3. p3\<lparr>NextPageMin := Some npkey\<rparr>));
                              view2 = view_insert view1 npkey np;
                              view3 = view_modify view2 k
                                        (\<lambda>c. c\<lparr>NonFungibleTokens := carr,
                                               PreviousPageMin := Some npkey\<rparr>);
                              view4 = createCallback view3 owner
                          in (view4, Some (if first \<le> npkey then npkey else k))))))"

definition compareTokens :: "uint256 \<Rightarrow> uint256 \<Rightarrow> bool" where
  "compareTokens a b = ((a AND pageMask) < (b AND pageMask))"

text \<open>
  \<open>arr.sort\<close> with \<open>compareTokens\<close>: the tokens in ascending order of their page part.
  \<open>std::sort\<close> leaves the order among tokens of equal page part open; the model keeps
  their order of arrival. The statements about an insertion that can meet such a tie use
  of the sorted page only what every order shares: its length, its entries and the
  number of entries with a given identifier.
\<close>

definition sortTokens :: "NFToken list \<Rightarrow> NFToken list" where
  "sortTokens arr = sort_key (\<lambda>obj. TokenID obj AND pageMask) arr"

text \<open>The page-created callback that \<open>insertToken\<close> passes to \<open>getPageForToken\<close>.\<close>

definition ownerCountCallback :: "View \<Rightarrow> AccountID \<Rightarrow> View" where
  "ownerCountCallback view owner = adjustOwnerCount view owner 1"

definition insertToken :: "View \<Rightarrow> AccountID \<Rightarrow> NFToken \<Rightarrow> TER \<times> View" where
  "insertToken view owner nft =
     (case getPageForToken view owner (TokenID nft) ownerCountCallback of
        (view1, None) \<Rightarrow> (tecNO_SUITABLE_PAGE, view1)
      | (view1, Some k) \<Rightarrow>
          (case view_peek view1 k of
             None \<Rightarrow> (tecNO_SUITABLE_PAGE, view1)
           | Some page \<Rightarrow>
               (let arr = sortTokens (NonFungibleTokens page @ [nft])
                in (tesSUCCESS,
                    view_modify view1 k (\<lambda>p. p\<lparr>NonFungibleTokens := arr\<rparr>)))))"

text \<open>\<open>std::merge\<close> with \<open>compareTokens\<close>.\<close>

fun mergeTokens :: "NFToken list \<Rightarrow> NFToken list \<Rightarrow> NFToken list" where
  "mergeTokens [] ys = ys"
| "mergeTokens xs [] = xs"
| "mergeTokens (x # xs) (y # ys) =
     (if compareTokens (TokenID y) (TokenID x)
      then y # mergeTokens (x # xs) ys
      else x # mergeTokens xs (y # ys))"

definition mergePages :: "View \<Rightarrow> uint256 \<Rightarrow> uint256 \<Rightarrow> thrown + (bool \<times> View)" where
  "mergePages view k1 k2 =
     (case view_peek view k1 of
        None \<Rightarrow> Inl NullPage
      | Some p1 \<Rightarrow>
     (case view_peek view k2 of
        None \<Rightarrow> Inl NullPage
      | Some p2 \<Rightarrow>
          if k1 \<ge> k2 then Inl MergeOutOfOrder
          else if NextPageMin p1 \<noteq> Some k2 then Inl MergeNextLinkBroken
          else if PreviousPageMin p2 \<noteq> Some k1 then Inl MergePrevLinkBroken
          else
            (let p1arr = NonFungibleTokens p1;
                 p2arr = NonFungibleTokens p2
             in if length p1arr + length p2arr > dirMaxTokensPerPage then Inr (False, view)
                else
                  (let x = mergeTokens p1arr p2arr;
                       view1 = view_modify view k2
                                 (\<lambda>p. p\<lparr>NonFungibleTokens := x, PreviousPageMin := None\<rparr>)
                   in case PreviousPageMin p1 of
                        None \<Rightarrow> Inr (True, view_erase view1 k1)
                      | Some ppm \<Rightarrow>
                          (case view_peek view1 ppm of
                             None \<Rightarrow> Inl MergeP0Missing
                           | Some p0 \<Rightarrow>
                               (let view2 = view_modify view1 ppm
                                              (\<lambda>p. p\<lparr>NextPageMin := Some k2\<rparr>);
                                    view3 = view_modify view2 k2
                                              (\<lambda>p. p\<lparr>PreviousPageMin := Some ppm\<rparr>)
                                in Inr (True, view_erase view3 k1)))))))"

definition loadPage :: "View \<Rightarrow> uint256 \<Rightarrow> uint256 option \<Rightarrow> thrown + uint256 option" where
  "loadPage view page1 field =
     (case field of
        None \<Rightarrow> Inr None
      | Some pid \<Rightarrow>
          (case view_peek view pid of
             None \<Rightarrow> Inl (BrokenPageLink page1 pid)
           | Some page2 \<Rightarrow> Inr (Some pid)))"

definition removeToken :: "View \<Rightarrow> AccountID \<Rightarrow> uint256 \<Rightarrow> thrown + (TER \<times> View)" where
  "removeToken view owner tokenID =
     (case locatePage view owner tokenID of
        None \<Rightarrow> Inr (tecNO_ENTRY, view)
      | Some (ck, cur) \<Rightarrow>
          (let arr0 = NonFungibleTokens cur;
               x = find_if (\<lambda>obj. TokenID obj = tokenID) arr0
           in if x = length arr0 then Inr (tecNO_ENTRY, view)
              else
                (let arr = take x arr0 @ drop (Suc x) arr0
                 in case loadPage view ck (PreviousPageMin cur) of
                      Inl e \<Rightarrow> Inl e
                    | Inr prev \<Rightarrow>
                   (case loadPage view ck (NextPageMin cur) of
                      Inl e \<Rightarrow> Inl e
                    | Inr next \<Rightarrow>
                        if arr \<noteq> [] then
                          (let view1 = view_modify view ck (\<lambda>p. p\<lparr>NonFungibleTokens := arr\<rparr>)
                           in case (case prev of
                                      None \<Rightarrow> Inr (False, view1)
                                    | Some pk \<Rightarrow> mergePages view1 pk ck) of
                                Inl e \<Rightarrow> Inl e
                              | Inr (m1, view2) \<Rightarrow>
                                  (case (case next of
                                           None \<Rightarrow> Inr (False, view2)
                                         | Some nk \<Rightarrow> mergePages view2 ck nk) of
                                     Inl e \<Rightarrow> Inl e
                                   | Inr (m2, view3) \<Rightarrow>
                                       (let cnt = (if m1 then - 1 else 0) + (if m2 then - 1 else (0::int))
                                        in Inr (tesSUCCESS,
                                                if cnt \<noteq> 0 then adjustOwnerCount view3 owner cnt
                                                else view3))))
                        else
                          (let view1 = (case prev of
                                          None \<Rightarrow> view
                                        | Some pk \<Rightarrow>
                                            view_modify view pk (\<lambda>p. p\<lparr>NextPageMin := next\<rparr>));
                               view2 = (case next of
                                          None \<Rightarrow> view1
                                        | Some nk \<Rightarrow>
                                            view_modify view1 nk (\<lambda>p. p\<lparr>PreviousPageMin := prev\<rparr>));
                               view3 = view_erase view2 ck
                           in case (case (prev, next) of
                                      (Some pk, Some nk) \<Rightarrow> mergePages view3 pk nk
                                    | _ \<Rightarrow> Inr (False, view3)) of
                                Inl e \<Rightarrow> Inl e
                              | Inr (m, view4) \<Rightarrow>
                                  (let cnt = (if m then 2 else (1::int))
                                   in Inr (tesSUCCESS, adjustOwnerCount view4 owner (- 1 * cnt))))))))"

definition findToken :: "View \<Rightarrow> AccountID \<Rightarrow> uint256 \<Rightarrow> NFToken option" where
  "findToken view owner tokenID =
     (case locatePage view owner tokenID of
        None \<Rightarrow> None
      | Some (k, page) \<Rightarrow> List.find (\<lambda>t. TokenID t = tokenID) (NonFungibleTokens page))"

text \<open>
  Modelled from the spec: the owner and token directories of offers (ApplyView::dirRemove)
  are not under src. \<open>dirRemove\<close> takes the key out of the directory and reports whether
  it was there.
\<close>

definition dirRemove :: "uint256 list \<Rightarrow> uint256 \<Rightarrow> bool \<times> uint256 list" where
  "dirRemove dir k = (if k \<in> set dir then (True, remove1 k dir) else (False, dir))"

text \<open>
  \<open>deleteTokenOffer\<close> for the offer stored under key \<open>k\<close>. The offers of the view are all
  of type \<open>ltNFTOKEN_OFFER\<close>, so the type test of the source always passes.
\<close>

definition deleteTokenOffer :: "View \<Rightarrow> uint256 \<Rightarrow> NFTokenOffer \<Rightarrow> bool \<times> View" where
  "deleteTokenOffer view k offer =
     (let owner = offerOwner offer
      in case dirRemove (ownerDir view owner) k of
           (False, _) \<Rightarrow> (False, view)
         | (True, od) \<Rightarrow>
             (let view1 = view\<lparr>ownerDir := (ownerDir view)(owner := od)\<rparr>;
                  tokenID = offerTokenID offer;
                  d = (tokenID, offerSell offer)
              in case dirRemove (tokenDir view1 d) k of
                   (False, _) \<Rightarrow> (False, view1)
                 | (True, td) \<Rightarrow>
                     (let view2 = view1\<lparr>tokenDir := (tokenDir view1)(d := td)\<rparr>;
                          view3 = adjustOwnerCount view2 owner (- 1)
                      in (True, view3\<lparr>offers := (offers view3)(k := None)\<rparr>))))"

section \<open>NFTokenMint.cpp\<close>

record MintTx =
  mintAccount :: AccountID
  mintIssuer :: "AccountID option"
  mintFlags :: "32 word"
  mintTransferFee :: "16 word option"
  mintTokenTaxon :: "32 word"
  mintURI :: "8 word list option"

text \<open>
  Modelled from the spec: \<open>nft::cipheredTaxon\<close> is not under src. The taxon is XORed with
  a linear congruential function of the sequence; its constants are not given, so the
  function \<open>lcg\<close> is a parameter.
\<close>

definition cipheredTaxon :: "(32 word \<Rightarrow> 32 word) \<Rightarrow> 32 word \<Rightarrow> 32 word \<Rightarrow> 32 word" where
  "cipheredTaxon lcg tokenSeq taxon = taxon XOR lcg tokenSeq"

text \<open>The five fields packed big-endian into 32 bytes, most significant first.\<close>

definition createTokenID ::
  "(32 word \<Rightarrow> 32 word) \<Rightarrow> 16 word \<Rightarrow> 16 word \<Rightarrow> AccountID \<Rightarrow> 32 word \<Rightarrow> 32 word \<Rightarrow> uint256" where
  "createTokenID lcg flags fee issuer taxon tokenSeq =
     (let taxon1 = cipheredTaxon lcg tokenSeq taxon
      in push_bit 240 (ucast flags) OR push_bit 224 (ucast fee) OR push_bit 64 (ucast issuer)
         OR push_bit 32 (ucast taxon1) OR ucast tokenSeq)"

text \<open>
  \<open>NFTokenMint::doApply\<close>. The reserve table \<open>accountReserve\<close> of the ledger's fees and the
  submitter's balance before the transaction, \<open>mPriorBalance\<close>, are parameters.
\<close>

definition NFTokenMint_doApply ::
  "(32 word \<Rightarrow> 32 word) \<Rightarrow> (32 word \<Rightarrow> int) \<Rightarrow> int \<Rightarrow> MintTx \<Rightarrow> View \<Rightarrow> thrown + (TER \<times> View)" where
  "NFTokenMint_doApply lcg accountReserve mPriorBalance tx view =
     (let account = mintAccount tx;
          issuer = (case mintIssuer tx of Some i \<Rightarrow> i | None \<Rightarrow> account)
      in case (case accounts view issuer of
                 None \<Rightarrow> Inl tecNO_ISSUER
               | Some root \<Rightarrow>
                   (let tokenSeq = (case MintedTokens root of Some s \<Rightarrow> s | None \<Rightarrow> 0);
                        nextTokenSeq = tokenSeq + 1
                    in if nextTokenSeq < tokenSeq then Inl tecMAX_SEQUENCE_REACHED
                       else Inr (tokenSeq,
                                 view\<lparr>accounts := (accounts view)
                                   (issuer \<mapsto> root\<lparr>MintedTokens := Some nextTokenSeq\<rparr>)\<rparr>))) of
           Inl err \<Rightarrow> Inr (err, view)
         | Inr (tokenSeq, view1) \<Rightarrow>
             (case accounts view1 account of
                None \<Rightarrow> Inl NullAccountRoot
              | Some acct \<Rightarrow>
                  (let ownerCountBefore = OwnerCount acct;
                       nft = \<lparr>TokenID =
                                createTokenID lcg (ucast (mintFlags tx AND 0x0000FFFF))
                                  (case mintTransferFee tx of Some f \<Rightarrow> f | None \<Rightarrow> 0)
                                  issuer (mintTokenTaxon tx) tokenSeq,
                              URI = mintURI tx\<rparr>
                   in case insertToken view1 account nft of
                        (ret, view2) \<Rightarrow>
                          if ret = tesSUCCESS then
                            (case accounts view2 account of
                               None \<Rightarrow> Inl NullAccountRoot
                             | Some acct2 \<Rightarrow>
                                 (let ownerCountAfter = OwnerCount acct2
                                  in if ownerCountAfter > ownerCountBefore
                                     then (if mPriorBalance < accountReserve ownerCountAfter
                                           then Inr (tecINSUFFICIENT_RESERVE, view2)
                                           else Inr (ret, view2))
                                     else Inr (ret, view2)))
                          else Inr (ret, view2))))"

section \<open>NFTokenAcceptOffer.cpp\<close>

record AcceptTx =
  acceptAccount :: AccountID
  acceptBuyOffer :: "uint256 option"
  acceptSellOffer :: "uint256 option"
  acceptBrokerFee :: "STAmount option"

text \<open>
  Modelled from the spec: \<open>nft::getTransferFee\<close> and \<open>nft::getIssuer\<close> are not under src.
  They read the 16 bits at byte offset 2 and the 160 bits at byte offset 4 of the
  identifier.
\<close>

definition getTransferFee :: "uint256 \<Rightarrow> 16 word" where
  "getTransferFee tokenID = ucast (drop_bit 224 tokenID)"

definition getIssuer :: "uint256 \<Rightarrow> AccountID" where
  "getIssuer tokenID = ucast (drop_bit 64 tokenID)"

text \<open>
  Modelled from the spec: \<open>multiply\<close> and \<open>transferFeeAsRate\<close> (Rate.h) are not under src.
  The issuer's cut of a non-negative amount is \<open>amount * transfer_fee / 100000\<close>, rounded
  down.
\<close>

definition transferFeeCut :: "STAmount \<Rightarrow> 16 word \<Rightarrow> STAmount" where
  "transferFeeCut amount fee =
     amount\<lparr>amount_value := (amount_value amount * uint fee) div 100000\<rparr>"

text \<open>Subtraction of amounts of one asset (\<open>amount -= cut\<close>).\<close>

definition amount_minus :: "STAmount \<Rightarrow> STAmount \<Rightarrow> STAmount" where
  "amount_minus a b = a\<lparr>amount_value := amount_value a - amount_value b\<rparr>"

text \<open>
  Modelled from the spec: \<open>hasExpired\<close> and \<open>accountHolds\<close> (View.h) are not under src.
  An offer has expired when the parent ledger's close time has reached its expiration;
  an account holds its balance of the asset.
\<close>

definition hasExpired :: "View \<Rightarrow> nat option \<Rightarrow> bool" where
  "hasExpired view exp = (case exp of None \<Rightarrow> False | Some e \<Rightarrow> e \<le> parentCloseTime view)"

definition accountHolds :: "View \<Rightarrow> AccountID \<Rightarrow> Issue \<Rightarrow> int" where
  "accountHolds view account iss = balances view (account, iss)"

definition checkOffer :: "View \<Rightarrow> uint256 option \<Rightarrow> TER" where
  "checkOffer view k =
     (case k of
        None \<Rightarrow> tesSUCCESS
      | Some key \<Rightarrow>
          (case offers view key of
             None \<Rightarrow> tecOBJECT_NOT_FOUND
           | Some offer \<Rightarrow>
               if hasExpired view (offerExpiration offer) then tecEXPIRED else tesSUCCESS))"

text \<open>
  The brokered-mode block of \<open>preclaim\<close>; \<open>None\<close> when no check of the block rejects.
\<close>

definition preclaimBrokered :: "AcceptTx \<Rightarrow> NFTokenOffer \<Rightarrow> NFTokenOffer \<Rightarrow> TER option" where
  "preclaimBrokered tx bo so =
     (if offerTokenID bo \<noteq> offerTokenID so then Some tecBUY_SELL_MISMATCH
      else if issue (offerAmount bo) \<noteq> issue (offerAmount so) then Some tecBUY_SELL_MISMATCH
      else if amount_value (offerAmount so) > amount_value (offerAmount bo)
        then Some tecINSUFFICIENT_PAYMENT
      else if (case offerDestination so of
                 None \<Rightarrow> False
               | Some dest \<Rightarrow> dest \<noteq> offerOwner bo) then Some tecBUY_SELL_MISMATCH
      else
        (case acceptBrokerFee tx of
           None \<Rightarrow> None
         | Some brokerFee \<Rightarrow>
             if issue brokerFee \<noteq> issue (offerAmount bo) then Some tecBUY_SELL_MISMATCH
             else if amount_value brokerFee \<ge> amount_value (offerAmount bo)
               then Some tecINSUFFICIENT_PAYMENT
             else if amount_value (offerAmount so) >
                     amount_value (amount_minus (offerAmount bo) brokerFee)
               then Some tecINSUFFICIENT_PAYMENT
             else None))"

definition preclaimBuy :: "AcceptTx \<Rightarrow> View \<Rightarrow> NFTokenOffer \<Rightarrow> TER option" where
  "preclaimBuy tx view bo =
     (if offerSell bo then Some tecOFFER_TYPE_MISMATCH
      else if offerOwner bo = acceptAccount tx then Some tecCANT_ACCEPT_OWN_OFFER
      else if acceptSellOffer tx = None \<and>
              findToken view (acceptAccount tx) (offerTokenID bo) = None
        then Some tecNO_PERMISSION
      else
        (let needed = offerAmount bo
         in if accountHolds view (offerOwner bo) (issue needed) < amount_value needed
            then Some tecINSUFFICIENT_FUNDS
            else None))"

definition preclaimSell :: "AcceptTx \<Rightarrow> View \<Rightarrow> NFTokenOffer \<Rightarrow> TER option" where
  "preclaimSell tx view so =
     (if \<not> offerSell so then Some tecOFFER_TYPE_MISMATCH
      else if offerOwner so = acceptAccount tx then Some tecCANT_ACCEPT_OWN_OFFER
      else if findToken view (offerOwner so) (offerTokenID so) = None
        then Some tecNO_PERMISSION
      else if acceptBuyOffer tx = None \<and>
              (case offerDestination so of
                 None \<Rightarrow> False
               | Some dest \<Rightarrow> dest \<noteq> acceptAccount tx)
        then Some tecNO_PERMISSION
      else
        (let needed = offerAmount so
         in if accountHolds view (acceptAccount tx) (issue needed) < amount_value needed
            then Some tecINSUFFICIENT_FUNDS
            else None))"

text \<open>
  \<open>NFTokenAcceptOffer::preclaim\<close>: the two offer checks, then the brokered block when both
  offers are given, then the block of the buy offer and the block of the sell offer.
\<close>

definition NFTokenAcceptOffer_preclaim :: "AcceptTx \<Rightarrow> View \<Rightarrow> TER" where
  "NFTokenAcceptOffer_preclaim tx view =
     (let buy = acceptBuyOffer tx;
          sell = acceptSellOffer tx
      in if \<not> isTesSuccess (checkOffer view buy) then checkOffer view buy
         else if \<not> isTesSuccess (checkOffer view sell) then checkOffer view sell
         else
           (case (case (Option.bind buy (offers view), Option.bind sell (offers view)) of
                    (Some bo, Some so) \<Rightarrow> preclaimBrokered tx bo so
                  | _ \<Rightarrow> None) of
              Some r \<Rightarrow> r
            | None \<Rightarrow>
                (case (case Option.bind buy (offers view) of
                         Some bo \<Rightarrow> preclaimBuy tx view bo
                       | None \<Rightarrow> None) of
                   Some r \<Rightarrow> r
                 | None \<Rightarrow>
                     (case (case Option.bind sell (offers view) of
                              Some so \<Rightarrow> preclaimSell tx view so
                            | None \<Rightarrow> None) of
                        Some r \<Rightarrow> r
                      | None \<Rightarrow> tesSUCCESS))))"

text \<open>
  Modelled from the spec: \<open>accountSend\<close> (View.h) is not under src. The transactor's
  functions take the ledger's send routine as the parameter \<open>send\<close>; \<open>ledgerSend\<close> is the
  plain transfer of the value between the two balances of the asset.
\<close>

type_synonym Send = "View \<Rightarrow> AccountID \<Rightarrow> AccountID \<Rightarrow> STAmount \<Rightarrow> TER \<times> View"

definition ledgerSend :: Send where
  "ledgerSend view src dst amount =
     (let i = issue amount;
          b1 = (balances view)((src, i) := balances view (src, i) - amount_value amount);
          b2 = b1((dst, i) := b1 (dst, i) + amount_value amount)
      in (tesSUCCESS, view\<lparr>balances := b2\<rparr>))"

definition pay :: "Send \<Rightarrow> View \<Rightarrow> AccountID \<Rightarrow> AccountID \<Rightarrow> STAmount \<Rightarrow> TER \<times> View" where
  "pay send view src dst amount =
     (if amount_value amount < 0 then (tecINTERNAL, view)
      else send view src dst amount)"

text \<open>
  The transfer of the token that ends both \<open>acceptOffer\<close> and the brokered branch of
  \<open>doApply\<close> (the same three calls in both).
\<close>

definition transferToken ::
  "View \<Rightarrow> AccountID \<Rightarrow> AccountID \<Rightarrow> uint256 \<Rightarrow> thrown + (TER \<times> View)" where
  "transferToken view seller buyer tokenID =
     (case findToken view seller tokenID of
        None \<Rightarrow> Inr (tecINTERNAL, view)
      | Some nft \<Rightarrow>
          (case removeToken view seller tokenID of
             Inl e \<Rightarrow> Inl e
           | Inr (ret, view1) \<Rightarrow>
               if \<not> isTesSuccess ret then Inr (ret, view1)
               else Inr (insertToken view1 buyer nft)))"

text \<open>
  In the two functions below an inner \<open>Inl (r, view)\<close> is the source's early
  \<open>return r\<close>; \<open>Inr\<close> carries on with the view and the amount that remains.
\<close>

definition acceptOffer ::
  "Send \<Rightarrow> AccountID \<Rightarrow> View \<Rightarrow> NFTokenOffer \<Rightarrow> thrown + (TER \<times> View)" where
  "acceptOffer send account view offer =
     (let isSell = offerSell offer;
          owner = offerOwner offer;
          seller = (if isSell then owner else account);
          buyer = (if isSell then account else owner);
          tokenID = offerTokenID offer;
          amount = offerAmount offer
      in case (if amount_value amount \<noteq> 0 then
                 (let fee = getTransferFee tokenID
                  in case (if fee \<noteq> 0 then
                             (let cut1 = transferFeeCut amount fee;
                                  issuer = getIssuer tokenID
                              in if amount_value cut1 \<noteq> 0 \<and> seller \<noteq> issuer \<and> buyer \<noteq> issuer
                                 then (case pay send view buyer issuer cut1 of
                                         (r, view1) \<Rightarrow>
                                           if \<not> isTesSuccess r then Inl (r, view1)
                                           else Inr (view1, amount_minus amount cut1))
                                 else Inr (view, amount))
                           else Inr (view, amount)) of
                       Inl rv \<Rightarrow> Inl rv
                     | Inr (view1, amount1) \<Rightarrow>
                         (case pay send view1 buyer seller amount1 of
                            (r, view2) \<Rightarrow>
                              if \<not> isTesSuccess r then Inl (r, view2) else Inr view2))
               else Inr view) of
           Inl rv \<Rightarrow> Inr rv
         | Inr view3 \<Rightarrow> transferToken view3 seller buyer tokenID)"

definition NFTokenAcceptOffer_doApply ::
  "Send \<Rightarrow> AcceptTx \<Rightarrow> View \<Rightarrow> thrown + (TER \<times> View)" where
  "NFTokenAcceptOffer_doApply send tx view =
     (let account = acceptAccount tx;
          bo = Option.bind (acceptBuyOffer tx) (\<lambda>k. map_option (Pair k) (offers view k));
          so = Option.bind (acceptSellOffer tx) (\<lambda>k. map_option (Pair k) (offers view k))
      in case (case bo of
                 None \<Rightarrow> (True, view)
               | Some (k, offer) \<Rightarrow> deleteTokenOffer view k offer) of
           (False, view1) \<Rightarrow> Inr (tecINTERNAL, view1)
         | (True, view1) \<Rightarrow>
        (case (case so of
                 None \<Rightarrow> (True, view1)
               | Some (k, offer) \<Rightarrow> deleteTokenOffer view1 k offer) of
           (False, view2) \<Rightarrow> Inr (tecINTERNAL, view2)
         | (True, view2) \<Rightarrow>
             (case (bo, so) of
                (Some (bk, b), Some (sk, s)) \<Rightarrow>
                  (let buyer = offerOwner b;
                       seller = offerOwner s;
                       tokenID = offerTokenID s;
                       amount = offerAmount b
                   in case (case acceptBrokerFee tx of
                              None \<Rightarrow> Inr (view2, amount)
                            | Some cut1 \<Rightarrow>
                                if amount_value cut1 \<noteq> 0 then
                                  (case pay send view2 buyer account cut1 of
                                     (r, view3) \<Rightarrow>
                                       if \<not> isTesSuccess r then Inl (r, view3)
                                       else Inr (view3, amount_minus amount cut1))
                                else Inr (view2, amount)) of
                        Inl rv \<Rightarrow> Inr rv
                      | Inr (view3, amount1) \<Rightarrow>
                     (case (let fee = getTransferFee tokenID
                            in if amount_value amount1 \<noteq> 0 \<and> fee \<noteq> 0 then
                                 (let cut1 = transferFeeCut amount1 fee;
                                      issuer = getIssuer tokenID
                                  in if seller \<noteq> issuer \<and> buyer \<noteq> issuer then
                                       (case pay send view3 buyer issuer cut1 of
                                          (r, view4) \<Rightarrow>
                                            if \<not> isTesSuccess r then Inl (r, view4)
                                            else Inr (view4, amount_minus amount1 cut1))
                                     else Inr (view3, amount1))
                               else Inr (view3, amount1)) of
                        Inl rv \<Rightarrow> Inr rv
                      | Inr (view4, amount2) \<Rightarrow>
                     (case (if amount_value amount2 > 0 then
                              (case pay send view4 buyer seller amount2 of
                                 (r, view5) \<Rightarrow>
                                   if \<not> isTesSuccess r then Inl (r, view5) else Inr view5)
                            else Inr view4) of
                        Inl rv \<Rightarrow> Inr rv
                      | Inr view5 \<Rightarrow> transferToken view5 seller buyer tokenID)))
              | (Some (bk, b), None) \<Rightarrow> acceptOffer send account view2 b
              | (None, Some (sk, s)) \<Rightarrow> acceptOffer send account view2 s
              | (None, None) \<Rightarrow> Inr (tecINTERNAL, view2))))"

section \<open>The directory invariant\<close>

text \<open>
  The pages of an owner in ascending key order; the chain they form (each page links back
  to the page before it and forward to the page after it, keys strictly ascending); the
  page sizes (1 to 32 tokens); and the co-residence of tokens of equal page part.
\<close>

definition ownerPages :: "View \<Rightarrow> AccountID \<Rightarrow> (uint256 \<times> NFTokenPage) list" where
  "ownerPages view owner =
     sort_key fst
       (filter (\<lambda>kp. nftpage_min owner \<le> fst kp \<and> fst kp \<le> nftpage_max owner) (pages view))"

fun chainLinked :: "uint256 option \<Rightarrow> (uint256 \<times> NFTokenPage) list \<Rightarrow> bool" where
  "chainLinked prev [] = True"
| "chainLinked prev [(k, p)] = (PreviousPageMin p = prev \<and> NextPageMin p = None)"
| "chainLinked prev ((k, p) # (k2, p2) # rest) =
     (PreviousPageMin p = prev \<and> NextPageMin p = Some k2 \<and> k < k2 \<and>
      chainLinked (Some k) ((k2, p2) # rest))"

definition pageSizesOk :: "(uint256 \<times> NFTokenPage) list \<Rightarrow> bool" where
  "pageSizesOk ps =
     list_all (\<lambda>kp. 1 \<le> length (NonFungibleTokens (snd kp)) \<and>
                     length (NonFungibleTokens (snd kp)) \<le> 32) ps"

definition coresident :: "(uint256 \<times> NFTokenPage) list \<Rightarrow> bool" where
  "coresident ps =
     list_all (\<lambda>kp1. list_all (\<lambda>kp2.
       list_all (\<lambda>t1. list_all (\<lambda>t2.
           if page_prefix (TokenID t1) = page_prefix (TokenID t2) then fst kp1 = fst kp2 else True)
         (NonFungibleTokens (snd kp2))) (NonFungibleTokens (snd kp1))) ps) ps"

definition directoryInvariant :: "View \<Rightarrow> AccountID \<Rightarrow> bool" where
  "directoryInvariant view owner =
     (let ps = ownerPages view owner
      in chainLinked None ps \<and> pageSizesOk ps \<and> coresident ps)"

section \<open>Sound links and the pages next to a page\<close>

text \<open>
  The links of a view are sound when every link of every page names a page of the view that
  links back, the previous page under a smaller key and the next page under a larger one.
  On such a view neither the page loader of \<open>removeToken\<close> nor \<open>mergePages\<close> throws.
\<close>

definition linksValid :: "View \<Rightarrow> bool" where
  "linksValid view =
     list_all
       (\<lambda>kp. case view_peek view (fst kp) of
               None \<Rightarrow> True
             | Some p \<Rightarrow>
                 (case PreviousPageMin p of
                    None \<Rightarrow> True
                  | Some q \<Rightarrow>
                      q < fst kp \<and>
                      (case view_peek view q of
                         None \<Rightarrow> False
                       | Some pq \<Rightarrow> NextPageMin pq = Some (fst kp))) \<and>
                 (case NextPageMin p of
                    None \<Rightarrow> True
                  | Some n \<Rightarrow>
                      fst kp < n \<and>
                      (case view_peek view n of
                         None \<Rightarrow> False
                       | Some pn \<Rightarrow> PreviousPageMin pn = Some (fst kp))))
       (pages view)"

text \<open>
  The tokens of the page that a link field names (none when the field is absent), and the
  test of \<open>mergePages\<close>: the neighbour exists and the two pages together hold at most
  32 tokens.
\<close>

definition neighbourTokens :: "View \<Rightarrow> uint256 option \<Rightarrow> NFToken list option" where
  "neighbourTokens view link =
     (case link of
        None \<Rightarrow> None
      | Some k \<Rightarrow> map_option NonFungibleTokens (view_peek view k))"

definition mergeFits :: "NFToken list option \<Rightarrow> NFToken list \<Rightarrow> bool" where
  "mergeFits nb arr =
     (case nb of None \<Rightarrow> False | Some ts \<Rightarrow> length ts + length arr \<le> 32)"

text \<open>
  The view that \<open>mergePages\<close> leaves when it moves the tokens of the page under \<open>k1\<close>
  (content \<open>p1\<close>) into the page under \<open>k2\<close> (content \<open>p2\<close>): the upper page takes the
  merged tokens and the previous link of the lower page, the page before the lower page
  is pointed at the upper page, and the lower page is erased.
\<close>

definition mergedView :: "View \<Rightarrow> uint256 \<Rightarrow> uint256 \<Rightarrow> NFTokenPage \<Rightarrow> NFTokenPage \<Rightarrow> View" where
  "mergedView view k1 k2 p1 p2 =
     view_erase
       (case PreviousPageMin p1 of
          None \<Rightarrow>
            view_modify view k2
              (\<lambda>p. p\<lparr>NonFungibleTokens :=
                       mergeTokens (NonFungibleTokens p1) (NonFungibleTokens p2),
                     PreviousPageMin := None\<rparr>)
        | Some ppm \<Rightarrow>
            view_modify
              (view_modify
                 (view_modify view k2
                    (\<lambda>p. p\<lparr>NonFungibleTokens :=
                             mergeTokens (NonFungibleTokens p1) (NonFungibleTokens p2),
                           PreviousPageMin := None\<rparr>))
                 ppm (\<lambda>p. p\<lparr>NextPageMin := Some k2\<rparr>))
              k2 (\<lambda>p. p\<lparr>PreviousPageMin := Some ppm\<rparr>))
       k1"

text \<open>
  The number of entries of the page under a key, and the number of its entries that carry a
  given identifier.
\<close>

definition pageSize :: "View \<Rightarrow> uint256 \<Rightarrow> nat option" where
  "pageSize view k = map_option (\<lambda>p. length (NonFungibleTokens p)) (view_peek view k)"

definition countToken :: "View \<Rightarrow> uint256 \<Rightarrow> uint256 \<Rightarrow> nat option" where
  "countToken view k T =
     map_option (\<lambda>p. length (filter (\<lambda>e. TokenID e = T) (NonFungibleTokens p)))
       (view_peek view k)"

section \<open>The settlement rules in the words of the specification\<close>

text \<open>
  The brokered-mode conditions of preclaim as the specification lists them: the offers
  reference the same token and the same asset, the sell amount is at most the buy amount,
  a destination named by the sell offer is the buy offer's owner, and a broker fee, when
  given, is in the buy amount's asset, below the buy amount, and leaves at least the sell
  amount.
\<close>

definition brokeredAcceptable_spec :: "AcceptTx \<Rightarrow> NFTokenOffer \<Rightarrow> NFTokenOffer \<Rightarrow> bool" where
  "brokeredAcceptable_spec tx bo so =
     (offerTokenID bo = offerTokenID so \<and>
      issue (offerAmount bo) = issue (offerAmount so) \<and>
      amount_value (offerAmount so) \<le> amount_value (offerAmount bo) \<and>
      (case offerDestination so of None \<Rightarrow> True | Some dest \<Rightarrow> dest = offerOwner bo) \<and>
      (case acceptBrokerFee tx of
         None \<Rightarrow> True
       | Some fee \<Rightarrow>
           issue fee = issue (offerAmount bo) \<and>
           amount_value fee < amount_value (offerAmount bo) \<and>
           amount_value (offerAmount so) \<le>
             amount_value (offerAmount bo) - amount_value fee))"

text \<open>
  The issuer step as the specification words it: compute the cut; if it is positive and
  neither the seller nor the buyer is the issuer, pay it from the buyer to the issuer and
  take it off the amount. \<open>Inl\<close> is a failed payment.
\<close>

definition issuerCutStep_spec ::
  "Send \<Rightarrow> View \<Rightarrow> AccountID \<Rightarrow> AccountID \<Rightarrow> AccountID \<Rightarrow> STAmount \<Rightarrow> 16 word \<Rightarrow>
   (TER \<times> View) + (View \<times> STAmount)" where
  "issuerCutStep_spec send view buyer seller issuer amount fee =
     (let issuer_cut = transferFeeCut amount fee
      in if 0 < amount_value issuer_cut \<and> seller \<noteq> issuer \<and> buyer \<noteq> issuer
         then (case pay send view buyer issuer issuer_cut of
                 (r, view1) \<Rightarrow>
                   if \<not> isTesSuccess r then Inl (r, view1)
                   else Inr (view1, amount_minus amount issuer_cut))
         else Inr (view, amount))"

section \<open>Example ledgers\<close>

definition exOwner :: AccountID where
  "exOwner = 1"

definition exToken :: "nat \<Rightarrow> NFToken" where
  "exToken n = \<lparr>TokenID = of_nat n, URI = None\<rparr>"

text \<open>Tokens that all have the page part 7 and differ above it.\<close>

definition exEquivToken :: "nat \<Rightarrow> NFToken" where
  "exEquivToken n = \<lparr>TokenID = of_nat n * 2 ^ 96 + 7, URI = None\<rparr>"

definition exView :: "(uint256 \<times> NFTokenPage) list \<Rightarrow> View" where
  "exView ps =
     \<lparr>pages = ps,
      accounts = [exOwner \<mapsto> \<lparr>OwnerCount = 1, MintedTokens = None\<rparr>],
      offers = Map.empty, ownerDir = (\<lambda>_. []), tokenDir = (\<lambda>_. []),
      balances = (\<lambda>_. 0), parentCloseTime = 0\<rparr>"

definition exNumbers :: "nat list" where
  "exNumbers = [1, 2, 3, 4, 5, 6, 7, 8, 9, 10, 11, 12, 13, 14, 15, 16,
                17, 18, 19, 20, 21, 22, 23, 24, 25, 26, 27, 28, 29, 30, 31, 32]"

definition exFullPage :: NFTokenPage where
  "exFullPage =
     \<lparr>NonFungibleTokens = map exToken exNumbers, PreviousPageMin = None, NextPageMin = None\<rparr>"

definition exFullView :: View where
  "exFullView = exView [(nftpage_max exOwner, exFullPage)]"

definition exEquivPage :: NFTokenPage where
  "exEquivPage =
     \<lparr>NonFungibleTokens = map exEquivToken exNumbers, PreviousPageMin = None,
      NextPageMin = None\<rparr>"

definition exEquivView :: View where
  "exEquivView = exView [(nftpage_max exOwner, exEquivPage)]"

definition exSmallPage :: NFTokenPage where
  "exSmallPage =
     \<lparr>NonFungibleTokens = [exToken 5, exToken 9], PreviousPageMin = None, NextPageMin = None\<rparr>"

definition exSmallView :: View where
  "exSmallView = exView [(nftpage_max exOwner, exSmallPage)]"

text \<open>
  A token whose page part equals that of token 17, and a directory of two pages whose last
  page holds one token.
\<close>

definition exClashToken :: NFToken where
  "exClashToken = \<lparr>TokenID = 2 ^ 96 + 17, URI = None\<rparr>"

definition exLowPage :: NFTokenPage where
  "exLowPage =
     \<lparr>NonFungibleTokens = map exToken (take 16 exNumbers), PreviousPageMin = None,
      NextPageMin = Some (nftpage_max exOwner)\<rparr>"

definition exLastPage :: NFTokenPage where
  "exLastPage =
     \<lparr>NonFungibleTokens = [exToken 20],
      PreviousPageMin = Some (nftpage (nftpage_min exOwner) 17), NextPageMin = None\<rparr>"

definition exTwoPageView :: View where
  "exTwoPageView =
     (exView [(nftpage (nftpage_min exOwner) 17, exLowPage), (nftpage_max exOwner, exLastPage)])
       \<lparr>accounts := [exOwner \<mapsto> \<lparr>OwnerCount = 2, MintedTokens = None\<rparr>]\<rparr>"

definition exOnePageView :: View where
  "exOnePageView =
     exView [(nftpage (nftpage_min exOwner) 17, exLowPage\<lparr>NextPageMin := None\<rparr>)]"

text \<open>
  The directory that the insertion of the clashing token into the full example page leaves:
  the lower page holds tokens 1 to 16 and the clashing token, the upper page tokens 17 to 32.
\<close>

definition exClashView :: View where
  "exClashView =
     (exView
        [(nftpage_max exOwner,
          \<lparr>NonFungibleTokens = map exToken (drop 16 exNumbers),
           PreviousPageMin = Some (nftpage (nftpage_min exOwner) 17), NextPageMin = None\<rparr>),
         (nftpage (nftpage_min exOwner) 17,
          \<lparr>NonFungibleTokens = map exToken (take 16 exNumbers) @ [exClashToken],
           PreviousPageMin = None, NextPageMin = Some (nftpage_max exOwner)\<rparr>)])
       \<lparr>accounts := [exOwner \<mapsto> \<lparr>OwnerCount = 2, MintedTokens = None\<rparr>]\<rparr>"

text \<open>A generator for the ciphered taxon, a reserve table and a mint by the example owner.\<close>

definition exLcg :: "32 word \<Rightarrow> 32 word" where
  "exLcg s = 384160001 * s + 2459"

definition exReserve :: "32 word \<Rightarrow> int" where
  "exReserve n = 200 + 50 * uint n"

definition exMintTx :: MintTx where
  "exMintTx =
     \<lparr>mintAccount = exOwner, mintIssuer = None, mintFlags = 8, mintTransferFee = None,
      mintTokenTaxon = 0, mintURI = None\<rparr>"

definition exMaxSeqView :: View where
  "exMaxSeqView =
     (exView [])\<lparr>accounts := [exOwner \<mapsto> \<lparr>OwnerCount = 1, MintedTokens = Some 0xFFFFFFFF\<rparr>]\<rparr>"

definition exEmptyView :: View where
  "exEmptyView = exView []"

text \<open>
  The brokered sale of the specification's scenario: a token with transfer fee 50000, a
  sell offer of 900 by its owner, a buy offer of 1000, a broker who takes 100; every
  account starts with a balance of 1000.
\<close>

definition exIssuer :: AccountID where
  "exIssuer = 10"

definition exSeller :: AccountID where
  "exSeller = 11"

definition exBuyer :: AccountID where
  "exBuyer = 12"

definition exBroker :: AccountID where
  "exBroker = 13"

definition exXAU :: Issue where
  "exXAU = 1"

definition exSaleTokenID :: uint256 where
  "exSaleTokenID = createTokenID exLcg 8 50000 exIssuer 0 0"

definition exSaleToken :: NFToken where
  "exSaleToken = \<lparr>TokenID = exSaleTokenID, URI = None\<rparr>"

definition exSellOffer :: NFTokenOffer where
  "exSellOffer =
     \<lparr>offerOwner = exSeller, offerTokenID = exSaleTokenID,
      offerAmount = \<lparr>issue = exXAU, amount_value = 900\<rparr>, offerSell = True,
      offerDestination = None, offerExpiration = None\<rparr>"

definition exBuyOffer :: NFTokenOffer where
  "exBuyOffer =
     \<lparr>offerOwner = exBuyer, offerTokenID = exSaleTokenID,
      offerAmount = \<lparr>issue = exXAU, amount_value = 1000\<rparr>, offerSell = False,
      offerDestination = None, offerExpiration = None\<rparr>"

definition exSaleView :: View where
  "exSaleView =
     \<lparr>pages = [(nftpage_max exSeller,
                 \<lparr>NonFungibleTokens = [exSaleToken], PreviousPageMin = None,
                  NextPageMin = None\<rparr>)],
      accounts = [exIssuer \<mapsto> \<lparr>OwnerCount = 1, MintedTokens = Some 1\<rparr>,
                  exSeller \<mapsto> \<lparr>OwnerCount = 3, MintedTokens = None\<rparr>,
                  exBuyer \<mapsto> \<lparr>OwnerCount = 2, MintedTokens = None\<rparr>,
                  exBroker \<mapsto> \<lparr>OwnerCount = 1, MintedTokens = None\<rparr>],
      offers = [100 \<mapsto> exSellOffer, 101 \<mapsto> exBuyOffer],
      ownerDir = (\<lambda>_. [])(exSeller := [100], exBuyer := [101]),
      tokenDir = (\<lambda>_. [])((exSaleTokenID, True) := [100], (exSaleTokenID, False) := [101]),
      balances = (\<lambda>_. 1000), parentCloseTime = 0\<rparr>"

definition exSaleTx :: AcceptTx where
  "exSaleTx =
     \<lparr>acceptAccount = exBroker, acceptBuyOffer = Some 101, acceptSellOffer = Some 100,
      acceptBrokerFee = Some \<lparr>issue = exXAU, amount_value = 100\<rparr>\<rparr>"

section \<open>Lemmas on the store and on searching\<close>

lemma find_if_le: "find_if P xs \<le> length xs"
  by (induction xs) auto

lemma find_if_nth: "find_if P xs < length xs \<Longrightarrow> P (xs ! find_if P xs)"
  by (induction xs) auto

lemma find_if_before: "j < find_if P xs \<Longrightarrow> \<not> P (xs ! j)"
  by (induction xs arbitrary: j) (auto simp: nth_Cons split: if_splits nat.splits)

lemma find_if_none: "find_if P xs = length xs \<longleftrightarrow> (\<forall>x\<in>set xs. \<not> P x)"
  by (induction xs) auto

lemma find_if_lt: "(\<exists>x\<in>set xs. P x) \<Longrightarrow> find_if P xs < length xs"
  using find_if_none [of P xs] find_if_le [of P xs] by (meson le_neq_implies_less)

lemma find_if_Least:
  assumes "\<exists>i<length xs. P (xs ! i)"
  shows "find_if P xs = (LEAST i. i < length xs \<and> P (xs ! i))"
proof -
  from assms have "\<exists>x\<in>set xs. P x" using nth_mem by blast
  then have lt: "find_if P xs < length xs" by (rule find_if_lt)
  show ?thesis
  proof (rule Least_equality [symmetric])
    show "find_if P xs < length xs \<and> P (xs ! find_if P xs)"
      using lt find_if_nth by blast
  next
    fix y assume "y < length xs \<and> P (xs ! y)"
    then show "find_if P xs \<le> y"
      using find_if_before [of y P xs] by (meson not_less)
  qed
qed

lemma view_peek_insert:
  "view_peek (view_insert v k p) k' = (if k' = k then Some p else view_peek v k')"
  by (simp add: view_peek_def view_insert_def update_conv')

lemma view_peek_modify:
  "view_peek (view_modify v k f) k' =
     (if k' = k then map_option f (view_peek v k) else view_peek v k')"
  by (simp add: view_peek_def view_modify_def update_conv' split: option.splits)

lemma view_peek_erase:
  "view_peek (view_erase v k) k' = (if k' = k then None else view_peek v k')"
  by (simp add: view_peek_def view_erase_def delete_conv')

lemma view_peek_adjust [simp]:
  "view_peek (adjustOwnerCount v a d) k = view_peek v k"
  by (simp add: view_peek_def adjustOwnerCount_def split: option.splits)

lemma accounts_insert [simp]: "accounts (view_insert v k p) = accounts v"
  by (simp add: view_insert_def)

lemma accounts_modify [simp]: "accounts (view_modify v k f) = accounts v"
  by (simp add: view_modify_def split: option.splits)

lemma accounts_erase [simp]: "accounts (view_erase v k) = accounts v"
  by (simp add: view_erase_def)

lemma accounts_adjust:
  "accounts (adjustOwnerCount v a d) =
     (case accounts v a of None \<Rightarrow> accounts v
      | Some r \<Rightarrow> (accounts v)(a \<mapsto> r\<lparr>OwnerCount := OwnerCount r + word_of_int d\<rparr>))"
  by (simp add: adjustOwnerCount_def split: option.splits)

subsection \<open>The split index\<close>

lemma splitIter_all_equal:
  assumes "length narr = 32"
      and "\<forall>t\<in>set narr. page_prefix (TokenID t) = c"
  shows "splitIter narr = 0"
proof -
  have n15: "narr ! 15 \<in> set narr" using assms(1) by simp
  have eq: "\<And>t. t \<in> set narr \<Longrightarrow> (TokenID t AND pageMask) = (TokenID (narr ! 15) AND pageMask)"
    using assms(2) n15 by (simp add: page_prefix_def)
  have a: "find_if_not (\<lambda>obj. TokenID obj AND pageMask = TokenID (narr ! 15) AND pageMask) (drop 16 narr) = length (drop 16 narr)"
    unfolding find_if_not_def find_if_none using eq by (auto dest: in_set_dropD)
  have "narr \<noteq> []" using assms(1) by auto
  then obtain x xs where nx: "narr = x # xs" by (cases narr) auto
  have b: "find_if (\<lambda>obj. TokenID obj AND pageMask = TokenID (narr ! 15) AND pageMask) narr = 0"
    using eq [of x] by (simp add: nx)
  show ?thesis
    using a b assms(1) by (simp add: splitIter_def dirMaxTokensPerPage_def Let_def)
qed

lemma insertToken_full:
  assumes loc: "locatePage view owner (TokenID nft) = Some (k, page)"
      and full: "length (NonFungibleTokens page) = 32"
  shows "(splitIter (NonFungibleTokens page) = 0 \<or> splitIter (NonFungibleTokens page) = 32)
         \<Longrightarrow> insertToken view owner nft = (tecNO_SUITABLE_PAGE, view)"
    and "\<not> (splitIter (NonFungibleTokens page) = 0 \<or> splitIter (NonFungibleTokens page) = 32)
         \<Longrightarrow> fst (insertToken view owner nft) = tesSUCCESS"
  using loc full
  by (auto simp: insertToken_def getPageForToken_def locatePage_def Let_def dirMaxTokensPerPage_def
          view_peek_insert view_peek_modify ownerCountCallback_def
          split: option.splits if_splits prod.splits)


lemma splitIter_Least:
  assumes full: "length toks = 32"
  shows "splitIter toks =
     (if \<exists>i. 16 \<le> i \<and> i < 32 \<and> page_prefix (TokenID (toks ! i)) \<noteq> page_prefix (TokenID (toks ! 15))
      then (LEAST i. 16 \<le> i \<and> i < 32 \<and>
              page_prefix (TokenID (toks ! i)) \<noteq> page_prefix (TokenID (toks ! 15)))
      else (LEAST i. i < 32 \<and> page_prefix (TokenID (toks ! i)) = page_prefix (TokenID (toks ! 15))))"
proof -
  let ?cmp = "TokenID (toks ! 15) AND pageMask"
  let ?P = "\<lambda>obj. TokenID obj AND pageMask = ?cmp"
  let ?f = "find_if_not ?P (drop 16 toks)"
  have len: "length (drop 16 toks) = 16" using full by simp
  have unfold: "splitIter toks = (if 16 + ?f = 32 then find_if ?P toks else 16 + ?f)"
    using full by (simp add: splitIter_def dirMaxTokensPerPage_def Let_def)
  show ?thesis
  proof (cases "\<exists>i. 16 \<le> i \<and> i < 32 \<and> page_prefix (TokenID (toks ! i)) \<noteq> page_prefix (TokenID (toks ! 15))")
    case True
    then obtain i where i: "16 \<le> i" "i < 32" "\<not> ?P (toks ! i)"
      by (auto simp: page_prefix_def)
    have "toks ! i \<in> set (drop 16 toks)"
      using i full by (auto simp: in_set_conv_nth intro!: exI [of _ "i - 16"])
    with i(3) have lt: "?f < 16"
      using find_if_lt [of "drop 16 toks" "\<lambda>x. \<not> ?P x"] len by (auto simp: find_if_not_def)
    have nth: "\<not> ?P (toks ! (16 + ?f))"
      using find_if_nth [of "\<lambda>x. \<not> ?P x" "drop 16 toks"] lt len full
      by (simp add: find_if_not_def)
    have before: "\<And>y. 16 \<le> y \<Longrightarrow> y < 16 + ?f \<Longrightarrow> ?P (toks ! y)"
    proof -
      fix y assume y: "16 \<le> y" "y < 16 + ?f"
      then have "y - 16 < find_if (\<lambda>x. \<not> ?P x) (drop 16 toks)" by (simp add: find_if_not_def)
      from find_if_before [OF this] show "?P (toks ! y)" using y full lt by simp
    qed
    have "(LEAST i. 16 \<le> i \<and> i < 32 \<and>
              page_prefix (TokenID (toks ! i)) \<noteq> page_prefix (TokenID (toks ! 15))) = 16 + ?f"
    proof (rule Least_equality)
      show "16 \<le> 16 + ?f \<and> 16 + ?f < 32 \<and>
            page_prefix (TokenID (toks ! (16 + ?f))) \<noteq> page_prefix (TokenID (toks ! 15))"
        using lt nth by (simp add: page_prefix_def)
    next
      fix y assume "16 \<le> y \<and> y < 32 \<and>
            page_prefix (TokenID (toks ! y)) \<noteq> page_prefix (TokenID (toks ! 15))"
      then show "16 + ?f \<le> y" using before [of y] by (auto simp: page_prefix_def not_less [symmetric])
    qed
    with True lt unfold show ?thesis by simp
  next
    case False
    then have "\<forall>x\<in>set (drop 16 toks). ?P x"
      using full by (auto simp: in_set_conv_nth page_prefix_def)
    then have f16: "?f = 16"
      using find_if_none [of "\<lambda>x. \<not> ?P x" "drop 16 toks"] len by (simp add: find_if_not_def)
    have ex: "\<exists>i<length toks. ?P (toks ! i)" using full by (intro exI [of _ 15]) simp
    have "find_if ?P toks = (LEAST i. i < length toks \<and> ?P (toks ! i))"
      by (rule find_if_Least [OF ex])
    with f16 unfold full have sp: "splitIter toks =
        (LEAST i. i < 32 \<and> page_prefix (TokenID (toks ! i)) = page_prefix (TokenID (toks ! 15)))"
      by (simp add: page_prefix_def)
    show ?thesis by (simp only: if_not_P [OF False] sp)
  qed
qed

text \<open>
  Claim C2. For a located page that is full (32 tokens) the split index is the first index
  from 16 on whose page part differs from that of \<open>tokens[15]\<close>, and, when there is none,
  the first index from the front whose page part equals it. The insertion fails with
  \<open>tecNO_SUITABLE_PAGE\<close>, leaving the view as it was, exactly when that index is 0 or
  past the end; in particular it fails when the page part of the new token equals that of
  all 32 tokens of the page.
\<close>

theorem insertToken_full_page_split_index:
  assumes loc: "locatePage view owner (TokenID nft) = Some (k, page)"
      and full: "length (NonFungibleTokens page) = 32"
  shows "splitIter (NonFungibleTokens page) =
           (if \<exists>i. 16 \<le> i \<and> i < 32 \<and>
                 page_prefix (TokenID (NonFungibleTokens page ! i)) \<noteq>
                 page_prefix (TokenID (NonFungibleTokens page ! 15))
            then (LEAST i. 16 \<le> i \<and> i < 32 \<and>
                    page_prefix (TokenID (NonFungibleTokens page ! i)) \<noteq>
                    page_prefix (TokenID (NonFungibleTokens page ! 15)))
            else (LEAST i. i < 32 \<and>
                    page_prefix (TokenID (NonFungibleTokens page ! i)) =
                    page_prefix (TokenID (NonFungibleTokens page ! 15))))
       \<and> (fst (insertToken view owner nft) = tecNO_SUITABLE_PAGE \<longleftrightarrow>
            splitIter (NonFungibleTokens page) = 0 \<or> splitIter (NonFungibleTokens page) = 32)
       \<and> (splitIter (NonFungibleTokens page) = 0 \<or> splitIter (NonFungibleTokens page) = 32 \<longrightarrow>
            insertToken view owner nft = (tecNO_SUITABLE_PAGE, view))
       \<and> ((\<forall>t\<in>set (NonFungibleTokens page).
              page_prefix (TokenID t) = page_prefix (TokenID nft)) \<longrightarrow>
            insertToken view owner nft = (tecNO_SUITABLE_PAGE, view))"
proof (intro conjI impI)
  show "splitIter (NonFungibleTokens page) =
           (if \<exists>i. 16 \<le> i \<and> i < 32 \<and>
                 page_prefix (TokenID (NonFungibleTokens page ! i)) \<noteq>
                 page_prefix (TokenID (NonFungibleTokens page ! 15))
            then (LEAST i. 16 \<le> i \<and> i < 32 \<and>
                    page_prefix (TokenID (NonFungibleTokens page ! i)) \<noteq>
                    page_prefix (TokenID (NonFungibleTokens page ! 15)))
            else (LEAST i. i < 32 \<and>
                    page_prefix (TokenID (NonFungibleTokens page ! i)) =
                    page_prefix (TokenID (NonFungibleTokens page ! 15))))"
    by (rule splitIter_Least [OF full])
next
  show "fst (insertToken view owner nft) = tecNO_SUITABLE_PAGE \<longleftrightarrow>
            splitIter (NonFungibleTokens page) = 0 \<or> splitIter (NonFungibleTokens page) = 32"
    using insertToken_full [OF loc full] by (cases "splitIter (NonFungibleTokens page) = 0 \<or> splitIter (NonFungibleTokens page) = 32") auto
next
  assume "splitIter (NonFungibleTokens page) = 0 \<or> splitIter (NonFungibleTokens page) = 32"
  then show "insertToken view owner nft = (tecNO_SUITABLE_PAGE, view)"
    by (rule insertToken_full(1) [OF loc full])
next
  assume "\<forall>t\<in>set (NonFungibleTokens page). page_prefix (TokenID t) = page_prefix (TokenID nft)"
  then have "splitIter (NonFungibleTokens page) = 0"
    by (rule splitIter_all_equal [OF full])
  then show "insertToken view owner nft = (tecNO_SUITABLE_PAGE, view)"
    using insertToken_full(1) [OF loc full] by simp
qed

lemma length_filter_sortTokens:
  "length (filter P (sortTokens xs)) = length (filter P xs)"
  by (simp add: sortTokens_def filter_sort)

lemma set_sortTokens: "set (sortTokens xs) = set xs"
  by (simp add: sortTokens_def)

lemma length_sortTokens: "length (sortTokens xs) = length xs"
  by (simp add: sortTokens_def)

text \<open>
  Claim C10, as amended. \<open>insertToken\<close> makes no membership check: when the lookup of
  identifier \<open>T\<close> in the owner's directory finds a token (\<open>findToken\<close> succeeds, that is,
  \<open>T\<close> is on the page that \<open>locatePage\<close> reaches for \<open>T\<close>) and that page holds fewer than
  32 entries, inserting an entry with identifier \<open>T\<close> again returns \<open>tesSUCCESS\<close>; the page
  gains exactly the new entry, so it holds one more entry with identifier \<open>T\<close> than before
  and at least two.
\<close>

theorem insertToken_no_membership_check:
  assumes loc: "locatePage view owner T = Some (k, page)"
      and has: "findToken view owner T = Some t"
      and room: "length (NonFungibleTokens page) < 32"
      and nft: "TokenID nft = T"
  shows "\<exists>view' page'. insertToken view owner nft = (tesSUCCESS, view')
          \<and> view_peek view' k = Some page'
          \<and> accounts view' = accounts view
          \<and> length (NonFungibleTokens page') = Suc (length (NonFungibleTokens page))
          \<and> set (NonFungibleTokens page') = insert nft (set (NonFungibleTokens page))
          \<and> length (filter (\<lambda>e. TokenID e = T) (NonFungibleTokens page')) =
              Suc (length (filter (\<lambda>e. TokenID e = T) (NonFungibleTokens page)))
          \<and> 2 \<le> length (filter (\<lambda>e. TokenID e = T) (NonFungibleTokens page'))"
proof -
  let ?arr = "sortTokens (NonFungibleTokens page @ [nft])"
  let ?page' = "page\<lparr>NonFungibleTokens := ?arr\<rparr>"
  let ?view' = "view_modify view k (\<lambda>p. p\<lparr>NonFungibleTokens := ?arr\<rparr>)"
  have pk: "view_peek view k = Some page"
    using loc by (auto simp: locatePage_def Let_def)
  have gp: "getPageForToken view owner (TokenID nft) ownerCountCallback = (view, Some k)"
    using loc room nft
    by (auto simp: getPageForToken_def locatePage_def Let_def dirMaxTokensPerPage_def
             split: option.splits)
  have ins: "insertToken view owner nft = (tesSUCCESS, ?view')"
    using gp pk by (simp add: insertToken_def Let_def)
  have "List.find (\<lambda>e. TokenID e = T) (NonFungibleTokens page) = Some t"
    using has loc by (simp add: findToken_def)
  then have "t \<in> set (NonFungibleTokens page) \<and> TokenID t = T"
    by (auto simp: find_Some_iff)
  then have "filter (\<lambda>e. TokenID e = T) (NonFungibleTokens page) \<noteq> []"
    by (auto simp: filter_empty_conv)
  then have one: "1 \<le> length (filter (\<lambda>e. TokenID e = T) (NonFungibleTokens page))"
    by (cases "filter (\<lambda>e. TokenID e = T) (NonFungibleTokens page)") auto
  have cnt: "length (filter (\<lambda>e. TokenID e = T) (NonFungibleTokens ?page')) =
              Suc (length (filter (\<lambda>e. TokenID e = T) (NonFungibleTokens page)))"
    using nft by (simp add: length_filter_sortTokens)
  have two: "2 \<le> length (filter (\<lambda>e. TokenID e = T) (NonFungibleTokens ?page'))"
    using one unfolding cnt by simp
  have len: "length (NonFungibleTokens ?page') = Suc (length (NonFungibleTokens page))"
    by (simp add: length_sortTokens)
  have st: "set (NonFungibleTokens ?page') = insert nft (set (NonFungibleTokens page))"
    by (simp add: set_sortTokens)
  have peek: "view_peek ?view' k = Some ?page'"
    using pk by (simp add: view_peek_modify)
  have acc: "accounts ?view' = accounts view" by simp
  from ins peek acc len st cnt two show ?thesis by blast
qed

lemmas ex_key_defs = nftpage_def nftpage_max_def nftpage_min_def exOwner_def pageMask_def
  mask_eq_exp_minus_1

lemmas ex_view_defs = exView_def exNumbers_def exToken_def exEquivToken_def
  view_succ_def view_peek_def view_insert_def view_modify_def view_erase_def

theorem insertToken_full_page_split_index_witness:
  "insertToken exEquivView exOwner (exEquivToken 40) = (tecNO_SUITABLE_PAGE, exEquivView)"
proof -
  have loc: "locatePage exEquivView exOwner (TokenID (exEquivToken 40)) =
               Some (nftpage_max exOwner, exEquivPage)"
    by (simp add: locatePage_def exEquivView_def ex_view_defs ex_key_defs)
  have full: "length (NonFungibleTokens exEquivPage) = 32"
    by (simp add: exEquivPage_def exNumbers_def)
  have alleq: "\<forall>t\<in>set (NonFungibleTokens exEquivPage).
                 page_prefix (TokenID t) = page_prefix (TokenID (exEquivToken 40))"
    by (simp add: exEquivPage_def exNumbers_def exEquivToken_def page_prefix_def pageMask_def
          mask_eq_exp_minus_1)
  from insertToken_full_page_split_index [OF loc full] alleq show ?thesis by blast
qed

theorem insertToken_no_membership_check_witness:
  "fst (insertToken exSmallView exOwner (exToken 5)) = tesSUCCESS \<and>
   (\<exists>page'. view_peek (snd (insertToken exSmallView exOwner (exToken 5))) (nftpage_max exOwner)
               = Some page' \<and>
             2 \<le> length (filter (\<lambda>e. TokenID e = 5) (NonFungibleTokens page')))"
proof -
  have loc: "locatePage exSmallView exOwner 5 = Some (nftpage_max exOwner, exSmallPage)"
    by (simp add: locatePage_def exSmallView_def ex_view_defs ex_key_defs)
  have has: "findToken exSmallView exOwner 5 = Some (exToken 5)"
    by (simp add: findToken_def loc) (simp add: exSmallPage_def exToken_def)
  have room: "length (NonFungibleTokens exSmallPage) < 32"
    by (simp add: exSmallPage_def)
  have nft: "TokenID (exToken 5) = 5" by (simp add: exToken_def)
  from insertToken_no_membership_check [OF loc has room nft]
  obtain view' page' where "insertToken exSmallView exOwner (exToken 5) = (tesSUCCESS, view')"
    and "view_peek view' (nftpage_max exOwner) = Some page'"
    and "2 \<le> length (filter (\<lambda>e. TokenID e = 5) (NonFungibleTokens page'))"
    by blast
  then show ?thesis by simp
qed

lemma view_peek_callback [simp]:
  "view_peek (ownerCountCallback v a) k = view_peek v k"
  by (simp add: ownerCountCallback_def)

lemma accounts_callback:
  "accounts v a = Some root \<Longrightarrow>
   accounts (ownerCountCallback v a) a = Some (root\<lparr>OwnerCount := OwnerCount root + 1\<rparr>)"
  by (simp add: ownerCountCallback_def accounts_adjust)

lemma locatePage_peek:
  "locatePage view owner tid = Some (k, cp) \<Longrightarrow> view_peek view k = Some cp"
  by (auto simp: locatePage_def Let_def)

lemma getPageForToken_split_unfold:
  assumes loc: "locatePage view owner tid = Some (k, cp)"
      and full: "length (NonFungibleTokens cp) = 32"
      and i: "splitIter (NonFungibleTokens cp) \<noteq> 0" "splitIter (NonFungibleTokens cp) \<noteq> 32"
  shows "getPageForToken view owner tid createCallback =
     (let i = splitIter (NonFungibleTokens cp);
          npkey = nftpage (nftpage_min owner) (TokenID (NonFungibleTokens cp ! i));
          np = \<lparr>NonFungibleTokens = take i (NonFungibleTokens cp),
                PreviousPageMin = PreviousPageMin cp, NextPageMin = Some k\<rparr>;
          view1 = (case PreviousPageMin cp of
                     None \<Rightarrow> view
                   | Some ppm \<Rightarrow> view_modify view ppm (\<lambda>p3. p3\<lparr>NextPageMin := Some npkey\<rparr>));
          view2 = view_insert view1 npkey np;
          view3 = view_modify view2 k
                    (\<lambda>c. c\<lparr>NonFungibleTokens := drop i (NonFungibleTokens cp),
                           PreviousPageMin := Some npkey\<rparr>)
      in (createCallback view3 owner,
          Some (if nftpage (nftpage_min owner) tid \<le> npkey then npkey else k)))"
proof -
  have le: "splitIter (NonFungibleTokens cp) \<le> length (NonFungibleTokens cp)"
    using full by (auto simp: splitIter_def Let_def dirMaxTokensPerPage_def find_if_not_def
        intro: order_trans [OF find_if_le] dest: le_trans [OF find_if_le])
  show ?thesis
    using loc full i le
    by (auto simp: getPageForToken_def locatePage_def Let_def dirMaxTokensPerPage_def
          split: option.splits)
qed


text \<open>
  Claim C1, as amended. When the page located for a token holds 32 tokens and a split
  index \<open>i\<close> is found, the entries \<open>tokens[0..i)\<close> go to a new page whose key is derived
  from \<open>tokens[i]\<close>, the first entry that stays (not from \<open>tokens[0]\<close>): the new page
  takes the current page's previous link and points forward to the current page, the
  current page keeps \<open>tokens[i..)\<close> and points back to the new page, the old predecessor,
  when the view holds it, points forward to the new page, and the owner's count goes up
  by one.
\<close>

theorem getPageForToken_split_new_page:
  assumes loc: "locatePage view owner tid = Some (k, cp)"
      and full: "length (NonFungibleTokens cp) = 32"
      and i0: "splitIter (NonFungibleTokens cp) \<noteq> 0"
      and i32: "splitIter (NonFungibleTokens cp) \<noteq> 32"
      and fresh: "view_peek view (nftpage (nftpage_min owner)
                    (TokenID (NonFungibleTokens cp ! splitIter (NonFungibleTokens cp)))) = None"
      and acct: "accounts view owner = Some root"
  shows "\<exists>view' c'.
      getPageForToken view owner tid ownerCountCallback =
        (view',
         Some (if nftpage (nftpage_min owner) tid \<le>
                  nftpage (nftpage_min owner)
                    (TokenID (NonFungibleTokens cp ! splitIter (NonFungibleTokens cp)))
               then nftpage (nftpage_min owner)
                      (TokenID (NonFungibleTokens cp ! splitIter (NonFungibleTokens cp)))
               else k))
    \<and> view_peek view' (nftpage (nftpage_min owner)
          (TokenID (NonFungibleTokens cp ! splitIter (NonFungibleTokens cp)))) =
        Some \<lparr>NonFungibleTokens = take (splitIter (NonFungibleTokens cp)) (NonFungibleTokens cp),
              PreviousPageMin = PreviousPageMin cp, NextPageMin = Some k\<rparr>
    \<and> view_peek view' k = Some c'
    \<and> NonFungibleTokens c' = drop (splitIter (NonFungibleTokens cp)) (NonFungibleTokens cp)
    \<and> PreviousPageMin c' =
        Some (nftpage (nftpage_min owner)
               (TokenID (NonFungibleTokens cp ! splitIter (NonFungibleTokens cp))))
    \<and> (case PreviousPageMin cp of
          None \<Rightarrow> True
        | Some ppm \<Rightarrow>
            (case view_peek view ppm of
               None \<Rightarrow> True
             | Some p3 \<Rightarrow>
                 map_option NextPageMin (view_peek view' ppm) =
                 Some (Some (nftpage (nftpage_min owner)
                   (TokenID (NonFungibleTokens cp ! splitIter (NonFungibleTokens cp)))))))
    \<and> accounts view' owner = Some (root\<lparr>OwnerCount := OwnerCount root + 1\<rparr>)"
proof -
  define npkey where "npkey = nftpage (nftpage_min owner)
                    (TokenID (NonFungibleTokens cp ! splitIter (NonFungibleTokens cp)))"
  have pk: "view_peek view k = Some cp" by (rule locatePage_peek [OF loc])
  have nk: "npkey \<noteq> k" using fresh pk by (auto simp: npkey_def)
  have fresh': "view_peek view npkey = None" using fresh by (simp add: npkey_def)
  show ?thesis
    unfolding getPageForToken_split_unfold [OF loc full i0 i32] Let_def npkey_def [symmetric]
    using pk nk fresh' acct
    by (cases "PreviousPageMin cp")
       (auto simp: view_peek_insert view_peek_modify accounts_callback
             split: option.splits)
qed

theorem getPageForToken_split_new_page_witness:
  "view_peek (fst (getPageForToken exFullView exOwner 40 ownerCountCallback))
     (nftpage (nftpage_min exOwner) 17) =
   Some \<lparr>NonFungibleTokens = take 16 (NonFungibleTokens exFullPage),
         PreviousPageMin = None, NextPageMin = Some (nftpage_max exOwner)\<rparr>"
proof -
  have loc: "locatePage exFullView exOwner 40 = Some (nftpage_max exOwner, exFullPage)"
    by (simp add: locatePage_def exFullView_def ex_view_defs ex_key_defs)
  have full: "length (NonFungibleTokens exFullPage) = 32"
    by (simp add: exFullPage_def exNumbers_def)
  have sp: "splitIter (NonFungibleTokens exFullPage) = 16"
    by (simp add: splitIter_def find_if_not_def dirMaxTokensPerPage_def exFullPage_def
          exNumbers_def exToken_def pageMask_def mask_eq_exp_minus_1)
  have i0: "splitIter (NonFungibleTokens exFullPage) \<noteq> 0" by (simp add: sp)
  have i32: "splitIter (NonFungibleTokens exFullPage) \<noteq> 32" by (simp add: sp)
  have t16: "TokenID (NonFungibleTokens exFullPage ! 16) = 17"
    by (simp add: exFullPage_def exNumbers_def exToken_def)
  have fresh: "view_peek exFullView (nftpage (nftpage_min exOwner)
      (TokenID (NonFungibleTokens exFullPage ! splitIter (NonFungibleTokens exFullPage)))) = None"
    unfolding sp t16 by (simp add: exFullView_def ex_view_defs ex_key_defs)
  have acct: "accounts exFullView exOwner = Some \<lparr>OwnerCount = 1, MintedTokens = None\<rparr>"
    by (simp add: exFullView_def exView_def)
  have prev: "PreviousPageMin exFullPage = None" by (simp add: exFullPage_def)
  from getPageForToken_split_new_page [OF loc full i0 i32 fresh acct]
  show ?thesis unfolding sp t16 prev by auto
qed

text \<open>
  Claim C1 as stated fails: after the split of the full example page no page exists under
  the key derived from \<open>tokens[0]\<close>; the moved entries are under the key of \<open>tokens[16]\<close>.
\<close>

theorem getPageForToken_split_key_counterexample:
  "locatePage exFullView exOwner 40 = Some (nftpage_max exOwner, exFullPage) \<and>
   length (NonFungibleTokens exFullPage) = 32 \<and>
   splitIter (NonFungibleTokens exFullPage) = 16 \<and>
   view_peek (fst (getPageForToken exFullView exOwner 40 ownerCountCallback))
     (nftpage (nftpage_min exOwner) (page_prefix (TokenID (NonFungibleTokens exFullPage ! 0))))
     = None \<and>
   view_peek (fst (getPageForToken exFullView exOwner 40 ownerCountCallback))
     (nftpage (nftpage_min exOwner) (page_prefix (TokenID (NonFungibleTokens exFullPage ! 16))))
     = Some \<lparr>NonFungibleTokens = take 16 (NonFungibleTokens exFullPage),
              PreviousPageMin = None, NextPageMin = Some (nftpage_max exOwner)\<rparr>"
  by (simp add: locatePage_def getPageForToken_def splitIter_def find_if_not_def
        dirMaxTokensPerPage_def exFullView_def exFullPage_def ex_view_defs ex_key_defs
        page_prefix_def ownerCountCallback_def adjustOwnerCount_def)

lemmas ex_inv_defs = directoryInvariant_def ownerPages_def pageSizesOk_def coresident_def
  page_prefix_def

lemmas ex_engine_defs = insertToken_def getPageForToken_def splitIter_def find_if_not_def
  dirMaxTokensPerPage_def locatePage_def findToken_def removeToken_def loadPage_def
  mergePages_def ownerCountCallback_def adjustOwnerCount_def sortTokens_def compareTokens_def

lemma exFullView_invariant: "directoryInvariant exFullView exOwner"
  by (simp add: ex_inv_defs exFullView_def exFullPage_def ex_view_defs ex_key_defs)

lemma exFullView_clash_success:
  "fst (insertToken exFullView exOwner exClashToken) = tesSUCCESS"
  by (simp add: ex_engine_defs exClashToken_def exFullView_def exFullPage_def ex_view_defs
        ex_key_defs)

lemma exFullView_clash_invariant:
  "\<not> directoryInvariant (snd (insertToken exFullView exOwner exClashToken)) exOwner"
  by (simp add: ex_inv_defs ex_engine_defs exClashToken_def exFullView_def exFullPage_def
        ex_view_defs ex_key_defs)

lemma exFullView_clash_lost:
  "findToken (snd (insertToken exFullView exOwner exClashToken)) exOwner
     (TokenID exClashToken) = None"
  by (simp add: ex_engine_defs exClashToken_def exFullView_def exFullPage_def ex_view_defs
        ex_key_defs)

lemma exTwoPageView_invariant: "directoryInvariant exTwoPageView exOwner"
  by (simp add: ex_inv_defs exTwoPageView_def exLowPage_def exLastPage_def ex_view_defs
        ex_key_defs)

lemma exTwoPageView_remove:
  "removeToken exTwoPageView exOwner 20 = Inr (tesSUCCESS, exOnePageView)"
  by (simp add: ex_engine_defs exTwoPageView_def exOnePageView_def exLowPage_def
        exLastPage_def ex_view_defs ex_key_defs)

lemma exOnePageView_invariant: "directoryInvariant exOnePageView exOwner"
  by (simp add: ex_inv_defs exOnePageView_def exLowPage_def exLastPage_def ex_view_defs
        ex_key_defs)

lemma exOnePageView_insert_success:
  "fst (insertToken exOnePageView exOwner (exToken 25)) = tesSUCCESS"
  by (simp add: ex_engine_defs exOnePageView_def exLowPage_def exLastPage_def ex_view_defs
        ex_key_defs)

lemma exOnePageView_insert_invariant:
  "\<not> directoryInvariant (snd (insertToken exOnePageView exOwner (exToken 25))) exOwner"
  by (simp add: ex_inv_defs ex_engine_defs exOnePageView_def exLowPage_def exLastPage_def
        ex_view_defs ex_key_defs)

text \<open>
  Claim C7 fails on the code. From the full example page, which satisfies the directory
  invariant, \<open>insertToken\<close> of a token whose page part equals that of token 17 returns
  \<open>tesSUCCESS\<close>, yet the split leaves the new token on the lower page and token 17 on the
  upper one (\<open>first.key <= np->key()\<close> holds with equality), so that the invariant is broken
  and \<open>findToken\<close> no longer finds the new token. And after \<open>removeToken\<close> has erased the
  emptied last page of a two-page directory, the next \<open>insertToken\<close> beyond the remaining
  page creates a last page that is not linked to it.
\<close>

theorem insertToken_breaks_directory_invariant:
  "directoryInvariant exFullView exOwner \<and>
   fst (insertToken exFullView exOwner exClashToken) = tesSUCCESS \<and>
   \<not> directoryInvariant (snd (insertToken exFullView exOwner exClashToken)) exOwner \<and>
   findToken (snd (insertToken exFullView exOwner exClashToken)) exOwner
     (TokenID exClashToken) = None \<and>
   directoryInvariant exTwoPageView exOwner \<and>
   removeToken exTwoPageView exOwner 20 = Inr (tesSUCCESS, exOnePageView) \<and>
   directoryInvariant exOnePageView exOwner \<and>
   fst (insertToken exOnePageView exOwner (exToken 25)) = tesSUCCESS \<and>
   \<not> directoryInvariant (snd (insertToken exOnePageView exOwner (exToken 25))) exOwner"
  using exFullView_invariant exFullView_clash_success exFullView_clash_invariant
    exFullView_clash_lost exTwoPageView_invariant exTwoPageView_remove
    exOnePageView_invariant exOnePageView_insert_success exOnePageView_insert_invariant
  by blast

lemma createTokenID_seq: "ucast (createTokenID lcg fl fee iss tax s) = s"
  unfolding createTokenID_def Let_def
  by (rule bit_word_eqI) (auto simp: bit_simps)

lemma getPageForToken_accounts:
  "accounts (fst (getPageForToken v ow tid ownerCountCallback)) = accounts v \<or>
   accounts (fst (getPageForToken v ow tid ownerCountCallback)) = accounts (adjustOwnerCount v ow 1)"
  by (auto simp: getPageForToken_def Let_def ownerCountCallback_def accounts_adjust
        split: option.splits)

lemma insertToken_accounts:
  "accounts (snd (insertToken v ow n)) = accounts v \<or>
   accounts (snd (insertToken v ow n)) = accounts (adjustOwnerCount v ow 1)"
  using getPageForToken_accounts [of v ow "TokenID n"]
  by (auto simp: insertToken_def Let_def split: prod.splits option.splits)

lemma insertToken_MintedTokens:
  "map_option MintedTokens (accounts (snd (insertToken v ow n)) a) =
   map_option MintedTokens (accounts v a)"
  using insertToken_accounts [of v ow n]
  by (auto simp: accounts_adjust split: option.splits)

lemma insertToken_account_exists:
  "accounts v a = Some r \<Longrightarrow> \<exists>r'. accounts (snd (insertToken v ow n)) a = Some r'"
  using insertToken_accounts [of v ow n]
  by (auto simp: accounts_adjust split: option.splits)

lemma word_succ_wraps: "((s::32 word) + 1 < s) = (s = - 1)"
  by (simp add: less_le inc_less_eq_self_iff_eq)

lemma locatePage_accounts_update [simp]:
  "locatePage (v\<lparr>accounts := a\<rparr>) ow tid = locatePage v ow tid"
  by (simp add: locatePage_def view_succ_def view_peek_def)

text \<open>
  Claim C5. In the apply phase of Mint the sequence taken for the new identifier is the
  issuer's current \<open>MintedTokens\<close> (0 when absent): the identifier's low 32 bits are that
  sequence, and the issuer's \<open>MintedTokens\<close> is \<open>seq + 1\<close> afterwards. When the value is
  \<open>2^32 - 1\<close> the mint returns \<open>tecMAX_SEQUENCE_REACHED\<close> with the view as it was, so no
  identifier is created.
\<close>

theorem NFTokenMint_doApply_token_sequence:
  assumes iss: "accounts view (case mintIssuer tx of Some i \<Rightarrow> i | None \<Rightarrow> mintAccount tx) = Some root"
      and sub: "accounts view (mintAccount tx) = Some acct"
  shows
    "(let issuer = (case mintIssuer tx of Some i \<Rightarrow> i | None \<Rightarrow> mintAccount tx);
          seq = (case MintedTokens root of Some s \<Rightarrow> s | None \<Rightarrow> 0);
          view1 = view\<lparr>accounts := (accounts view)
                    (issuer \<mapsto> root\<lparr>MintedTokens := Some (seq + 1)\<rparr>)\<rparr>;
          nft = \<lparr>TokenID = createTokenID lcg (ucast (mintFlags tx AND 0x0000FFFF))
                            (case mintTransferFee tx of Some f \<Rightarrow> f | None \<Rightarrow> 0)
                            issuer (mintTokenTaxon tx) seq,
                 URI = mintURI tx\<rparr>
      in if seq = 0xFFFFFFFF
         then NFTokenMint_doApply lcg accountReserve mPriorBalance tx view =
                Inr (tecMAX_SEQUENCE_REACHED, view)
         else \<exists>ret. NFTokenMint_doApply lcg accountReserve mPriorBalance tx view =
                      Inr (ret, snd (insertToken view1 (mintAccount tx) nft))
                \<and> (ret = fst (insertToken view1 (mintAccount tx) nft) \<or>
                    ret = tecINSUFFICIENT_RESERVE)
                \<and> ucast (TokenID nft) = seq
                \<and> map_option MintedTokens
                     (accounts (snd (insertToken view1 (mintAccount tx) nft)) issuer) =
                   Some (Some (seq + 1)))"
proof -
  define issuer where "issuer = (case mintIssuer tx of Some i \<Rightarrow> i | None \<Rightarrow> mintAccount tx)"
  define seq where "seq = (case MintedTokens root of Some s \<Rightarrow> s | None \<Rightarrow> 0)"
  define view1 where "view1 = view\<lparr>accounts := (accounts view)
                    (issuer \<mapsto> root\<lparr>MintedTokens := Some (seq + 1)\<rparr>)\<rparr>"
  define nft where "nft = \<lparr>TokenID = createTokenID lcg (ucast (mintFlags tx AND 0x0000FFFF))
                            (case mintTransferFee tx of Some f \<Rightarrow> f | None \<Rightarrow> 0)
                            issuer (mintTokenTaxon tx) seq,
                 URI = mintURI tx\<rparr>"
  have iss': "accounts view issuer = Some root" using iss by (simp add: issuer_def)
  have e: "(0xFFFFFFFF :: 32 word) = - 1" by simp
  have max: "(seq = 0xFFFFFFFF) = (seq + 1 < seq)" by (simp only: word_succ_wraps e)
  show ?thesis
  proof (cases "seq = 0xFFFFFFFF")
    case True
    then have "seq + 1 < seq" using max by simp
    then have "NFTokenMint_doApply lcg accountReserve mPriorBalance tx view =
                Inr (tecMAX_SEQUENCE_REACHED, view)"
      using iss' by (simp add: NFTokenMint_doApply_def Let_def issuer_def [symmetric] seq_def [symmetric])
    with True show ?thesis
      by (simp add: Let_def issuer_def [symmetric] seq_def [symmetric])
  next
    case False
    then have nowrap: "\<not> seq + 1 < seq" using max by simp
    obtain acct1 where a1: "accounts view1 (mintAccount tx) = Some acct1"
      using sub iss' by (cases "mintAccount tx = issuer") (auto simp: view1_def)
    obtain acct2 where a2: "accounts (snd (insertToken view1 (mintAccount tx) nft)) (mintAccount tx) = Some acct2"
      using insertToken_account_exists [OF a1] by blast
    have minted: "map_option MintedTokens
                     (accounts (snd (insertToken view1 (mintAccount tx) nft)) issuer) =
                   Some (Some (seq + 1))"
      by (simp add: insertToken_MintedTokens) (simp add: view1_def)
    have run: "\<exists>ret. NFTokenMint_doApply lcg accountReserve mPriorBalance tx view =
                      Inr (ret, snd (insertToken view1 (mintAccount tx) nft))
                \<and> (ret = fst (insertToken view1 (mintAccount tx) nft) \<or>
                    ret = tecINSUFFICIENT_RESERVE)"
      using iss' nowrap a1 a2
      by (cases "insertToken view1 (mintAccount tx) nft")
         (auto simp: NFTokenMint_doApply_def Let_def issuer_def [symmetric] seq_def [symmetric]
            view1_def [symmetric] nft_def [symmetric])
    from False run minted show ?thesis
      by (auto simp: Let_def issuer_def [symmetric] seq_def [symmetric]
            view1_def [symmetric] nft_def [symmetric] createTokenID_seq)
  qed
qed

lemma insertToken_not_full:
  assumes loc: "locatePage view owner (TokenID nft) = Some (k, page)"
      and room: "length (NonFungibleTokens page) < 32"
  shows "insertToken view owner nft =
      (tesSUCCESS, view_modify view k
         (\<lambda>p. p\<lparr>NonFungibleTokens := sortTokens (NonFungibleTokens page @ [nft])\<rparr>))"
proof -
  have pk: "view_peek view k = Some page" by (rule locatePage_peek [OF loc])
  have gp: "getPageForToken view owner (TokenID nft) ownerCountCallback = (view, Some k)"
    using loc room
    by (auto simp: getPageForToken_def locatePage_def Let_def dirMaxTokensPerPage_def
             split: option.splits)
  show ?thesis using gp pk by (simp add: insertToken_def Let_def)
qed

lemma insertToken_new_page:
  assumes loc: "locatePage view owner (TokenID nft) = None"
  shows "fst (insertToken view owner nft) = tesSUCCESS \<and>
         accounts (snd (insertToken view owner nft)) = accounts (adjustOwnerCount view owner 1)"
  using loc
  by (auto simp: insertToken_def getPageForToken_def locatePage_def Let_def
        view_peek_insert ownerCountCallback_def accounts_adjust split: option.splits)

lemma insertToken_split:
  assumes loc: "locatePage view owner (TokenID nft) = Some (k, cp)"
      and full: "length (NonFungibleTokens cp) = 32"
      and i: "splitIter (NonFungibleTokens cp) \<noteq> 0" "splitIter (NonFungibleTokens cp) \<noteq> 32"
  shows "fst (insertToken view owner nft) = tesSUCCESS \<and>
         accounts (snd (insertToken view owner nft)) = accounts (adjustOwnerCount view owner 1)"
  using locatePage_peek [OF loc]
  unfolding insertToken_def getPageForToken_split_unfold [OF loc full i] Let_def
  by (auto simp: view_peek_insert view_peek_modify ownerCountCallback_def accounts_adjust
        split: option.splits)

lemma word_less_succ: "(x::32 word) \<noteq> - 1 \<Longrightarrow> x < x + 1"
  using word_succ_wraps [of x] by (metis add_cancel_right_right linorder_neqE one_neq_zero)

text \<open>
  Claim C6. After the insertion the mint fails with \<open>tecINSUFFICIENT_RESERVE\<close> exactly
  when the insertion succeeded, the submitter's owner count is strictly greater than
  before and the prior balance is below the reserve for the new count. A mint that lands
  in an existing page with room leaves the count alone and succeeds whatever the balance;
  a mint that creates a page (none located, or a full page split) raises the count by one
  and, unless the count wraps, is subject to the reserve.
\<close>

theorem NFTokenMint_doApply_reserve:
  assumes iss: "accounts view (case mintIssuer tx of Some i \<Rightarrow> i | None \<Rightarrow> mintAccount tx) = Some root"
      and sub: "accounts view (mintAccount tx) = Some acct"
      and nomax: "(case MintedTokens root of Some s \<Rightarrow> s | None \<Rightarrow> 0) \<noteq> 0xFFFFFFFF"
  shows
    "(let issuer = (case mintIssuer tx of Some i \<Rightarrow> i | None \<Rightarrow> mintAccount tx);
          seq = (case MintedTokens root of Some s \<Rightarrow> s | None \<Rightarrow> 0);
          view1 = view\<lparr>accounts := (accounts view)
                    (issuer \<mapsto> root\<lparr>MintedTokens := Some (seq + 1)\<rparr>)\<rparr>;
          nft = \<lparr>TokenID = createTokenID lcg (ucast (mintFlags tx AND 0x0000FFFF))
                            (case mintTransferFee tx of Some f \<Rightarrow> f | None \<Rightarrow> 0)
                            issuer (mintTokenTaxon tx) seq,
                 URI = mintURI tx\<rparr>;
          ret = fst (insertToken view1 (mintAccount tx) nft);
          view2 = snd (insertToken view1 (mintAccount tx) nft)
      in \<exists>acct1 acct2.
           accounts view1 (mintAccount tx) = Some acct1 \<and>
           accounts view2 (mintAccount tx) = Some acct2 \<and>
           NFTokenMint_doApply lcg accountReserve mPriorBalance tx view =
             Inr (if ret = tesSUCCESS \<and> OwnerCount acct2 > OwnerCount acct1 \<and>
                     mPriorBalance < accountReserve (OwnerCount acct2)
                  then tecINSUFFICIENT_RESERVE else ret, view2) \<and>
           (case locatePage view (mintAccount tx) (TokenID nft) of
              None \<Rightarrow>
                OwnerCount acct2 = OwnerCount acct1 + 1 \<and>
                (if OwnerCount acct1 = 0xFFFFFFFF then True
                 else NFTokenMint_doApply lcg accountReserve mPriorBalance tx view =
                        Inr (if mPriorBalance < accountReserve (OwnerCount acct1 + 1)
                             then tecINSUFFICIENT_RESERVE else tesSUCCESS, view2))
            | Some (k, page) \<Rightarrow>
                if length (NonFungibleTokens page) < 32
                then OwnerCount acct2 = OwnerCount acct1 \<and>
                     NFTokenMint_doApply lcg accountReserve mPriorBalance tx view =
                       Inr (tesSUCCESS, view2)
                else if length (NonFungibleTokens page) = 32 \<and>
                        splitIter (NonFungibleTokens page) \<noteq> 0 \<and>
                        splitIter (NonFungibleTokens page) \<noteq> 32
                then OwnerCount acct2 = OwnerCount acct1 + 1 \<and>
                     (if OwnerCount acct1 = 0xFFFFFFFF then True
                      else NFTokenMint_doApply lcg accountReserve mPriorBalance tx view =
                             Inr (if mPriorBalance < accountReserve (OwnerCount acct1 + 1)
                                  then tecINSUFFICIENT_RESERVE else tesSUCCESS, view2))
                else True))"
proof -
  define issuer where "issuer = (case mintIssuer tx of Some i \<Rightarrow> i | None \<Rightarrow> mintAccount tx)"
  define seq where "seq = (case MintedTokens root of Some s \<Rightarrow> s | None \<Rightarrow> 0)"
  define view1 where "view1 = view\<lparr>accounts := (accounts view)
                    (issuer \<mapsto> root\<lparr>MintedTokens := Some (seq + 1)\<rparr>)\<rparr>"
  define nft where "nft = \<lparr>TokenID = createTokenID lcg (ucast (mintFlags tx AND 0x0000FFFF))
                            (case mintTransferFee tx of Some f \<Rightarrow> f | None \<Rightarrow> 0)
                            issuer (mintTokenTaxon tx) seq,
                 URI = mintURI tx\<rparr>"
  define ret where "ret = fst (insertToken view1 (mintAccount tx) nft)"
  define view2 where "view2 = snd (insertToken view1 (mintAccount tx) nft)"
  have iss': "accounts view issuer = Some root" using iss by (simp add: issuer_def)
  have e: "(0xFFFFFFFF :: 32 word) = - 1" by simp
  have nowrap: "\<not> seq + 1 < seq"
    using nomax by (simp only: word_succ_wraps e seq_def [symmetric] not_False_eq_True)
  obtain acct1 where a1: "accounts view1 (mintAccount tx) = Some acct1"
    using sub iss' by (cases "mintAccount tx = issuer") (auto simp: view1_def)
  obtain acct2 where a2: "accounts view2 (mintAccount tx) = Some acct2"
    using insertToken_account_exists [OF a1] unfolding view2_def by blast
  have ins: "insertToken view1 (mintAccount tx) nft = (ret, view2)"
    by (simp add: ret_def view2_def)
  have run: "NFTokenMint_doApply lcg accountReserve mPriorBalance tx view =
             Inr (if ret = tesSUCCESS \<and> OwnerCount acct2 > OwnerCount acct1 \<and>
                     mPriorBalance < accountReserve (OwnerCount acct2)
                  then tecINSUFFICIENT_RESERVE else ret, view2)"
    using iss' nowrap a1 a2 ins
    by (auto simp: NFTokenMint_doApply_def Let_def issuer_def [symmetric] seq_def [symmetric]
            view1_def [symmetric] nft_def [symmetric])
  have loc1: "locatePage view1 (mintAccount tx) (TokenID nft) =
              locatePage view (mintAccount tx) (TokenID nft)"
    by (simp add: view1_def)
  have grow: "OwnerCount acct2 = OwnerCount acct1 + 1"
    if "accounts view2 = accounts (adjustOwnerCount view1 (mintAccount tx) 1)"
    using that a1 a2 by (auto simp: accounts_adjust)
  have tail: "(if OwnerCount acct1 = 0xFFFFFFFF then True
                 else NFTokenMint_doApply lcg accountReserve mPriorBalance tx view =
                        Inr (if mPriorBalance < accountReserve (OwnerCount acct1 + 1)
                             then tecINSUFFICIENT_RESERVE else tesSUCCESS, view2))"
    if r: "ret = tesSUCCESS" and g: "OwnerCount acct2 = OwnerCount acct1 + 1"
  proof (cases "OwnerCount acct1 = 0xFFFFFFFF")
    case True
    then show ?thesis by (rule if_P [THEN iffD2]) simp
  next
    case False
    then have "OwnerCount acct1 < OwnerCount acct1 + 1"
      by (intro word_less_succ) (simp only: e not_False_eq_True)
    then have "NFTokenMint_doApply lcg accountReserve mPriorBalance tx view =
                        Inr (if mPriorBalance < accountReserve (OwnerCount acct1 + 1)
                             then tecINSUFFICIENT_RESERVE else tesSUCCESS, view2)"
      using run r g by simp
    then show ?thesis using False by simp
  qed
  define P_same where "P_same \<longleftrightarrow> OwnerCount acct2 = OwnerCount acct1 \<and>
                     NFTokenMint_doApply lcg accountReserve mPriorBalance tx view =
                       Inr (tesSUCCESS, view2)"
  define P_grow where "P_grow \<longleftrightarrow> OwnerCount acct2 = OwnerCount acct1 + 1 \<and>
                (if OwnerCount acct1 = 0xFFFFFFFF then True
                 else NFTokenMint_doApply lcg accountReserve mPriorBalance tx view =
                        Inr (if mPriorBalance < accountReserve (OwnerCount acct1 + 1)
                             then tecINSUFFICIENT_RESERVE else tesSUCCESS, view2))"
  have growI: P_grow
    if "fst (insertToken view1 (mintAccount tx) nft) = tesSUCCESS \<and>
        accounts (snd (insertToken view1 (mintAccount tx) nft)) =
          accounts (adjustOwnerCount view1 (mintAccount tx) 1)"
  proof -
    from that have r: "ret = tesSUCCESS" and g: "OwnerCount acct2 = OwnerCount acct1 + 1"
      using grow by (simp_all add: ret_def view2_def)
    show ?thesis unfolding P_grow_def using g tail [OF r g] by blast
  qed
  have branches: "(case locatePage view (mintAccount tx) (TokenID nft) of
              None \<Rightarrow> P_grow
            | Some (k, page) \<Rightarrow>
                if length (NonFungibleTokens page) < 32 then P_same
                else if length (NonFungibleTokens page) = 32 \<and>
                        splitIter (NonFungibleTokens page) \<noteq> 0 \<and>
                        splitIter (NonFungibleTokens page) \<noteq> 32
                then P_grow
                else True)"
  proof (cases "locatePage view (mintAccount tx) (TokenID nft)")
    case None
    then have "locatePage view1 (mintAccount tx) (TokenID nft) = None" using loc1 by simp
    from growI [OF insertToken_new_page [OF this]] None show ?thesis by simp
  next
    case (Some kp)
    obtain k page where kp: "kp = (k, page)" by (cases kp)
    have l1: "locatePage view1 (mintAccount tx) (TokenID nft) = Some (k, page)"
      using Some kp loc1 by simp
    have same: P_same if room: "length (NonFungibleTokens page) < 32"
    proof -
      from insertToken_not_full [OF l1 room]
      have r: "ret = tesSUCCESS" and v: "accounts view2 = accounts view1"
        by (simp_all add: ret_def view2_def)
      have "OwnerCount acct2 = OwnerCount acct1" using v a1 a2 by simp
      then show ?thesis unfolding P_same_def using run r by simp
    qed
    have split: P_grow
      if "length (NonFungibleTokens page) = 32" "splitIter (NonFungibleTokens page) \<noteq> 0"
         "splitIter (NonFungibleTokens page) \<noteq> 32"
      by (rule growI [OF insertToken_split [OF l1 that]])
    show ?thesis using same split by (simp add: Some kp)
  qed
  from a1 a2 run branches [unfolded P_same_def P_grow_def] show ?thesis
    unfolding Let_def issuer_def [symmetric] seq_def [symmetric]
            view1_def [symmetric] nft_def [symmetric] ret_def [symmetric] view2_def [symmetric]
    by blast
qed

lemma exMint_token:
  "createTokenID exLcg 8 0 exOwner 0 0 =
   push_bit 240 8 + 2 ^ 64 + 2459 * 2 ^ 32"
  by (simp add: createTokenID_def cipheredTaxon_def exLcg_def exOwner_def)

theorem NFTokenMint_doApply_token_sequence_witness:
  "NFTokenMint_doApply exLcg exReserve 1000 exMintTx exMaxSeqView =
     Inr (tecMAX_SEQUENCE_REACHED, exMaxSeqView) \<and>
   (\<exists>ret view'. NFTokenMint_doApply exLcg exReserve 1000 exMintTx exSmallView = Inr (ret, view') \<and>
      map_option MintedTokens (accounts view' exOwner) = Some (Some 1))"
proof -
  have iss: "accounts exMaxSeqView (case mintIssuer exMintTx of Some i \<Rightarrow> i | None \<Rightarrow> mintAccount exMintTx)
               = Some \<lparr>OwnerCount = 1, MintedTokens = Some 0xFFFFFFFF\<rparr>"
    by (simp add: exMaxSeqView_def exMintTx_def)
  have sub: "accounts exMaxSeqView (mintAccount exMintTx) = Some \<lparr>OwnerCount = 1, MintedTokens = Some 0xFFFFFFFF\<rparr>"
    by (simp add: exMaxSeqView_def exMintTx_def)
  have iss2: "accounts exSmallView (case mintIssuer exMintTx of Some i \<Rightarrow> i | None \<Rightarrow> mintAccount exMintTx)
               = Some \<lparr>OwnerCount = 1, MintedTokens = None\<rparr>"
    by (simp add: exSmallView_def exView_def exMintTx_def)
  have sub2: "accounts exSmallView (mintAccount exMintTx) = Some \<lparr>OwnerCount = 1, MintedTokens = None\<rparr>"
    by (simp add: exSmallView_def exView_def exMintTx_def)
  from NFTokenMint_doApply_token_sequence [OF iss sub, of exLcg exReserve 1000]
  have first: "NFTokenMint_doApply exLcg exReserve 1000 exMintTx exMaxSeqView =
     Inr (tecMAX_SEQUENCE_REACHED, exMaxSeqView)" by (simp add: Let_def)
  from NFTokenMint_doApply_token_sequence [OF iss2 sub2, of exLcg exReserve 1000]
  have second: "\<exists>ret view'. NFTokenMint_doApply exLcg exReserve 1000 exMintTx exSmallView = Inr (ret, view') \<and>
      map_option MintedTokens (accounts view' exOwner) = Some (Some 1)"
    by (simp add: Let_def exMintTx_def) blast
  from first second show ?thesis by blast
qed

theorem NFTokenMint_doApply_reserve_witness:
  "(\<exists>view'. NFTokenMint_doApply exLcg exReserve 0 exMintTx exSmallView = Inr (tesSUCCESS, view')) \<and>
   (\<exists>view'. NFTokenMint_doApply exLcg exReserve 0 exMintTx exEmptyView =
              Inr (tecINSUFFICIENT_RESERVE, view')) \<and>
   (\<exists>view'. NFTokenMint_doApply exLcg exReserve 300 exMintTx exEmptyView =
              Inr (tesSUCCESS, view'))"
proof -
  have iss: "accounts exSmallView (case mintIssuer exMintTx of Some i \<Rightarrow> i | None \<Rightarrow> mintAccount exMintTx)
               = Some \<lparr>OwnerCount = 1, MintedTokens = None\<rparr>"
    by (simp add: exSmallView_def exView_def exMintTx_def)
  have sub: "accounts exSmallView (mintAccount exMintTx) = Some \<lparr>OwnerCount = 1, MintedTokens = None\<rparr>"
    by (simp add: exSmallView_def exView_def exMintTx_def)
  have iss2: "accounts exEmptyView (case mintIssuer exMintTx of Some i \<Rightarrow> i | None \<Rightarrow> mintAccount exMintTx)
               = Some \<lparr>OwnerCount = 1, MintedTokens = None\<rparr>"
    by (simp add: exEmptyView_def exView_def exMintTx_def)
  have sub2: "accounts exEmptyView (mintAccount exMintTx) = Some \<lparr>OwnerCount = 1, MintedTokens = None\<rparr>"
    by (simp add: exEmptyView_def exView_def exMintTx_def)
  have nomax: "(case MintedTokens \<lparr>OwnerCount = 1, MintedTokens = None\<rparr> of Some s \<Rightarrow> s | None \<Rightarrow> 0)
                 \<noteq> (0xFFFFFFFF :: 32 word)" by simp
  have loc: "locatePage exSmallView exOwner (push_bit 240 8 + 2 ^ 64 + 2459 * 2 ^ 32) =
             Some (nftpage_max exOwner, exSmallPage)"
    by (simp add: locatePage_def exSmallView_def ex_view_defs ex_key_defs)
  have loc2: "locatePage exEmptyView exOwner (push_bit 240 8 + 2 ^ 64 + 2459 * 2 ^ 32) = None"
    by (simp add: locatePage_def exEmptyView_def ex_view_defs ex_key_defs)
  have room: "length (NonFungibleTokens exSmallPage) < 32" by (simp add: exSmallPage_def)
  from NFTokenMint_doApply_reserve [OF iss sub nomax, of exLcg exReserve 0]
  have first: "\<exists>view'. NFTokenMint_doApply exLcg exReserve 0 exMintTx exSmallView = Inr (tesSUCCESS, view')"
    using loc room by (auto simp: Let_def exMintTx_def exMint_token)
  from NFTokenMint_doApply_reserve [OF iss2 sub2 nomax, of exLcg exReserve 0]
  have second: "\<exists>view'. NFTokenMint_doApply exLcg exReserve 0 exMintTx exEmptyView =
              Inr (tecINSUFFICIENT_RESERVE, view')"
    using loc2 by (auto simp: Let_def exMintTx_def exMint_token exEmptyView_def exView_def exReserve_def)
  from NFTokenMint_doApply_reserve [OF iss2 sub2 nomax, of exLcg exReserve 300]
  have third: "\<exists>view'. NFTokenMint_doApply exLcg exReserve 300 exMintTx exEmptyView =
              Inr (tesSUCCESS, view')"
    using loc2 by (auto simp: Let_def exMintTx_def exMint_token exEmptyView_def exView_def exReserve_def)
  from first second third show ?thesis by blast
qed

lemma preclaimBuy_codes:
  "preclaimBuy tx view bo \<noteq> Some tecBUY_SELL_MISMATCH \<and>
   preclaimBuy tx view bo \<noteq> Some tecINSUFFICIENT_PAYMENT"
  by (simp add: preclaimBuy_def Let_def)

lemma preclaimSell_codes:
  "preclaimSell tx view so \<noteq> Some tecBUY_SELL_MISMATCH \<and>
   preclaimSell tx view so \<noteq> Some tecINSUFFICIENT_PAYMENT"
  by (simp add: preclaimSell_def Let_def)

lemma preclaimBuy_fee [simp]:
  "preclaimBuy (tx\<lparr>acceptBrokerFee := f\<rparr>) view bo = preclaimBuy tx view bo"
  by (simp add: preclaimBuy_def cong: option.case_cong)

lemma preclaimSell_fee [simp]:
  "preclaimSell (tx\<lparr>acceptBrokerFee := f\<rparr>) view so = preclaimSell tx view so"
  by (simp add: preclaimSell_def cong: option.case_cong)

lemma preclaim_brokered_unfold:
  assumes buy: "acceptBuyOffer tx = Some b" and sell: "acceptSellOffer tx = Some s"
      and bo: "offers view b = Some bo" and so: "offers view s = Some so"
      and bexp: "\<not> hasExpired view (offerExpiration bo)"
      and sexp: "\<not> hasExpired view (offerExpiration so)"
  shows "NFTokenAcceptOffer_preclaim tx view =
     (case preclaimBrokered tx bo so of
        Some r \<Rightarrow> r
      | None \<Rightarrow>
          (case preclaimBuy tx view bo of
             Some r \<Rightarrow> r
           | None \<Rightarrow> (case preclaimSell tx view so of Some r \<Rightarrow> r | None \<Rightarrow> tesSUCCESS)))"
  using assms
  by (auto simp: NFTokenAcceptOffer_preclaim_def Let_def checkOffer_def isTesSuccess_def
        split: option.splits)

lemma preclaimBrokered_None:
  "(preclaimBrokered tx bo so = None) = brokeredAcceptable_spec tx bo so"
  by (auto simp: preclaimBrokered_def brokeredAcceptable_spec_def amount_minus_def
        split: option.splits)

lemma preclaimBrokered_codes:
  "preclaimBrokered tx bo so = Some r \<Longrightarrow>
   r = tecBUY_SELL_MISMATCH \<or> r = tecINSUFFICIENT_PAYMENT"
  by (auto simp: preclaimBrokered_def split: option.splits if_splits)

text \<open>
  Claim C8. With both offers present and unexpired, preclaim returns
  \<open>tecBUY_SELL_MISMATCH\<close> or \<open>tecINSUFFICIENT_PAYMENT\<close> exactly when the brokered conditions
  of the specification fail, and each failed condition gives its code: different tokens or
  assets give \<open>tecBUY_SELL_MISMATCH\<close>, a sell amount above the buy amount gives
  \<open>tecINSUFFICIENT_PAYMENT\<close>, a destination other than the buyer gives
  \<open>tecBUY_SELL_MISMATCH\<close>, a broker fee in another asset gives \<open>tecBUY_SELL_MISMATCH\<close>, a
  fee not below the buy amount or a sell amount above buy minus fee gives
  \<open>tecINSUFFICIENT_PAYMENT\<close>.
\<close>

theorem NFTokenAcceptOffer_preclaim_brokered:
  assumes buy: "acceptBuyOffer tx = Some b" and sell: "acceptSellOffer tx = Some s"
      and bo: "offers view b = Some bo" and so: "offers view s = Some so"
      and bexp: "\<not> hasExpired view (offerExpiration bo)"
      and sexp: "\<not> hasExpired view (offerExpiration so)"
  shows "((NFTokenAcceptOffer_preclaim tx view = tecBUY_SELL_MISMATCH \<or>
           NFTokenAcceptOffer_preclaim tx view = tecINSUFFICIENT_PAYMENT) =
          (\<not> brokeredAcceptable_spec tx bo so))
    \<and> (offerTokenID bo \<noteq> offerTokenID so \<longrightarrow>
          NFTokenAcceptOffer_preclaim tx view = tecBUY_SELL_MISMATCH)
    \<and> (offerTokenID bo = offerTokenID so \<and>
        issue (offerAmount bo) \<noteq> issue (offerAmount so) \<longrightarrow>
          NFTokenAcceptOffer_preclaim tx view = tecBUY_SELL_MISMATCH)
    \<and> (offerTokenID bo = offerTokenID so \<and>
        issue (offerAmount bo) = issue (offerAmount so) \<and>
        amount_value (offerAmount so) > amount_value (offerAmount bo) \<longrightarrow>
          NFTokenAcceptOffer_preclaim tx view = tecINSUFFICIENT_PAYMENT)
    \<and> (offerTokenID bo = offerTokenID so \<and>
        issue (offerAmount bo) = issue (offerAmount so) \<and>
        amount_value (offerAmount so) \<le> amount_value (offerAmount bo) \<and>
        (\<exists>dest. offerDestination so = Some dest \<and> dest \<noteq> offerOwner bo) \<longrightarrow>
          NFTokenAcceptOffer_preclaim tx view = tecBUY_SELL_MISMATCH)
    \<and> (\<forall>fee. brokeredAcceptable_spec (tx\<lparr>acceptBrokerFee := None\<rparr>) bo so \<and>
          acceptBrokerFee tx = Some fee \<longrightarrow>
          NFTokenAcceptOffer_preclaim tx view =
            (if issue fee \<noteq> issue (offerAmount bo) then tecBUY_SELL_MISMATCH
             else if amount_value fee \<ge> amount_value (offerAmount bo)
               then tecINSUFFICIENT_PAYMENT
             else if amount_value (offerAmount so) >
                     amount_value (offerAmount bo) - amount_value fee
               then tecINSUFFICIENT_PAYMENT
             else NFTokenAcceptOffer_preclaim (tx\<lparr>acceptBrokerFee := None\<rparr>) view))"
proof -
  note u = preclaim_brokered_unfold [OF buy sell bo so bexp sexp]
  have u0: "NFTokenAcceptOffer_preclaim (tx\<lparr>acceptBrokerFee := None\<rparr>) view =
     (case preclaimBrokered (tx\<lparr>acceptBrokerFee := None\<rparr>) bo so of
        Some r \<Rightarrow> r
      | None \<Rightarrow>
          (case preclaimBuy tx view bo of
             Some r \<Rightarrow> r
           | None \<Rightarrow> (case preclaimSell tx view so of Some r \<Rightarrow> r | None \<Rightarrow> tesSUCCESS)))"
    using preclaim_brokered_unfold [of "tx\<lparr>acceptBrokerFee := None\<rparr>" b s view bo so]
      buy sell bo so bexp sexp
    by (simp cong: option.case_cong)
  have c1: "(NFTokenAcceptOffer_preclaim tx view = tecBUY_SELL_MISMATCH \<or>
           NFTokenAcceptOffer_preclaim tx view = tecINSUFFICIENT_PAYMENT) =
          (\<not> brokeredAcceptable_spec tx bo so)"
  proof (cases "preclaimBrokered tx bo so")
    case None
    then have ok: "brokeredAcceptable_spec tx bo so" by (simp add: preclaimBrokered_None)
    show ?thesis
      using None ok preclaimBuy_codes [of tx view bo] preclaimSell_codes [of tx view so]
      by (auto simp: u split: option.splits)
  next
    case (Some r)
    then have "\<not> brokeredAcceptable_spec tx bo so"
      using preclaimBrokered_None [of tx bo so] by simp
    with Some preclaimBrokered_codes [OF Some] show ?thesis by (auto simp: u)
  qed
  have c2: "offerTokenID bo \<noteq> offerTokenID so \<longrightarrow>
          NFTokenAcceptOffer_preclaim tx view = tecBUY_SELL_MISMATCH"
    by (simp add: u preclaimBrokered_def)
  have c3: "offerTokenID bo = offerTokenID so \<and>
        issue (offerAmount bo) \<noteq> issue (offerAmount so) \<longrightarrow>
          NFTokenAcceptOffer_preclaim tx view = tecBUY_SELL_MISMATCH"
    by (simp add: u preclaimBrokered_def)
  have c4: "offerTokenID bo = offerTokenID so \<and>
        issue (offerAmount bo) = issue (offerAmount so) \<and>
        amount_value (offerAmount so) > amount_value (offerAmount bo) \<longrightarrow>
          NFTokenAcceptOffer_preclaim tx view = tecINSUFFICIENT_PAYMENT"
    by (simp add: u preclaimBrokered_def)
  have c5: "offerTokenID bo = offerTokenID so \<and>
        issue (offerAmount bo) = issue (offerAmount so) \<and>
        amount_value (offerAmount so) \<le> amount_value (offerAmount bo) \<and>
        (\<exists>dest. offerDestination so = Some dest \<and> dest \<noteq> offerOwner bo) \<longrightarrow>
          NFTokenAcceptOffer_preclaim tx view = tecBUY_SELL_MISMATCH"
    by (auto simp: u preclaimBrokered_def)
  have c6: "\<forall>fee. brokeredAcceptable_spec (tx\<lparr>acceptBrokerFee := None\<rparr>) bo so \<and>
          acceptBrokerFee tx = Some fee \<longrightarrow>
          NFTokenAcceptOffer_preclaim tx view =
            (if issue fee \<noteq> issue (offerAmount bo) then tecBUY_SELL_MISMATCH
             else if amount_value fee \<ge> amount_value (offerAmount bo)
               then tecINSUFFICIENT_PAYMENT
             else if amount_value (offerAmount so) >
                     amount_value (offerAmount bo) - amount_value fee
               then tecINSUFFICIENT_PAYMENT
             else NFTokenAcceptOffer_preclaim (tx\<lparr>acceptBrokerFee := None\<rparr>) view)"
    by (auto simp: u u0 preclaimBrokered_def brokeredAcceptable_spec_def amount_minus_def
          split: option.splits)
  from c1 c2 c3 c4 c5 c6 show ?thesis by blast
qed

lemma exSaleTokenID_value:
  "exSaleTokenID = 15482773851584606626399730760294329660301728396131980473495481421221855232"
  by (simp add: exSaleTokenID_def createTokenID_def cipheredTaxon_def exLcg_def exIssuer_def)

lemma exSale_fee: "getTransferFee exSaleTokenID = 50000"
  by (simp add: exSaleTokenID_value getTransferFee_def)

lemma exSale_issuer: "getIssuer exSaleTokenID = exIssuer"
  by (simp add: exSaleTokenID_value getIssuer_def exIssuer_def)

lemma transferFeeCut_nonneg:
  "0 \<le> amount_value a \<Longrightarrow> 0 \<le> amount_value (transferFeeCut a fee)"
  by (simp add: transferFeeCut_def pos_imp_zdiv_nonneg_iff)

lemma transferFeeCut_zero_fee [simp]: "amount_value (transferFeeCut a 0) = 0"
  by (simp add: transferFeeCut_def)

lemma transferFeeCut_zero_amount:
  "amount_value a = 0 \<Longrightarrow> amount_value (transferFeeCut a fee) = 0"
  by (simp add: transferFeeCut_def)

lemma amount_minus_zero: "amount_value c = 0 \<Longrightarrow> amount_minus a c = a"
  by (simp add: amount_minus_def)

lemma doApply_brokered_unfold:
  assumes buy: "acceptBuyOffer tx = Some bk" and bo: "offers view bk = Some b"
      and sell: "acceptSellOffer tx = Some sk" and so: "offers view sk = Some s"
      and d1: "deleteTokenOffer view bk b = (True, view1)"
      and d2: "deleteTokenOffer view1 sk s = (True, view2)"
  shows "NFTokenAcceptOffer_doApply send tx view =
     (case (case acceptBrokerFee tx of
              None \<Rightarrow> Inr (view2, offerAmount b)
            | Some cut1 \<Rightarrow>
                if amount_value cut1 \<noteq> 0 then
                  (case pay send view2 (offerOwner b) (acceptAccount tx) cut1 of
                     (r, view3) \<Rightarrow>
                       if \<not> isTesSuccess r then Inl (r, view3)
                       else Inr (view3, amount_minus (offerAmount b) cut1))
                else Inr (view2, offerAmount b)) of
        Inl rv \<Rightarrow> Inr rv
      | Inr (view3, amount1) \<Rightarrow>
          (case (if amount_value amount1 \<noteq> 0 \<and> getTransferFee (offerTokenID s) \<noteq> 0 then
                   (if offerOwner s \<noteq> getIssuer (offerTokenID s) \<and>
                       offerOwner b \<noteq> getIssuer (offerTokenID s) then
                      (case pay send view3 (offerOwner b) (getIssuer (offerTokenID s))
                              (transferFeeCut amount1 (getTransferFee (offerTokenID s))) of
                         (r, view4) \<Rightarrow>
                           if \<not> isTesSuccess r then Inl (r, view4)
                           else Inr (view4, amount_minus amount1
                                  (transferFeeCut amount1 (getTransferFee (offerTokenID s)))))
                    else Inr (view3, amount1))
                 else Inr (view3, amount1)) of
             Inl rv \<Rightarrow> Inr rv
           | Inr (view4, amount2) \<Rightarrow>
               (case (if amount_value amount2 > 0 then
                        (case pay send view4 (offerOwner b) (offerOwner s) amount2 of
                           (r, view5) \<Rightarrow>
                             if \<not> isTesSuccess r then Inl (r, view5) else Inr view5)
                      else Inr view4) of
                  Inl rv \<Rightarrow> Inr rv
                | Inr view5 \<Rightarrow>
                    transferToken view5 (offerOwner s) (offerOwner b) (offerTokenID s))))"
  using assms
  by (simp add: NFTokenAcceptOffer_doApply_def Let_def
        cong: sum.case_cong prod.case_cong if_cong)

lemma pay_zero:
  assumes zero: "\<And>v a c amt. amount_value amt = 0 \<Longrightarrow> send v a c amt = (tesSUCCESS, v)"
      and z: "amount_value amt = 0"
  shows "pay send v a c amt = (tesSUCCESS, v)"
  using zero [OF z] z by (simp add: pay_def)

lemma brokered_issuer_part:
  assumes zero: "\<And>v a c amt. amount_value amt = 0 \<Longrightarrow> send v a c amt = (tesSUCCESS, v)"
      and nonneg: "0 \<le> amount_value amount1"
  shows "(if amount_value amount1 \<noteq> 0 \<and> fee \<noteq> 0 then
            (if seller \<noteq> issuer \<and> buyer \<noteq> issuer then
               (case pay send view3 buyer issuer (transferFeeCut amount1 fee) of
                  (r, view4) \<Rightarrow>
                    if \<not> isTesSuccess r then Inl (r, view4)
                    else Inr (view4, amount_minus amount1 (transferFeeCut amount1 fee)))
             else Inr (view3, amount1))
          else Inr (view3, amount1)) =
         issuerCutStep_spec send view3 buyer seller issuer amount1 fee"
proof (cases "0 < amount_value (transferFeeCut amount1 fee)")
  case True
  then have "amount_value amount1 \<noteq> 0" "fee \<noteq> 0"
    using transferFeeCut_zero_amount [of amount1 fee] transferFeeCut_zero_fee [of amount1]
    by auto
  with True show ?thesis by (simp add: issuerCutStep_spec_def Let_def)
next
  case False
  then have z: "amount_value (transferFeeCut amount1 fee) = 0"
    using transferFeeCut_nonneg [OF nonneg, of fee] by simp
  show ?thesis
    using False pay_zero [OF zero z] amount_minus_zero [OF z]
    by (simp add: issuerCutStep_spec_def Let_def isTesSuccess_def)
qed

lemma direct_issuer_part:
  assumes nonneg: "0 \<le> amount_value amount"
  shows "(if fee \<noteq> 0 then
            (if amount_value (transferFeeCut amount fee) \<noteq> 0 \<and> seller \<noteq> issuer \<and> buyer \<noteq> issuer
             then (case pay send view buyer issuer (transferFeeCut amount fee) of
                     (r, view1) \<Rightarrow>
                       if \<not> isTesSuccess r then Inl (r, view1)
                       else Inr (view1, amount_minus amount (transferFeeCut amount fee)))
             else Inr (view, amount))
          else Inr (view, amount)) =
         issuerCutStep_spec send view buyer seller issuer amount fee"
  using transferFeeCut_nonneg [OF nonneg, of fee] transferFeeCut_zero_fee [of amount]
  by (cases "fee = 0") (auto simp: issuerCutStep_spec_def Let_def)

lemma acceptOffer_unfold:
  "acceptOffer send account view offer =
     (case (if amount_value (offerAmount offer) \<noteq> 0 then
              (case (if getTransferFee (offerTokenID offer) \<noteq> 0 then
                       (if amount_value (transferFeeCut (offerAmount offer)
                              (getTransferFee (offerTokenID offer))) \<noteq> 0 \<and>
                           (if offerSell offer then offerOwner offer else account) \<noteq>
                             getIssuer (offerTokenID offer) \<and>
                           (if offerSell offer then account else offerOwner offer) \<noteq>
                             getIssuer (offerTokenID offer)
                        then (case pay send view
                                     (if offerSell offer then account else offerOwner offer)
                                     (getIssuer (offerTokenID offer))
                                     (transferFeeCut (offerAmount offer)
                                        (getTransferFee (offerTokenID offer))) of
                                (r, view1) \<Rightarrow>
                                  if \<not> isTesSuccess r then Inl (r, view1)
                                  else Inr (view1, amount_minus (offerAmount offer)
                                    (transferFeeCut (offerAmount offer)
                                       (getTransferFee (offerTokenID offer)))))
                        else Inr (view, offerAmount offer))
                     else Inr (view, offerAmount offer)) of
                 Inl rv \<Rightarrow> Inl rv
               | Inr (view1, amount1) \<Rightarrow>
                   (case pay send view1
                           (if offerSell offer then account else offerOwner offer)
                           (if offerSell offer then offerOwner offer else account) amount1 of
                      (r, view2) \<Rightarrow>
                        if \<not> isTesSuccess r then Inl (r, view2) else Inr view2))
            else Inr view) of
        Inl rv \<Rightarrow> Inr rv
      | Inr view3 \<Rightarrow>
          transferToken view3 (if offerSell offer then offerOwner offer else account)
            (if offerSell offer then account else offerOwner offer) (offerTokenID offer))"
  by (simp add: acceptOffer_def Let_def cong: sum.case_cong prod.case_cong if_cong)

text \<open>
  Claim C4. In both settlements the code's issuer step is the step of the specification:
  the cut \<open>amount * transfer_fee / 100000\<close>, rounded down, is paid from the buyer to the
  issuer and taken off the amount exactly when it is positive and neither the seller nor
  the buyer is the issuer; otherwise nothing is paid and the amount stays. The direct
  settlement is \<open>acceptOffer\<close>; the brokered one is \<open>doApply\<close> with both offers loaded and
  deleted, where the step runs on what remains after the broker's fee. The ledger's send
  routine is any function that does nothing for a zero amount.
\<close>

theorem settlement_issuer_cut:
  assumes zero: "\<And>v a c amt. amount_value amt = 0 \<Longrightarrow> send v a c amt = (tesSUCCESS, v)"
  shows
   "(0 \<le> amount_value (offerAmount offer) \<longrightarrow>
       acceptOffer send account view offer =
        (let seller = (if offerSell offer then offerOwner offer else account);
             buyer = (if offerSell offer then account else offerOwner offer);
             tokenID = offerTokenID offer;
             amount = offerAmount offer
         in if amount_value amount = 0 then transferToken view seller buyer tokenID
            else (case issuerCutStep_spec send view buyer seller (getIssuer tokenID) amount
                         (getTransferFee tokenID) of
                    Inl rv \<Rightarrow> Inr rv
                  | Inr (view1, amount1) \<Rightarrow>
                      (case pay send view1 buyer seller amount1 of
                         (r, view2) \<Rightarrow>
                           if \<not> isTesSuccess r then Inr (r, view2)
                           else transferToken view2 seller buyer tokenID))))
    \<and> (\<forall>bk b sk s view1 view2.
          acceptBuyOffer tx = Some bk \<and> offers view bk = Some b \<and>
          acceptSellOffer tx = Some sk \<and> offers view sk = Some s \<and>
          deleteTokenOffer view bk b = (True, view1) \<and>
          deleteTokenOffer view1 sk s = (True, view2) \<and>
          0 \<le> amount_value (offerAmount b) \<and>
          (\<forall>f. acceptBrokerFee tx = Some f \<longrightarrow> amount_value f \<le> amount_value (offerAmount b))
          \<longrightarrow>
          NFTokenAcceptOffer_doApply send tx view =
            (case (case acceptBrokerFee tx of
                     None \<Rightarrow> Inr (view2, offerAmount b)
                   | Some broker_fee \<Rightarrow>
                       if amount_value broker_fee \<noteq> 0 then
                         (case pay send view2 (offerOwner b) (acceptAccount tx) broker_fee of
                            (r, view3) \<Rightarrow>
                              if \<not> isTesSuccess r then Inl (r, view3)
                              else Inr (view3, amount_minus (offerAmount b) broker_fee))
                       else Inr (view2, offerAmount b)) of
               Inl rv \<Rightarrow> Inr rv
             | Inr (view3, amount1) \<Rightarrow>
                 (case issuerCutStep_spec send view3 (offerOwner b) (offerOwner s)
                         (getIssuer (offerTokenID s)) amount1
                         (getTransferFee (offerTokenID s)) of
                    Inl rv \<Rightarrow> Inr rv
                  | Inr (view4, amount2) \<Rightarrow>
                      (case (if amount_value amount2 > 0 then
                               (case pay send view4 (offerOwner b) (offerOwner s) amount2 of
                                  (r, view5) \<Rightarrow>
                                    if \<not> isTesSuccess r then Inl (r, view5) else Inr view5)
                             else Inr view4) of
                         Inl rv \<Rightarrow> Inr rv
                       | Inr view5 \<Rightarrow>
                           transferToken view5 (offerOwner s) (offerOwner b)
                             (offerTokenID s)))))"
proof (intro conjI impI allI)
  assume nonneg: "0 \<le> amount_value (offerAmount offer)"
  show "acceptOffer send account view offer =
        (let seller = (if offerSell offer then offerOwner offer else account);
             buyer = (if offerSell offer then account else offerOwner offer);
             tokenID = offerTokenID offer;
             amount = offerAmount offer
         in if amount_value amount = 0 then transferToken view seller buyer tokenID
            else (case issuerCutStep_spec send view buyer seller (getIssuer tokenID) amount
                         (getTransferFee tokenID) of
                    Inl rv \<Rightarrow> Inr rv
                  | Inr (view1, amount1) \<Rightarrow>
                      (case pay send view1 buyer seller amount1 of
                         (r, view2) \<Rightarrow>
                           if \<not> isTesSuccess r then Inr (r, view2)
                           else transferToken view2 seller buyer tokenID)))"
    unfolding acceptOffer_unfold direct_issuer_part [OF nonneg] Let_def
    by (auto split: sum.splits prod.splits)
next
  fix bk b sk s view1 view2
  assume h: "acceptBuyOffer tx = Some bk \<and> offers view bk = Some b \<and>
          acceptSellOffer tx = Some sk \<and> offers view sk = Some s \<and>
          deleteTokenOffer view bk b = (True, view1) \<and>
          deleteTokenOffer view1 sk s = (True, view2) \<and>
          0 \<le> amount_value (offerAmount b) \<and>
          (\<forall>f. acceptBrokerFee tx = Some f \<longrightarrow> amount_value f \<le> amount_value (offerAmount b))"
  let ?broker = "(case acceptBrokerFee tx of
                     None \<Rightarrow> Inr (view2, offerAmount b)
                   | Some broker_fee \<Rightarrow>
                       if amount_value broker_fee \<noteq> 0 then
                         (case pay send view2 (offerOwner b) (acceptAccount tx) broker_fee of
                            (r, view3) \<Rightarrow>
                              if \<not> isTesSuccess r then Inl (r, view3)
                              else Inr (view3, amount_minus (offerAmount b) broker_fee))
                       else Inr (view2, offerAmount b))"
  have nn: "0 \<le> amount_value amount1" if "?broker = Inr (view3, amount1)" for view3 amount1
    using that h
    by (auto simp: amount_minus_def split: option.splits if_splits prod.splits)
  note u = doApply_brokered_unfold [of tx bk view b sk s view1 view2 send]
  show "NFTokenAcceptOffer_doApply send tx view =
            (case ?broker of
               Inl rv \<Rightarrow> Inr rv
             | Inr (view3, amount1) \<Rightarrow>
                 (case issuerCutStep_spec send view3 (offerOwner b) (offerOwner s)
                         (getIssuer (offerTokenID s)) amount1
                         (getTransferFee (offerTokenID s)) of
                    Inl rv \<Rightarrow> Inr rv
                  | Inr (view4, amount2) \<Rightarrow>
                      (case (if amount_value amount2 > 0 then
                               (case pay send view4 (offerOwner b) (offerOwner s) amount2 of
                                  (r, view5) \<Rightarrow>
                                    if \<not> isTesSuccess r then Inl (r, view5) else Inr view5)
                             else Inr view4) of
                         Inl rv \<Rightarrow> Inr rv
                       | Inr view5 \<Rightarrow>
                           transferToken view5 (offerOwner s) (offerOwner b)
                             (offerTokenID s))))"
  proof (cases ?broker)
    case (Inl rv)
    then show ?thesis using u h by simp
  next
    case (Inr va)
    obtain view3 amount1 where va: "va = (view3, amount1)" by (cases va)
    have n: "0 \<le> amount_value amount1" using nn Inr va by simp
    show ?thesis
      using u h Inr va by (simp add: brokered_issuer_part [OF zero n])
  qed
qed

text \<open>
  Claim C3. In a brokered accept whose payments succeed, the broker's fee is sent first
  from the buyer to the submitter, then the issuer's cut of what remains after the fee is
  sent from the buyer to the issuer, then the rest is sent from the buyer to the seller,
  and the token is transferred in the view these three payments leave. The witness is
  the sale of the specification: fee 50000, offers of 900 and 1000, broker fee 100.
\<close>

theorem brokered_payment_order:
  assumes buy: "acceptBuyOffer tx = Some bk" and bo: "offers view bk = Some b"
      and sell: "acceptSellOffer tx = Some sk" and so: "offers view sk = Some s"
      and d1: "deleteTokenOffer view bk b = (True, view1)"
      and d2: "deleteTokenOffer view1 sk s = (True, view2)"
      and fee: "acceptBrokerFee tx = Some broker_fee"
      and feepos: "0 < amount_value broker_fee"
      and s1: "send view2 (offerOwner b) (acceptAccount tx) broker_fee = (tesSUCCESS, view3)"
      and sellerni: "offerOwner s \<noteq> getIssuer (offerTokenID s)"
      and buyerni: "offerOwner b \<noteq> getIssuer (offerTokenID s)"
      and tf: "getTransferFee (offerTokenID s) \<noteq> 0"
      and rempos: "0 < amount_value (amount_minus (offerAmount b) broker_fee)"
      and s2: "send view3 (offerOwner b) (getIssuer (offerTokenID s))
                 (transferFeeCut (amount_minus (offerAmount b) broker_fee)
                    (getTransferFee (offerTokenID s))) = (tesSUCCESS, view4)"
      and restpos: "0 < amount_value
                 (amount_minus (amount_minus (offerAmount b) broker_fee)
                    (transferFeeCut (amount_minus (offerAmount b) broker_fee)
                       (getTransferFee (offerTokenID s))))"
      and s3: "send view4 (offerOwner b) (offerOwner s)
                 (amount_minus (amount_minus (offerAmount b) broker_fee)
                    (transferFeeCut (amount_minus (offerAmount b) broker_fee)
                       (getTransferFee (offerTokenID s)))) = (tesSUCCESS, view5)"
  shows "NFTokenAcceptOffer_doApply send tx view =
           transferToken view5 (offerOwner s) (offerOwner b) (offerTokenID s)"
proof -
  have cutnn: "0 \<le> amount_value (transferFeeCut (amount_minus (offerAmount b) broker_fee)
                    (getTransferFee (offerTokenID s)))"
    using rempos by (intro transferFeeCut_nonneg) simp
  show ?thesis
    unfolding doApply_brokered_unfold [OF buy bo sell so d1 d2]
    using fee feepos s1 sellerni buyerni tf rempos s2 restpos s3 cutnn
    by (simp add: pay_def isTesSuccess_def)
qed

lemma ledgerSend_success: "ledgerSend v a c amt = (tesSUCCESS, snd (ledgerSend v a c amt))"
  by (simp add: ledgerSend_def Let_def)

lemma ledgerSend_zero: "amount_value amt = 0 \<Longrightarrow> ledgerSend v a c amt = (tesSUCCESS, v)"
  by (simp add: ledgerSend_def Let_def)

lemmas ex_sale_defs = exSaleView_def exSaleTx_def exSellOffer_def exBuyOffer_def
  exSaleToken_def exIssuer_def exSeller_def exBuyer_def exBroker_def exXAU_def
  nftpage_def nftpage_max_def nftpage_min_def pageMask_def mask_eq_exp_minus_1
  view_succ_def view_peek_def view_insert_def view_modify_def view_erase_def

lemmas ex_settle_defs = NFTokenAcceptOffer_doApply_def acceptOffer_def transferToken_def
  deleteTokenOffer_def dirRemove_def pay_def ledgerSend_def isTesSuccess_def
  transferFeeCut_def amount_minus_def

lemmas ex_sale_token = exSaleTokenID_value exSale_fee [unfolded exSaleTokenID_value]
  exSale_issuer [unfolded exSaleTokenID_value exIssuer_def]

theorem brokered_payment_order_witness:
  "\<exists>v'. NFTokenAcceptOffer_doApply ledgerSend exSaleTx exSaleView = Inr (tesSUCCESS, v') \<and>
     balances v' (exBuyer, exXAU) = 0 \<and> balances v' (exBroker, exXAU) = 1100 \<and>
     balances v' (exIssuer, exXAU) = 1450 \<and> balances v' (exSeller, exXAU) = 1450 \<and>
     findToken v' exBuyer exSaleTokenID = Some exSaleToken \<and>
     findToken v' exSeller exSaleTokenID = None"
proof -
  define fee where "fee = \<lparr>issue = exXAU, amount_value = 100\<rparr>"
  define view1 where "view1 = snd (deleteTokenOffer exSaleView 101 exBuyOffer)"
  define view2 where "view2 = snd (deleteTokenOffer view1 100 exSellOffer)"
  define view3 where "view3 = snd (ledgerSend view2 exBuyer exBroker fee)"
  define rem where "rem = amount_minus (offerAmount exBuyOffer) fee"
  define cut where "cut = transferFeeCut rem (getTransferFee exSaleTokenID)"
  define view4 where "view4 = snd (ledgerSend view3 exBuyer exIssuer cut)"
  define view5 where "view5 = snd (ledgerSend view4 exBuyer exSeller (amount_minus rem cut))"
  have buy: "acceptBuyOffer exSaleTx = Some 101" by (simp add: exSaleTx_def)
  have sell: "acceptSellOffer exSaleTx = Some 100" by (simp add: exSaleTx_def)
  have bo: "offers exSaleView 101 = Some exBuyOffer" by (simp add: exSaleView_def)
  have so: "offers exSaleView 100 = Some exSellOffer" by (simp add: exSaleView_def)
  have "fst (deleteTokenOffer exSaleView 101 exBuyOffer) = True"
    by (simp add: ex_settle_defs ex_engine_defs ex_sale_defs ex_sale_token)
  then have d1: "deleteTokenOffer exSaleView 101 exBuyOffer = (True, view1)"
    by (simp add: view1_def prod_eq_iff)
  have "fst (deleteTokenOffer view1 100 exSellOffer) = True"
    by (simp add: view1_def ex_settle_defs ex_engine_defs ex_sale_defs ex_sale_token)
  then have d2: "deleteTokenOffer view1 100 exSellOffer = (True, view2)"
    by (simp add: view2_def prod_eq_iff)
  have f: "acceptBrokerFee exSaleTx = Some fee" by (simp add: exSaleTx_def fee_def)
  have feepos: "0 < amount_value fee" by (simp add: fee_def)
  have owners: "offerOwner exBuyOffer = exBuyer" "offerOwner exSellOffer = exSeller"
    "offerTokenID exSellOffer = exSaleTokenID" "acceptAccount exSaleTx = exBroker"
    by (simp_all add: exBuyOffer_def exSellOffer_def exSaleTx_def)
  have s1: "ledgerSend view2 (offerOwner exBuyOffer) (acceptAccount exSaleTx) fee =
              (tesSUCCESS, view3)"
    unfolding owners view3_def by (rule ledgerSend_success)
  have sellerni: "offerOwner exSellOffer \<noteq> getIssuer (offerTokenID exSellOffer)"
    by (simp add: owners exSale_issuer exSeller_def exIssuer_def)
  have buyerni: "offerOwner exBuyOffer \<noteq> getIssuer (offerTokenID exSellOffer)"
    by (simp add: owners exSale_issuer exBuyer_def exIssuer_def)
  have tf: "getTransferFee (offerTokenID exSellOffer) \<noteq> 0"
    by (simp add: owners exSale_fee)
  have remv: "amount_value rem = 900"
    by (simp add: rem_def fee_def exBuyOffer_def amount_minus_def)
  have cutv: "amount_value cut = 450"
    by (simp add: cut_def transferFeeCut_def remv exSale_fee)
  have rempos: "0 < amount_value (amount_minus (offerAmount exBuyOffer) fee)"
    using remv by (simp add: rem_def)
  have s2: "ledgerSend view3 (offerOwner exBuyOffer) (getIssuer (offerTokenID exSellOffer))
              (transferFeeCut (amount_minus (offerAmount exBuyOffer) fee)
                 (getTransferFee (offerTokenID exSellOffer))) = (tesSUCCESS, view4)"
    unfolding owners exSale_issuer view4_def cut_def rem_def by (rule ledgerSend_success)
  have restpos: "0 < amount_value
                 (amount_minus (amount_minus (offerAmount exBuyOffer) fee)
                    (transferFeeCut (amount_minus (offerAmount exBuyOffer) fee)
                       (getTransferFee (offerTokenID exSellOffer))))"
    using remv cutv by (simp add: owners rem_def cut_def amount_minus_def)
  have s3: "ledgerSend view4 (offerOwner exBuyOffer) (offerOwner exSellOffer)
                 (amount_minus (amount_minus (offerAmount exBuyOffer) fee)
                    (transferFeeCut (amount_minus (offerAmount exBuyOffer) fee)
                       (getTransferFee (offerTokenID exSellOffer)))) = (tesSUCCESS, view5)"
    unfolding owners view5_def cut_def rem_def by (rule ledgerSend_success)
  have moved: "\<exists>v'. transferToken view5 exSeller exBuyer exSaleTokenID = Inr (tesSUCCESS, v') \<and>
     balances v' (exBuyer, exXAU) = 0 \<and> balances v' (exBroker, exXAU) = 1100 \<and>
     balances v' (exIssuer, exXAU) = 1450 \<and> balances v' (exSeller, exXAU) = 1450 \<and>
     findToken v' exBuyer exSaleTokenID = Some exSaleToken \<and>
     findToken v' exSeller exSaleTokenID = None"
    by (simp add: view5_def view4_def view3_def view2_def view1_def cut_def rem_def fee_def
          ex_settle_defs ex_engine_defs ex_sale_defs ex_sale_token)
  from brokered_payment_order [where send = ledgerSend,
      OF buy bo sell so d1 d2 f feepos s1 sellerni buyerni tf rempos s2 restpos s3]
    moved
  show ?thesis by (simp add: owners)
qed

lemma exSale_found: "findToken exSaleView exSeller exSaleTokenID = Some exSaleToken"
  by (simp add: ex_engine_defs ex_sale_defs ex_sale_token)

theorem NFTokenAcceptOffer_preclaim_brokered_witness:
  "NFTokenAcceptOffer_preclaim exSaleTx exSaleView = tesSUCCESS \<and>
   NFTokenAcceptOffer_preclaim
     (exSaleTx\<lparr>acceptBrokerFee := Some \<lparr>issue = exXAU, amount_value = 101\<rparr>\<rparr>) exSaleView =
     tecINSUFFICIENT_PAYMENT"
proof -
  have bo: "offers exSaleView 101 = Some exBuyOffer" by (simp add: exSaleView_def)
  have so: "offers exSaleView 100 = Some exSellOffer" by (simp add: exSaleView_def)
  have bexp: "\<not> hasExpired exSaleView (offerExpiration exBuyOffer)"
    by (simp add: hasExpired_def exBuyOffer_def)
  have sexp: "\<not> hasExpired exSaleView (offerExpiration exSellOffer)"
    by (simp add: hasExpired_def exSellOffer_def)
  have buy: "acceptBuyOffer exSaleTx = Some 101" by (simp add: exSaleTx_def)
  have sell: "acceptSellOffer exSaleTx = Some 100" by (simp add: exSaleTx_def)
  have buy': "acceptBuyOffer
     (exSaleTx\<lparr>acceptBrokerFee := Some \<lparr>issue = exXAU, amount_value = 101\<rparr>\<rparr>) = Some 101"
    by (simp add: exSaleTx_def)
  have sell': "acceptSellOffer
     (exSaleTx\<lparr>acceptBrokerFee := Some \<lparr>issue = exXAU, amount_value = 101\<rparr>\<rparr>) = Some 100"
    by (simp add: exSaleTx_def)
  have plain: "NFTokenAcceptOffer_preclaim (exSaleTx\<lparr>acceptBrokerFee := None\<rparr>) exSaleView =
               tesSUCCESS"
    using exSale_found
    by (simp add: NFTokenAcceptOffer_preclaim_def checkOffer_def hasExpired_def
          preclaimBrokered_def preclaimBuy_def preclaimSell_def accountHolds_def
          isTesSuccess_def exSaleView_def exSaleTx_def exSellOffer_def exBuyOffer_def
          exSeller_def exBuyer_def exBroker_def)
  have ok0: "brokeredAcceptable_spec (exSaleTx\<lparr>acceptBrokerFee := None\<rparr>) exBuyOffer exSellOffer"
    by (simp add: brokeredAcceptable_spec_def exSaleTx_def exSellOffer_def exBuyOffer_def)
  from NFTokenAcceptOffer_preclaim_brokered [OF buy sell bo so bexp sexp] ok0 plain
  have first: "NFTokenAcceptOffer_preclaim exSaleTx exSaleView = tesSUCCESS"
    by (simp add: exSaleTx_def exSellOffer_def exBuyOffer_def exXAU_def)
  from NFTokenAcceptOffer_preclaim_brokered [OF buy' sell' bo so bexp sexp] ok0
  have second: "NFTokenAcceptOffer_preclaim
     (exSaleTx\<lparr>acceptBrokerFee := Some \<lparr>issue = exXAU, amount_value = 101\<rparr>\<rparr>) exSaleView =
     tecINSUFFICIENT_PAYMENT"
    by (simp add: exSaleTx_def exSellOffer_def exBuyOffer_def exXAU_def)
  from first second show ?thesis by simp
qed

theorem settlement_issuer_cut_witness:
  "(\<exists>v'. acceptOffer ledgerSend exBuyer exSaleView exSellOffer = Inr (tesSUCCESS, v') \<and>
      balances v' (exIssuer, exXAU) = 1450 \<and> balances v' (exSeller, exXAU) = 1450 \<and>
      balances v' (exBuyer, exXAU) = 100) \<and>
   (\<exists>v'. acceptOffer ledgerSend exBuyer exSaleView
            (exSellOffer\<lparr>offerAmount := \<lparr>issue = exXAU, amount_value = 1\<rparr>\<rparr>) =
            Inr (tesSUCCESS, v') \<and>
      balances v' (exIssuer, exXAU) = 1000 \<and> balances v' (exSeller, exXAU) = 1001 \<and>
      balances v' (exBuyer, exXAU) = 999)"
proof -
  have nn: "0 \<le> amount_value (offerAmount exSellOffer)" by (simp add: exSellOffer_def)
  have nn1: "0 \<le> amount_value
     (offerAmount (exSellOffer\<lparr>offerAmount := \<lparr>issue = exXAU, amount_value = 1\<rparr>\<rparr>))" by simp
  have first: "\<exists>v'. acceptOffer ledgerSend exBuyer exSaleView exSellOffer = Inr (tesSUCCESS, v') \<and>
      balances v' (exIssuer, exXAU) = 1450 \<and> balances v' (exSeller, exXAU) = 1450 \<and>
      balances v' (exBuyer, exXAU) = 100"
    using settlement_issuer_cut [of ledgerSend exSellOffer exBuyer exSaleView, OF ledgerSend_zero] nn
    by (simp add: Let_def issuerCutStep_spec_def ex_settle_defs ex_engine_defs ex_sale_defs
          ex_sale_token)
  have second: "\<exists>v'. acceptOffer ledgerSend exBuyer exSaleView
            (exSellOffer\<lparr>offerAmount := \<lparr>issue = exXAU, amount_value = 1\<rparr>\<rparr>) =
            Inr (tesSUCCESS, v') \<and>
      balances v' (exIssuer, exXAU) = 1000 \<and> balances v' (exSeller, exXAU) = 1001 \<and>
      balances v' (exBuyer, exXAU) = 999"
    using settlement_issuer_cut [of ledgerSend "exSellOffer\<lparr>offerAmount := \<lparr>issue = exXAU, amount_value = 1\<rparr>\<rparr>"
        exBuyer exSaleView, OF ledgerSend_zero] nn1
    by (simp add: Let_def issuerCutStep_spec_def ex_settle_defs ex_engine_defs ex_sale_defs
          ex_sale_token)
  from first second show ?thesis by blast
qed

lemma exFullView_clash_result:
  "insertToken exFullView exOwner exClashToken = (tesSUCCESS, exClashView)"
  by (simp add: ex_engine_defs exClashToken_def exFullView_def exFullPage_def ex_view_defs
        ex_key_defs exClashView_def)

text \<open>
  Claim C10 as stated fails. The insertion of the clashing token into the full example page
  returns \<open>tesSUCCESS\<close> and leaves the token on the lower page, which holds 17 entries. A
  second insertion of the same token returns \<open>tesSUCCESS\<close> again, but the lookup passes the
  lower page and the entry goes to the upper page: the page that held the token still holds
  one entry with its identifier, and so does the upper page.
\<close>

theorem insertToken_duplicate_elsewhere_counterexample:
  "insertToken exFullView exOwner exClashToken = (tesSUCCESS, exClashView) \<and>
   pageSize exClashView (nftpage (nftpage_min exOwner) 17) = Some 17 \<and>
   countToken exClashView (nftpage (nftpage_min exOwner) 17) (TokenID exClashToken) = Some 1 \<and>
   fst (insertToken exClashView exOwner exClashToken) = tesSUCCESS \<and>
   countToken (snd (insertToken exClashView exOwner exClashToken))
     (nftpage (nftpage_min exOwner) 17) (TokenID exClashToken) = Some 1 \<and>
   countToken (snd (insertToken exClashView exOwner exClashToken))
     (nftpage_max exOwner) (TokenID exClashToken) = Some 1"
  by (simp add: exFullView_clash_result)
     (simp add: ex_engine_defs exClashToken_def ex_view_defs ex_key_defs exClashView_def
        pageSize_def countToken_def)

lemma linksValid_entry:
  assumes "linksValid view" "view_peek view k = Some p"
  shows "(case PreviousPageMin p of
            None \<Rightarrow> True
          | Some q \<Rightarrow>
              q < k \<and>
              (case view_peek view q of
                 None \<Rightarrow> False
               | Some pq \<Rightarrow> NextPageMin pq = Some k)) \<and>
         (case NextPageMin p of
            None \<Rightarrow> True
          | Some n \<Rightarrow>
              k < n \<and>
              (case view_peek view n of
                 None \<Rightarrow> False
               | Some pn \<Rightarrow> PreviousPageMin pn = Some k))"
proof -
  have mem: "(k, p) \<in> set (pages view)"
    using assms(2) by (simp add: view_peek_def map_of_SomeD)
  from bspec [OF assms(1) [unfolded linksValid_def list_all_iff] mem]
  show ?thesis using assms(2) by (simp cong: option.case_cong)
qed

lemma linksValid_prev:
  assumes "linksValid view" "view_peek view k = Some p" "PreviousPageMin p = Some q"
  shows "q < k \<and> (\<exists>pq. view_peek view q = Some pq \<and> NextPageMin pq = Some k)"
  using linksValid_entry [OF assms(1,2)] assms(3)
  by (cases "view_peek view q") simp_all

lemma linksValid_next:
  assumes "linksValid view" "view_peek view k = Some p" "NextPageMin p = Some n"
  shows "k < n \<and> (\<exists>pn. view_peek view n = Some pn \<and> PreviousPageMin pn = Some k)"
  using linksValid_entry [OF assms(1,2)] assms(3)
  by (cases "view_peek view n") simp_all

lemma mergePages_nofit:
  assumes p1: "view_peek view k1 = Some p1" and p2: "view_peek view k2 = Some p2"
      and lt: "k1 < k2"
      and n: "NextPageMin p1 = Some k2" and p: "PreviousPageMin p2 = Some k1"
      and big: "\<not> length (NonFungibleTokens p1) + length (NonFungibleTokens p2) \<le> 32"
  shows "mergePages view k1 k2 = Inr (False, view)"
  using assms by (simp add: mergePages_def Let_def dirMaxTokensPerPage_def)

lemma mergePages_fit:
  assumes p1: "view_peek view k1 = Some p1" and p2: "view_peek view k2 = Some p2"
      and lt: "k1 < k2"
      and n: "NextPageMin p1 = Some k2" and p: "PreviousPageMin p2 = Some k1"
      and fits: "length (NonFungibleTokens p1) + length (NonFungibleTokens p2) \<le> 32"
      and p0: "\<And>q. PreviousPageMin p1 = Some q \<Longrightarrow> view_peek view q \<noteq> None"
  shows "mergePages view k1 k2 = Inr (True, mergedView view k1 k2 p1 p2)"
proof (cases "PreviousPageMin p1")
  case None
  then show ?thesis
    using p1 p2 lt n p fits
    by (simp add: mergePages_def mergedView_def Let_def dirMaxTokensPerPage_def)
next
  case (Some ppm)
  from p0 [OF Some] obtain pg where "view_peek view ppm = Some pg" by auto
  then have "view_peek (view_modify view k2
                    (\<lambda>p. p\<lparr>NonFungibleTokens :=
                             mergeTokens (NonFungibleTokens p1) (NonFungibleTokens p2),
                           PreviousPageMin := None\<rparr>)) ppm \<noteq> None"
    using p2 by (simp add: view_peek_modify)
  then show ?thesis
    using Some p1 p2 lt n p fits
    by (auto simp: mergePages_def mergedView_def Let_def dirMaxTokensPerPage_def)
qed

lemma accounts_mergedView [simp]: "accounts (mergedView view k1 k2 p1 p2) = accounts view"
  by (simp add: mergedView_def split: option.splits)

lemma view_peek_mergedView:
  assumes p2: "view_peek view k2 = Some p2" and ne: "k1 \<noteq> k2"
      and d: "\<forall>q. PreviousPageMin p1 = Some q \<longrightarrow> q \<noteq> k1 \<and> q \<noteq> k2"
  shows "view_peek (mergedView view k1 k2 p1 p2) k =
     (if k = k1 then None
      else if k = k2
        then Some (p2\<lparr>NonFungibleTokens :=
                        mergeTokens (NonFungibleTokens p1) (NonFungibleTokens p2),
                      PreviousPageMin := PreviousPageMin p1\<rparr>)
      else if PreviousPageMin p1 = Some k
        then map_option (\<lambda>p0. p0\<lparr>NextPageMin := Some k2\<rparr>) (view_peek view k)
      else view_peek view k)"
proof (cases "PreviousPageMin p1")
  case None
  then show ?thesis
    using p2 ne by (simp add: mergedView_def view_peek_modify view_peek_erase)
next
  case (Some ppm)
  from d Some have "ppm \<noteq> k1" "ppm \<noteq> k2" by simp_all
  then show ?thesis
    using Some p2 ne by (simp add: mergedView_def view_peek_modify view_peek_erase)
qed

lemma removeToken_merge_prev:
  assumes c: "view_peek v ck = Some c"
      and links: "\<forall>pk. PreviousPageMin c = Some pk \<longrightarrow>
                 pk < ck \<and> (\<exists>pp. view_peek v pk = Some pp \<and> NextPageMin pp = Some ck \<and>
                   (\<forall>q. PreviousPageMin pp = Some q \<longrightarrow> q < pk \<and> view_peek v q \<noteq> None))"
  shows "\<exists>v2 c2.
      (case PreviousPageMin c of None \<Rightarrow> Inr (False, v) | Some pk \<Rightarrow> mergePages v pk ck) =
        Inr (mergeFits (neighbourTokens v (PreviousPageMin c)) (NonFungibleTokens c), v2)
    \<and> accounts v2 = accounts v
    \<and> view_peek v2 ck = Some c2
    \<and> NextPageMin c2 = NextPageMin c
    \<and> NonFungibleTokens c2 =
        (case neighbourTokens v (PreviousPageMin c) of
           None \<Rightarrow> NonFungibleTokens c
         | Some ps \<Rightarrow>
             if length ps + length (NonFungibleTokens c) \<le> 32
             then mergeTokens ps (NonFungibleTokens c) else NonFungibleTokens c)
    \<and> (\<forall>k. ck < k \<longrightarrow> view_peek v2 k = view_peek v k)
    \<and> (\<forall>q. PreviousPageMin c2 = Some q \<longrightarrow> q < ck \<and> view_peek v2 q \<noteq> None)
    \<and> (\<forall>pk. PreviousPageMin c = Some pk \<longrightarrow>
          (view_peek v2 pk = None) =
          mergeFits (neighbourTokens v (PreviousPageMin c)) (NonFungibleTokens c))"
proof (cases "PreviousPageMin c")
  case None
  show ?thesis
    by (rule exI [of _ v], rule exI [of _ c])
       (simp add: None c neighbourTokens_def mergeFits_def)
next
  case (Some pk)
  from links [rule_format, OF Some] obtain pp where lt: "pk < ck" and pp: "view_peek v pk = Some pp"
    and n: "NextPageMin pp = Some ck"
    and q: "\<And>q. PreviousPageMin pp = Some q \<Longrightarrow> q < pk \<and> view_peek v q \<noteq> None"
    by blast
  have ne: "pk \<noteq> ck" using lt by auto
  have nt: "neighbourTokens v (Some pk) = Some (NonFungibleTokens pp)"
    by (simp add: neighbourTokens_def pp)
  show ?thesis
  proof (cases "length (NonFungibleTokens pp) + length (NonFungibleTokens c) \<le> 32")
    case False
    have run: "mergePages v pk ck = Inr (False, v)"
      by (rule mergePages_nofit [OF pp c lt n Some False])
    show ?thesis
      apply (rule exI [of _ v], rule exI [of _ c])
      using False lt by (simp add: Some c nt mergeFits_def run pp)
  next
    case True
    have run: "mergePages v pk ck = Inr (True, mergedView v pk ck pp c)"
      by (rule mergePages_fit [OF pp c lt n Some True]) (use q in blast)
    have d: "\<forall>q. PreviousPageMin pp = Some q \<longrightarrow> q \<noteq> pk \<and> q \<noteq> ck"
      using q lt by fastforce
    note pk' = view_peek_mergedView [OF c ne d]
    let ?c2 = "c\<lparr>NonFungibleTokens :=
                   mergeTokens (NonFungibleTokens pp) (NonFungibleTokens c),
                 PreviousPageMin := PreviousPageMin pp\<rparr>"
    have a1: "view_peek (mergedView v pk ck pp c) ck = Some ?c2"
      using ne by (simp add: pk')
    have a2: "\<forall>k. ck < k \<longrightarrow> view_peek (mergedView v pk ck pp c) k = view_peek v k"
    proof (intro allI impI)
      fix k assume k: "ck < k"
      then have "k \<noteq> pk" "k \<noteq> ck" using lt by auto
      moreover have "PreviousPageMin pp \<noteq> Some k" using q [of k] lt k by auto
      ultimately show "view_peek (mergedView v pk ck pp c) k = view_peek v k"
        by (simp add: pk')
    qed
    have a3: "\<forall>q. PreviousPageMin ?c2 = Some q \<longrightarrow>
                 q < ck \<and> view_peek (mergedView v pk ck pp c) q \<noteq> None"
    proof (intro allI impI)
      fix qq assume "PreviousPageMin ?c2 = Some qq"
      then have qq: "PreviousPageMin pp = Some qq" by simp
      from q [OF qq] have "qq < pk" "view_peek v qq \<noteq> None" by simp_all
      moreover have "view_peek (mergedView v pk ck pp c) qq =
          map_option (\<lambda>p0. p0\<lparr>NextPageMin := Some ck\<rparr>) (view_peek v qq)"
        using d qq by (simp add: pk')
      ultimately show "qq < ck \<and> view_peek (mergedView v pk ck pp c) qq \<noteq> None"
        using lt by auto
    qed
    have a4: "view_peek (mergedView v pk ck pp c) pk = None" by (simp add: pk')
    show ?thesis
      apply (rule exI [of _ "mergedView v pk ck pp c"], rule exI [of _ ?c2])
      using True a1 a2 a3 a4 by (simp add: Some nt mergeFits_def run)
  qed
qed

lemma removeToken_merge_next:
  assumes c2: "view_peek v2 ck = Some c2"
      and links: "\<forall>nk. NextPageMin c2 = Some nk \<longrightarrow>
                 ck < nk \<and> (\<exists>np. view_peek v2 nk = Some np \<and> PreviousPageMin np = Some ck)"
      and prevok: "\<forall>q. PreviousPageMin c2 = Some q \<longrightarrow> q < ck \<and> view_peek v2 q \<noteq> None"
  shows "\<exists>v3.
      (case NextPageMin c2 of None \<Rightarrow> Inr (False, v2) | Some nk \<Rightarrow> mergePages v2 ck nk) =
        Inr (mergeFits (neighbourTokens v2 (NextPageMin c2)) (NonFungibleTokens c2), v3)
    \<and> accounts v3 = accounts v2
    \<and> (view_peek v3 ck = None) =
        mergeFits (neighbourTokens v2 (NextPageMin c2)) (NonFungibleTokens c2)
    \<and> (if mergeFits (neighbourTokens v2 (NextPageMin c2)) (NonFungibleTokens c2)
       then (case NextPageMin c2 of
               None \<Rightarrow> False
             | Some nk \<Rightarrow>
                 map_option NonFungibleTokens (view_peek v3 nk) =
                 map_option (mergeTokens (NonFungibleTokens c2))
                   (neighbourTokens v2 (NextPageMin c2)))
       else view_peek v3 ck = Some c2)
    \<and> (\<forall>k. k < ck \<longrightarrow> (view_peek v3 k = None) = (view_peek v2 k = None))"
proof (cases "NextPageMin c2")
  case None
  show ?thesis
    by (rule exI [of _ v2]) (simp add: None c2 neighbourTokens_def mergeFits_def)
next
  case (Some nk)
  from links [rule_format, OF Some] obtain np where lt: "ck < nk" and np: "view_peek v2 nk = Some np"
    and p: "PreviousPageMin np = Some ck" by blast
  have ne: "ck \<noteq> nk" using lt by auto
  have nt: "neighbourTokens v2 (Some nk) = Some (NonFungibleTokens np)"
    by (simp add: neighbourTokens_def np)
  show ?thesis
  proof (cases "length (NonFungibleTokens c2) + length (NonFungibleTokens np) \<le> 32")
    case False
    have run: "mergePages v2 ck nk = Inr (False, v2)"
      by (rule mergePages_nofit [OF c2 np lt Some p False])
    show ?thesis
      apply (rule exI [of _ v2])
      using False by (simp add: Some c2 nt mergeFits_def run add.commute)
  next
    case True
    have run: "mergePages v2 ck nk = Inr (True, mergedView v2 ck nk c2 np)"
      by (rule mergePages_fit [OF c2 np lt Some p True]) (use prevok in blast)
    have d: "\<forall>q. PreviousPageMin c2 = Some q \<longrightarrow> q \<noteq> ck \<and> q \<noteq> nk"
      using prevok lt by fastforce
    note pk' = view_peek_mergedView [OF np ne d]
    have a1: "view_peek (mergedView v2 ck nk c2 np) ck = None" by (simp add: pk')
    have a2: "map_option NonFungibleTokens (view_peek (mergedView v2 ck nk c2 np) nk) =
              Some (mergeTokens (NonFungibleTokens c2) (NonFungibleTokens np))"
      using ne by (simp add: pk')
    have a3: "\<forall>k. k < ck \<longrightarrow>
                (view_peek (mergedView v2 ck nk c2 np) k = None) = (view_peek v2 k = None)"
    proof (intro allI impI)
      fix k assume "k < ck"
      then have "k \<noteq> ck" "k \<noteq> nk" using lt by auto
      then show "(view_peek (mergedView v2 ck nk c2 np) k = None) = (view_peek v2 k = None)"
        by (simp add: pk')
    qed
    show ?thesis
      apply (rule exI [of _ "mergedView v2 ck nk c2 np"])
      using True a1 a2 a3 by (simp add: Some nt mergeFits_def run add.commute)
  qed
qed

lemma loadPage_valid:
  assumes "linksValid view" "view_peek view k = Some p"
  shows "loadPage view k (PreviousPageMin p) = Inr (PreviousPageMin p)"
    and "loadPage view k (NextPageMin p) = Inr (NextPageMin p)"
  using linksValid_prev [OF assms] linksValid_next [OF assms]
  by (auto simp: loadPage_def split: option.splits)

lemma owner_count_adjusted:
  "accounts v owner = Some root \<Longrightarrow>
   accounts (let cnt = (if m1 then - 1 else 0) + (if m2 then - 1 else (0::int))
             in if cnt \<noteq> 0 then adjustOwnerCount v owner cnt else v) owner =
   Some (root\<lparr>OwnerCount := OwnerCount root - of_bool m1 - of_bool m2\<rparr>)"
  by (cases m1; cases m2) (simp_all add: accounts_adjust)

lemma removeToken_nonempty:
  assumes valid: "linksValid view"
      and loc: "locatePage view owner T = Some (ck, cur)"
      and found: "find_if (\<lambda>obj. TokenID obj = T) (NonFungibleTokens cur)
                    < length (NonFungibleTokens cur)"
      and acct: "accounts view owner = Some root"
      and arr: "arr = take (find_if (\<lambda>obj. TokenID obj = T) (NonFungibleTokens cur))
                        (NonFungibleTokens cur) @
                      drop (Suc (find_if (\<lambda>obj. TokenID obj = T) (NonFungibleTokens cur)))
                        (NonFungibleTokens cur)"
      and ne: "arr \<noteq> []"
      and ptoks: "ptoks = neighbourTokens view (PreviousPageMin cur)"
      and ntoks: "ntoks = neighbourTokens view (NextPageMin cur)"
      and arr1: "arr1 = (case ptoks of
                           None \<Rightarrow> arr
                         | Some ps \<Rightarrow> if length ps + length arr \<le> 32
                                      then mergeTokens ps arr else arr)"
  shows "\<exists>view'. removeToken view owner T = Inr (tesSUCCESS, view') \<and>
      accounts view' owner =
        Some (root\<lparr>OwnerCount := OwnerCount root - of_bool (mergeFits ptoks arr)
                                   - of_bool (mergeFits ntoks arr1)\<rparr>) \<and>
      (case PreviousPageMin cur of
         None \<Rightarrow> True
       | Some pk \<Rightarrow> (view_peek view' pk = None) = mergeFits ptoks arr) \<and>
      (view_peek view' ck = None) = mergeFits ntoks arr1 \<and>
      (if mergeFits ntoks arr1
       then (case NextPageMin cur of
               None \<Rightarrow> False
             | Some nk \<Rightarrow>
                 map_option NonFungibleTokens (view_peek view' nk) =
                 map_option (mergeTokens arr1) ntoks)
       else map_option NonFungibleTokens (view_peek view' ck) = Some arr1)"
proof -
  define view1 where "view1 = view_modify view ck (\<lambda>p. p\<lparr>NonFungibleTokens := arr\<rparr>)"
  define cur1 where "cur1 = cur\<lparr>NonFungibleTokens := arr\<rparr>"
  have pk0: "view_peek view ck = Some cur" by (rule locatePage_peek [OF loc])
  have peek1: "view_peek view1 k = (if k = ck then Some cur1 else view_peek view k)" for k
    by (simp add: view1_def cur1_def view_peek_modify pk0)
  have c1: "view_peek view1 ck = Some cur1" by (simp add: peek1)
  have acc1: "accounts view1 = accounts view" by (simp add: view1_def)
  have f1 [simp]: "PreviousPageMin cur1 = PreviousPageMin cur" "NextPageMin cur1 = NextPageMin cur"
    "NonFungibleTokens cur1 = arr" by (simp_all add: cur1_def)
  have links1: "\<forall>pk. PreviousPageMin cur1 = Some pk \<longrightarrow>
                 pk < ck \<and> (\<exists>pp. view_peek view1 pk = Some pp \<and> NextPageMin pp = Some ck \<and>
                   (\<forall>q. PreviousPageMin pp = Some q \<longrightarrow> q < pk \<and> view_peek view1 q \<noteq> None))"
  proof (intro allI impI)
    fix pk
    assume "PreviousPageMin cur1 = Some pk"
    then have pc: "PreviousPageMin cur = Some pk" by simp
    from linksValid_prev [OF valid pk0 pc] obtain pp where lt: "pk < ck"
      and pp: "view_peek view pk = Some pp" and n: "NextPageMin pp = Some ck" by blast
    have "q < pk \<and> view_peek view1 q \<noteq> None" if "PreviousPageMin pp = Some q" for q
      using linksValid_prev [OF valid pp that] by (auto simp: peek1)
    moreover have "view_peek view1 pk = Some pp" using lt pp by (auto simp: peek1)
    ultimately show "pk < ck \<and> (\<exists>pp. view_peek view1 pk = Some pp \<and> NextPageMin pp = Some ck \<and>
                   (\<forall>q. PreviousPageMin pp = Some q \<longrightarrow> q < pk \<and> view_peek view1 q \<noteq> None))"
      using lt n by blast
  qed
  have nb1: "neighbourTokens view1 (PreviousPageMin cur) = ptoks"
  proof (cases "PreviousPageMin cur")
    case None
    then show ?thesis by (simp add: ptoks neighbourTokens_def)
  next
    case (Some pk)
    then have "pk \<noteq> ck" using linksValid_prev [OF valid pk0 Some] by auto
    then show ?thesis by (simp add: ptoks neighbourTokens_def Some peek1)
  qed
  from removeToken_merge_prev [OF c1 links1] obtain v2 c2 where
        runA: "(case PreviousPageMin cur1 of None \<Rightarrow> Inr (False, view1)
                | Some pk \<Rightarrow> mergePages view1 pk ck) = Inr (mergeFits ptoks arr, v2)"
    and acc2: "accounts v2 = accounts view1"
    and c2: "view_peek v2 ck = Some c2"
    and n2: "NextPageMin c2 = NextPageMin cur1"
    and t2: "NonFungibleTokens c2 = arr1"
    and above: "\<forall>k. ck < k \<longrightarrow> view_peek v2 k = view_peek view1 k"
    and prevok: "\<forall>q. PreviousPageMin c2 = Some q \<longrightarrow> q < ck \<and> view_peek v2 q \<noteq> None"
    and gone: "\<forall>pk. PreviousPageMin cur1 = Some pk \<longrightarrow>
                 (view_peek v2 pk = None) = mergeFits ptoks arr"
    unfolding f1 nb1 arr1 [symmetric] by blast
  have links2: "\<forall>nk. NextPageMin c2 = Some nk \<longrightarrow>
                  ck < nk \<and> (\<exists>np. view_peek v2 nk = Some np \<and> PreviousPageMin np = Some ck)"
  proof (intro allI impI)
    fix nk
    assume "NextPageMin c2 = Some nk"
    then have nc: "NextPageMin cur = Some nk" by (simp add: n2)
    from linksValid_next [OF valid pk0 nc] obtain np where lt: "ck < nk"
      and np: "view_peek view nk = Some np" and p: "PreviousPageMin np = Some ck" by blast
    have "view_peek v2 nk = view_peek view1 nk" using above lt by blast
    also have "\<dots> = Some np" using lt np by (auto simp: peek1)
    finally show "ck < nk \<and> (\<exists>np. view_peek v2 nk = Some np \<and> PreviousPageMin np = Some ck)"
      using lt p by blast
  qed
  have nb2: "neighbourTokens v2 (NextPageMin c2) = ntoks"
  proof (cases "NextPageMin cur")
    case None
    then show ?thesis by (simp add: ntoks neighbourTokens_def n2)
  next
    case (Some nk)
    then have lt: "ck < nk" using linksValid_next [OF valid pk0 Some] by auto
    then have "view_peek v2 nk = view_peek view1 nk" using above by blast
    also have "\<dots> = view_peek view nk" using lt by (auto simp: peek1)
    finally show ?thesis by (simp add: ntoks neighbourTokens_def Some n2)
  qed
  from removeToken_merge_next [OF c2 links2 prevok] obtain v3 where
        runB: "(case NextPageMin c2 of None \<Rightarrow> Inr (False, v2)
                | Some nk \<Rightarrow> mergePages v2 ck nk) = Inr (mergeFits ntoks arr1, v3)"
    and acc3: "accounts v3 = accounts v2"
    and gone3: "(view_peek v3 ck = None) = mergeFits ntoks arr1"
    and toks3: "(if mergeFits ntoks arr1
       then (case NextPageMin c2 of
               None \<Rightarrow> False
             | Some nk \<Rightarrow>
                 map_option NonFungibleTokens (view_peek v3 nk) =
                 map_option (mergeTokens arr1) ntoks)
       else view_peek v3 ck = Some c2)"
    and below: "\<forall>k. k < ck \<longrightarrow> (view_peek v3 k = None) = (view_peek v2 k = None)"
    unfolding nb2 t2 by (elim exE conjE) (rule that)
  define view' where "view' =
     (let cnt = (if mergeFits ptoks arr then - 1 else 0) +
                (if mergeFits ntoks arr1 then - 1 else (0::int))
      in if cnt \<noteq> 0 then adjustOwnerCount v3 owner cnt else v3)"
  have peek': "view_peek view' k = view_peek v3 k" for k
    by (simp add: view'_def Let_def)
  have run: "removeToken view owner T = Inr (tesSUCCESS, view')"
    using ne found runA [unfolded f1] runB [unfolded n2 f1]
    by (simp add: removeToken_def loc Let_def arr [symmetric]
          loadPage_valid [OF valid pk0] view1_def [symmetric] view'_def)
  have accv: "accounts view' owner =
        Some (root\<lparr>OwnerCount := OwnerCount root - of_bool (mergeFits ptoks arr)
                                   - of_bool (mergeFits ntoks arr1)\<rparr>)"
    unfolding view'_def
    by (rule owner_count_adjusted) (simp add: acc3 acc2 acc1 acct)
  have prevgone: "(case PreviousPageMin cur of
         None \<Rightarrow> True
       | Some pk \<Rightarrow> (view_peek view' pk = None) = mergeFits ptoks arr)"
  proof (cases "PreviousPageMin cur")
    case None
    then show ?thesis by simp
  next
    case (Some pk)
    then have "pk < ck" using linksValid_prev [OF valid pk0 Some] by auto
    then have "(view_peek v3 pk = None) = (view_peek v2 pk = None)" using below by simp
    then show ?thesis using gone Some by (simp add: peek')
  qed
  have toks': "(if mergeFits ntoks arr1
       then (case NextPageMin cur of
               None \<Rightarrow> False
             | Some nk \<Rightarrow>
                 map_option NonFungibleTokens (view_peek view' nk) =
                 map_option (mergeTokens arr1) ntoks)
       else map_option NonFungibleTokens (view_peek view' ck) = Some arr1)"
    using toks3 by (simp add: peek' n2 t2 cong: option.case_cong if_cong)
  from run accv prevgone gone3 toks' show ?thesis
    by (intro exI [of _ view']) (simp add: peek' cong: option.case_cong if_cong)
qed

lemma owner_count_dropped:
  "accounts v owner = Some root \<Longrightarrow>
   accounts (adjustOwnerCount v owner (- 1 * (if m then 2 else (1::int)))) owner =
   Some (root\<lparr>OwnerCount := OwnerCount root - (if m then 2 else 1)\<rparr>)"
  by (cases m) (simp_all add: accounts_adjust)

lemma removeToken_empty:
  assumes valid: "linksValid view"
      and loc: "locatePage view owner T = Some (ck, cur)"
      and found: "find_if (\<lambda>obj. TokenID obj = T) (NonFungibleTokens cur)
                    < length (NonFungibleTokens cur)"
      and acct: "accounts view owner = Some root"
      and emp: "take (find_if (\<lambda>obj. TokenID obj = T) (NonFungibleTokens cur))
                        (NonFungibleTokens cur) @
                      drop (Suc (find_if (\<lambda>obj. TokenID obj = T) (NonFungibleTokens cur)))
                        (NonFungibleTokens cur) = []"
      and ptoks: "ptoks = neighbourTokens view (PreviousPageMin cur)"
      and ntoks: "ntoks = neighbourTokens view (NextPageMin cur)"
      and m: "m = (case ptoks of None \<Rightarrow> False | Some ps \<Rightarrow> mergeFits ntoks ps)"
  shows "\<exists>view'. removeToken view owner T = Inr (tesSUCCESS, view') \<and>
      view_peek view' ck = None \<and>
      accounts view' owner =
        Some (root\<lparr>OwnerCount := OwnerCount root - (if m then 2 else 1)\<rparr>) \<and>
      (case PreviousPageMin cur of
         None \<Rightarrow> True
       | Some pk \<Rightarrow>
           if m then view_peek view' pk = None
           else map_option NextPageMin (view_peek view' pk) = Some (NextPageMin cur)) \<and>
      (case NextPageMin cur of
         None \<Rightarrow> True
       | Some nk \<Rightarrow>
           if m then map_option NonFungibleTokens (view_peek view' nk) =
                     (case ptoks of None \<Rightarrow> None
                      | Some ps \<Rightarrow> map_option (mergeTokens ps) ntoks)
           else map_option PreviousPageMin (view_peek view' nk) = Some (PreviousPageMin cur))"
proof -
  have pk0: "view_peek view ck = Some cur" by (rule locatePage_peek [OF loc])
  note lp = loadPage_valid [OF valid pk0]
  show ?thesis
  proof (cases "PreviousPageMin cur")
    case pNone: None
    have nm: "\<not> m" by (simp add: m ptoks pNone neighbourTokens_def)
    show ?thesis
    proof (cases "NextPageMin cur")
      case nNone: None
      define view' where "view' = adjustOwnerCount (view_erase view ck) owner (- 1 * (if False then 2 else 1))"
      have run: "removeToken view owner T = Inr (tesSUCCESS, view')"
        using found emp lp by (simp add: removeToken_def loc Let_def pNone nNone view'_def)
      have acc: "accounts view' owner = Some (root\<lparr>OwnerCount := OwnerCount root - (if False then 2 else 1)\<rparr>)"
        unfolding view'_def by (rule owner_count_dropped) (simp add: acct)
      show ?thesis
        using run acc nm by (intro exI [of _ view']) (simp add: pNone nNone view'_def view_peek_erase)
    next
      case nSome: (Some nk)
      from linksValid_next [OF valid pk0 nSome] obtain np where lt: "ck < nk"
        and np: "view_peek view nk = Some np" by blast
      from lt have ne: "nk \<noteq> ck" by auto
      define view' where "view' = adjustOwnerCount (view_erase
            (view_modify view nk (\<lambda>p. p\<lparr>PreviousPageMin := None\<rparr>)) ck) owner
            (- 1 * (if False then 2 else 1))"
      have run: "removeToken view owner T = Inr (tesSUCCESS, view')"
        using found emp lp by (simp add: removeToken_def loc Let_def pNone nSome view'_def)
      have acc: "accounts view' owner = Some (root\<lparr>OwnerCount := OwnerCount root - (if False then 2 else 1)\<rparr>)"
        unfolding view'_def by (rule owner_count_dropped) (simp add: acct)
      show ?thesis
        using run acc nm ne np
        by (intro exI [of _ view'])
           (simp add: pNone nSome view'_def view_peek_erase view_peek_modify)
    qed
  next
    case pSome: (Some pk)
    from linksValid_prev [OF valid pk0 pSome] obtain pp where ltp: "pk < ck"
      and pp: "view_peek view pk = Some pp" and ppn: "NextPageMin pp = Some ck" by blast
    from ltp have nep: "pk \<noteq> ck" by auto
    have pt: "ptoks = Some (NonFungibleTokens pp)"
      by (simp add: ptoks pSome neighbourTokens_def pp)
    show ?thesis
    proof (cases "NextPageMin cur")
      case nNone: None
      have nm: "\<not> m" by (simp add: m pt ntoks nNone neighbourTokens_def mergeFits_def)
      define view' where "view' = adjustOwnerCount (view_erase
            (view_modify view pk (\<lambda>p. p\<lparr>NextPageMin := None\<rparr>)) ck) owner
            (- 1 * (if False then 2 else 1))"
      have run: "removeToken view owner T = Inr (tesSUCCESS, view')"
        using found emp lp by (simp add: removeToken_def loc Let_def pSome nNone view'_def)
      have acc: "accounts view' owner = Some (root\<lparr>OwnerCount := OwnerCount root - (if False then 2 else 1)\<rparr>)"
        unfolding view'_def by (rule owner_count_dropped) (simp add: acct)
      show ?thesis
        using run acc nm nep pp
        by (intro exI [of _ view'])
           (simp add: pSome nNone view'_def view_peek_erase view_peek_modify)
    next
      case nSome: (Some nk)
      from linksValid_next [OF valid pk0 nSome] obtain np where ltn: "ck < nk"
        and np: "view_peek view nk = Some np" and npp: "PreviousPageMin np = Some ck" by blast
      from ltn have nen: "nk \<noteq> ck" by auto
      from ltp ltn have ltpn: "pk < nk" by auto
      then have nepn: "pk \<noteq> nk" by auto
      have nt: "ntoks = Some (NonFungibleTokens np)"
        by (simp add: ntoks nSome neighbourTokens_def np)
      have mval: "m = (length (NonFungibleTokens pp) + length (NonFungibleTokens np) \<le> 32)"
        by (auto simp: m pt nt mergeFits_def)
      define pp' where "pp' = pp\<lparr>NextPageMin := Some nk\<rparr>"
      define np' where "np' = np\<lparr>PreviousPageMin := Some pk\<rparr>"
      define view3 where "view3 = view_erase
            (view_modify (view_modify view pk (\<lambda>p. p\<lparr>NextPageMin := Some nk\<rparr>))
               nk (\<lambda>p. p\<lparr>PreviousPageMin := Some pk\<rparr>)) ck"
      have peek3: "view_peek view3 k =
          (if k = ck then None else if k = nk then Some np'
           else if k = pk then Some pp' else view_peek view k)" for k
        using nepn pp np
        by (simp add: view3_def view_peek_erase view_peek_modify pp'_def np'_def)
      have acc3: "accounts view3 = accounts view" by (simp add: view3_def)
      have p3: "view_peek view3 pk = Some pp'" using nep nepn by (simp add: peek3)
      have n3: "view_peek view3 nk = Some np'" using nen by (simp add: peek3)
      have run: "removeToken view owner T =
           (case mergePages view3 pk nk of
              Inl e \<Rightarrow> Inl e
            | Inr (m, view4) \<Rightarrow>
                Inr (tesSUCCESS, adjustOwnerCount view4 owner (- 1 * (if m then 2 else 1))))"
        using found emp lp
        by (simp add: removeToken_def loc Let_def pSome nSome view3_def
              cong: sum.case_cong prod.case_cong)
      show ?thesis
      proof (cases m)
        case True
        have q0: "q < pk \<and> view_peek view3 q \<noteq> None" if "PreviousPageMin pp' = Some q" for q
        proof -
          from that have "PreviousPageMin pp = Some q" by (simp add: pp'_def)
          from linksValid_prev [OF valid pp this] obtain pq where "q < pk"
            and "view_peek view q = Some pq" by blast
          then show ?thesis using ltp ltpn by (auto simp: peek3)
        qed
        have mp: "mergePages view3 pk nk = Inr (True, mergedView view3 pk nk pp' np')"
        proof (rule mergePages_fit [OF p3 n3 ltpn])
          show "NextPageMin pp' = Some nk" by (simp add: pp'_def)
          show "PreviousPageMin np' = Some pk" by (simp add: np'_def)
          show "length (NonFungibleTokens pp') + length (NonFungibleTokens np') \<le> 32"
            using True by (simp add: mval pp'_def np'_def)
          show "\<And>q. PreviousPageMin pp' = Some q \<Longrightarrow> view_peek view3 q \<noteq> None"
            using q0 by blast
        qed
        have d: "\<forall>q. PreviousPageMin pp' = Some q \<longrightarrow> q \<noteq> pk \<and> q \<noteq> nk"
          using q0 ltpn by auto
        note pm = view_peek_mergedView [OF n3 nepn d]
        define view' where "view' = adjustOwnerCount (mergedView view3 pk nk pp' np') owner
            (- 1 * (if True then 2 else 1))"
        have run': "removeToken view owner T = Inr (tesSUCCESS, view')"
          by (simp add: run mp view'_def)
        have acc: "accounts view' owner =
            Some (root\<lparr>OwnerCount := OwnerCount root - (if True then 2 else 1)\<rparr>)"
          unfolding view'_def by (rule owner_count_dropped) (simp add: acc3 acct)
        have gone: "view_peek view' ck = None"
          using nep nen q0 ltp by (auto simp: view'_def pm peek3)
        have pgone: "view_peek view' pk = None" by (simp add: view'_def pm)
        have ntok: "map_option NonFungibleTokens (view_peek view' nk) =
             Some (mergeTokens (NonFungibleTokens pp) (NonFungibleTokens np))"
        proof -
          have "view_peek view' nk =
                Some (np'\<lparr>NonFungibleTokens :=
                             mergeTokens (NonFungibleTokens pp') (NonFungibleTokens np'),
                           PreviousPageMin := PreviousPageMin pp'\<rparr>)"
            using nepn by (auto simp: view'_def pm)
          then show ?thesis by (simp add: pp'_def np'_def)
        qed
        show ?thesis
          using run' acc gone pgone ntok True
          by (intro exI [of _ view']) (simp add: pSome nSome pt nt)
      next
        case False
        have mp: "mergePages view3 pk nk = Inr (False, view3)"
        proof (rule mergePages_nofit [OF p3 n3 ltpn])
          show "NextPageMin pp' = Some nk" by (simp add: pp'_def)
          show "PreviousPageMin np' = Some pk" by (simp add: np'_def)
          show "\<not> length (NonFungibleTokens pp') + length (NonFungibleTokens np') \<le> 32"
            using False by (simp add: mval pp'_def np'_def)
        qed
        define view' where "view' = adjustOwnerCount view3 owner (- 1 * (if False then 2 else 1))"
        have run': "removeToken view owner T = Inr (tesSUCCESS, view')"
          by (simp add: run mp view'_def)
        have acc: "accounts view' owner =
            Some (root\<lparr>OwnerCount := OwnerCount root - (if False then 2 else 1)\<rparr>)"
          unfolding view'_def by (rule owner_count_dropped) (simp add: acc3 acct)
        show ?thesis
          using run' acc False nep nen nepn
          by (intro exI [of _ view'])
             (simp add: pSome nSome view'_def peek3 pp'_def np'_def)
      qed
    qed
  qed
qed

text \<open>
  Claim C9. Let the token be on the page that \<open>locatePage\<close> reaches for it, the links of
  the view be sound and the owner's account root exist; then \<open>removeToken\<close> returns
  \<open>tesSUCCESS\<close>. If tokens remain on the page, the merge with the previous page happens
  exactly when that page exists and the two hold at most 32 tokens together, and it erases
  the previous page; the merge with the next page happens exactly when that page exists and
  holds at most 32 tokens together with what the current page then holds, and it erases the
  current page and leaves the merged tokens on the next page; the owner count drops by one
  for each merge that happened. If no token remains, the page is erased, its neighbours
  are linked to each other and the owner count drops by one; when both neighbours exist
  and hold at most 32 tokens together they are merged, the previous page is erased and
  the count drops by one more.
\<close>

theorem removeToken_merges:
  assumes valid: "linksValid view"
      and loc: "locatePage view owner T = Some (ck, cur)"
      and found: "find_if (\<lambda>obj. TokenID obj = T) (NonFungibleTokens cur)
                    < length (NonFungibleTokens cur)"
      and acct: "accounts view owner = Some root"
      and arr: "arr = take (find_if (\<lambda>obj. TokenID obj = T) (NonFungibleTokens cur))
                        (NonFungibleTokens cur) @
                      drop (Suc (find_if (\<lambda>obj. TokenID obj = T) (NonFungibleTokens cur)))
                        (NonFungibleTokens cur)"
      and ptoks: "ptoks = neighbourTokens view (PreviousPageMin cur)"
      and ntoks: "ntoks = neighbourTokens view (NextPageMin cur)"
      and arr1: "arr1 = (case ptoks of
                           None \<Rightarrow> arr
                         | Some ps \<Rightarrow> if length ps + length arr \<le> 32
                                      then mergeTokens ps arr else arr)"
      and m: "m = (case ptoks of None \<Rightarrow> False | Some ps \<Rightarrow> mergeFits ntoks ps)"
  shows "\<exists>view'. removeToken view owner T = Inr (tesSUCCESS, view') \<and>
      (if arr \<noteq> [] then
         accounts view' owner =
           Some (root\<lparr>OwnerCount := OwnerCount root - of_bool (mergeFits ptoks arr)
                                      - of_bool (mergeFits ntoks arr1)\<rparr>) \<and>
         (case PreviousPageMin cur of
            None \<Rightarrow> True
          | Some pk \<Rightarrow> (view_peek view' pk = None) = mergeFits ptoks arr) \<and>
         (view_peek view' ck = None) = mergeFits ntoks arr1 \<and>
         (if mergeFits ntoks arr1
          then (case NextPageMin cur of
                  None \<Rightarrow> False
                | Some nk \<Rightarrow>
                    map_option NonFungibleTokens (view_peek view' nk) =
                    map_option (mergeTokens arr1) ntoks)
          else map_option NonFungibleTokens (view_peek view' ck) = Some arr1)
       else
         view_peek view' ck = None \<and>
         accounts view' owner =
           Some (root\<lparr>OwnerCount := OwnerCount root - (if m then 2 else 1)\<rparr>) \<and>
         (case PreviousPageMin cur of
            None \<Rightarrow> True
          | Some pk \<Rightarrow>
              if m then view_peek view' pk = None
              else map_option NextPageMin (view_peek view' pk) = Some (NextPageMin cur)) \<and>
         (case NextPageMin cur of
            None \<Rightarrow> True
          | Some nk \<Rightarrow>
              if m then map_option NonFungibleTokens (view_peek view' nk) =
                        (case ptoks of None \<Rightarrow> None
                         | Some ps \<Rightarrow> map_option (mergeTokens ps) ntoks)
              else map_option PreviousPageMin (view_peek view' nk) =
                   Some (PreviousPageMin cur)))"
proof (cases "arr = []")
  case True
  then have e: "(arr \<noteq> []) = False" by simp
  from removeToken_empty [OF valid loc found acct True [unfolded arr] ptoks ntoks m]
  show ?thesis by (simp only: e if_False)
next
  case False
  then have e: "(arr \<noteq> []) = True" by simp
  from removeToken_nonempty [OF valid loc found acct arr False ptoks ntoks arr1]
  show ?thesis by (simp only: e if_True)
qed

lemma exTwoPageView_linksValid: "linksValid exTwoPageView"
  by (simp add: linksValid_def exTwoPageView_def exLowPage_def exLastPage_def ex_view_defs
        ex_key_defs)

lemma exTwoPageView_locate_low: "locatePage exTwoPageView exOwner 5 =
               Some (nftpage (nftpage_min exOwner) 17, exLowPage)"
    by (simp add: locatePage_def exTwoPageView_def exLowPage_def exLastPage_def ex_view_defs
          ex_key_defs)

lemma exTwoPageView_found_low: "find_if (\<lambda>obj. TokenID obj = 5) (NonFungibleTokens exLowPage)
                 < length (NonFungibleTokens exLowPage)"
    by (simp add: exLowPage_def exNumbers_def exToken_def)

lemma exTwoPageView_account: "accounts exTwoPageView exOwner = Some \<lparr>OwnerCount = 2, MintedTokens = None\<rparr>"
    by (simp add: exTwoPageView_def)

lemma exTwoPageView_low_rest: "map exToken [1, 2, 3, 4, 6, 7, 8, 9, 10, 11, 12, 13, 14, 15, 16] =
     take (find_if (\<lambda>obj. TokenID obj = 5) (NonFungibleTokens exLowPage))
                        (NonFungibleTokens exLowPage) @
                      drop (Suc (find_if (\<lambda>obj. TokenID obj = 5) (NonFungibleTokens exLowPage)))
                        (NonFungibleTokens exLowPage)"
    by (simp add: exLowPage_def exNumbers_def exToken_def)

lemma exTwoPageView_low_prev: "None = neighbourTokens exTwoPageView (PreviousPageMin exLowPage)"
  by (simp add: neighbourTokens_def exLowPage_def)

lemma exTwoPageView_low_next: "Some [exToken 20] = neighbourTokens exTwoPageView (NextPageMin exLowPage)"
    by (simp add: neighbourTokens_def exTwoPageView_def exLowPage_def exLastPage_def ex_view_defs ex_key_defs)

lemma exTwoPageView_low_merged: "map TokenID (mergeTokens
                  (map exToken [1, 2, 3, 4, 6, 7, 8, 9, 10, 11, 12, 13, 14, 15, 16]) [exToken 20]) =
                [1, 2, 3, 4, 6, 7, 8, 9, 10, 11, 12, 13, 14, 15, 16, 20]"
  by (simp add: compareTokens_def exToken_def pageMask_def mask_eq_exp_minus_1)

lemma exLowPage_links: "PreviousPageMin exLowPage = None"
              "NextPageMin exLowPage = Some (nftpage_max exOwner)"
    by (simp_all add: exLowPage_def)

lemma exTwoPageView_locate_last:
  "locatePage exTwoPageView exOwner 20 = Some (nftpage_max exOwner, exLastPage)"
  by (simp add: locatePage_def exTwoPageView_def exLowPage_def exLastPage_def ex_view_defs
        ex_key_defs)

lemma exTwoPageView_found_last:
  "find_if (\<lambda>obj. TokenID obj = 20) (NonFungibleTokens exLastPage)
     < length (NonFungibleTokens exLastPage)"
  by (simp add: exLastPage_def exToken_def)

lemma exTwoPageView_last_rest:
  "[] = take (find_if (\<lambda>obj. TokenID obj = 20) (NonFungibleTokens exLastPage))
          (NonFungibleTokens exLastPage) @
        drop (Suc (find_if (\<lambda>obj. TokenID obj = 20) (NonFungibleTokens exLastPage)))
          (NonFungibleTokens exLastPage)"
  by (simp add: exLastPage_def exToken_def)

lemma exTwoPageView_last_prev:
  "Some (NonFungibleTokens exLowPage) =
     neighbourTokens exTwoPageView (PreviousPageMin exLastPage)"
  by (simp add: neighbourTokens_def exTwoPageView_def exLowPage_def exLastPage_def
        ex_view_defs ex_key_defs)

lemma exTwoPageView_last_next:
  "None = neighbourTokens exTwoPageView (NextPageMin exLastPage)"
  by (simp add: neighbourTokens_def exLastPage_def)

lemma exLastPage_links:
  "PreviousPageMin exLastPage = Some (nftpage (nftpage_min exOwner) 17)"
  "NextPageMin exLastPage = None"
  by (simp_all add: exLastPage_def)

theorem removeToken_merges_witness:
  "linksValid exTwoPageView \<and>
   locatePage exTwoPageView exOwner 5 =
     Some (nftpage (nftpage_min exOwner) 17, exLowPage) \<and>
   (\<exists>view'. removeToken exTwoPageView exOwner 5 = Inr (tesSUCCESS, view') \<and>
      accounts view' exOwner = Some \<lparr>OwnerCount = 1, MintedTokens = None\<rparr> \<and>
      view_peek view' (nftpage (nftpage_min exOwner) 17) = None \<and>
      map_option (map TokenID \<circ> NonFungibleTokens) (view_peek view' (nftpage_max exOwner)) =
        Some [1, 2, 3, 4, 6, 7, 8, 9, 10, 11, 12, 13, 14, 15, 16, 20]) \<and>
   locatePage exTwoPageView exOwner 20 = Some (nftpage_max exOwner, exLastPage) \<and>
   (\<exists>view'. removeToken exTwoPageView exOwner 20 = Inr (tesSUCCESS, view') \<and>
      view_peek view' (nftpage_max exOwner) = None \<and>
      accounts view' exOwner = Some \<lparr>OwnerCount = 1, MintedTokens = None\<rparr> \<and>
      map_option NextPageMin (view_peek view' (nftpage (nftpage_min exOwner) 17)) = Some None)"
proof -
  have low: "\<exists>view'. removeToken exTwoPageView exOwner 5 = Inr (tesSUCCESS, view') \<and>
      accounts view' exOwner = Some \<lparr>OwnerCount = 1, MintedTokens = None\<rparr> \<and>
      view_peek view' (nftpage (nftpage_min exOwner) 17) = None \<and>
      map_option (map TokenID \<circ> NonFungibleTokens) (view_peek view' (nftpage_max exOwner)) =
        Some [1, 2, 3, 4, 6, 7, 8, 9, 10, 11, 12, 13, 14, 15, 16, 20]"
  proof -
    have a1: "map exToken [1, 2, 3, 4, 6, 7, 8, 9, 10, 11, 12, 13, 14, 15, 16] =
          (case None of
             None \<Rightarrow> map exToken [1, 2, 3, 4, 6, 7, 8, 9, 10, 11, 12, 13, 14, 15, 16]
           | Some ps \<Rightarrow>
               if length ps + length (map exToken [1, 2, 3, 4, 6, 7, 8, 9, 10, 11, 12, 13, 14, 15, 16]) \<le> 32
               then mergeTokens ps (map exToken [1, 2, 3, 4, 6, 7, 8, 9, 10, 11, 12, 13, 14, 15, 16])
               else map exToken [1, 2, 3, 4, 6, 7, 8, 9, 10, 11, 12, 13, 14, 15, 16])"
      by (simp only: option.case)
    have m: "False = (case None of None \<Rightarrow> False | Some ps \<Rightarrow> mergeFits (Some [exToken 20]) ps)"
      by (simp only: option.case)
    have ne: "(map exToken [1, 2, 3, 4, 6, 7, 8, 9, 10, 11, 12, 13, 14, 15, 16] \<noteq> []) = True"
      by simp
    have f1: "mergeFits None (map exToken [1, 2, 3, 4, 6, 7, 8, 9, 10, 11, 12, 13, 14, 15, 16]) = False"
      by (simp add: mergeFits_def)
    have f2: "mergeFits (Some [exToken 20])
                (map exToken [1, 2, 3, 4, 6, 7, 8, 9, 10, 11, 12, 13, 14, 15, 16]) = True"
      by (simp add: mergeFits_def)
    note t = removeToken_merges [OF exTwoPageView_linksValid exTwoPageView_locate_low
        exTwoPageView_found_low exTwoPageView_account exTwoPageView_low_rest
        exTwoPageView_low_prev exTwoPageView_low_next a1 m,
        unfolded ne if_True f1 f2 exLowPage_links option.case]
    from t obtain view' where run: "removeToken exTwoPageView exOwner 5 = Inr (tesSUCCESS, view')"
      and acc: "accounts view' exOwner =
          Some (\<lparr>OwnerCount = 2, MintedTokens = None\<rparr>\<lparr>OwnerCount :=
             OwnerCount \<lparr>OwnerCount = 2, MintedTokens = None\<rparr> - of_bool False - of_bool True\<rparr>)"
      and gone: "(view_peek view' (nftpage (nftpage_min exOwner) 17) = None) = True"
      and tk: "map_option NonFungibleTokens (view_peek view' (nftpage_max exOwner)) =
          map_option (mergeTokens
                    (map exToken [1, 2, 3, 4, 6, 7, 8, 9, 10, 11, 12, 13, 14, 15, 16]))
             (Some [exToken 20])"
      by (elim exE conjE) (rule that)
    from acc have acc': "accounts view' exOwner = Some \<lparr>OwnerCount = 1, MintedTokens = None\<rparr>"
      by simp
    from gone have gone': "view_peek view' (nftpage (nftpage_min exOwner) 17) = None"
      by (simp only: simp_thms)
    have tk': "map_option (map TokenID \<circ> NonFungibleTokens) (view_peek view' (nftpage_max exOwner)) =
          Some [1, 2, 3, 4, 6, 7, 8, 9, 10, 11, 12, 13, 14, 15, 16, 20]"
      using arg_cong [OF tk, of "map_option (map TokenID)"]
      by (simp only: option.map_comp option.map exTwoPageView_low_merged)
    show ?thesis
      by (intro conjI exI [of _ view']) (rule run acc' gone' tk')+
  qed
  have last: "\<exists>view'. removeToken exTwoPageView exOwner 20 = Inr (tesSUCCESS, view') \<and>
      view_peek view' (nftpage_max exOwner) = None \<and>
      accounts view' exOwner = Some \<lparr>OwnerCount = 1, MintedTokens = None\<rparr> \<and>
      map_option NextPageMin (view_peek view' (nftpage (nftpage_min exOwner) 17)) = Some None"
  proof -
    have m: "False = (case Some (NonFungibleTokens exLowPage) of
                        None \<Rightarrow> False | Some ps \<Rightarrow> mergeFits None ps)"
      by (simp add: mergeFits_def)
    have e: "(([]::NFToken list) \<noteq> []) = False" by simp
    note t = removeToken_merges [OF exTwoPageView_linksValid exTwoPageView_locate_last
        exTwoPageView_found_last exTwoPageView_account exTwoPageView_last_rest
        exTwoPageView_last_prev exTwoPageView_last_next refl m,
        unfolded e if_False exLastPage_links option.case]
    from t obtain view' where run: "removeToken exTwoPageView exOwner 20 = Inr (tesSUCCESS, view')"
      and gone: "view_peek view' (nftpage_max exOwner) = None"
      and acc: "accounts view' exOwner =
          Some (\<lparr>OwnerCount = 2, MintedTokens = None\<rparr>\<lparr>OwnerCount :=
             OwnerCount \<lparr>OwnerCount = 2, MintedTokens = None\<rparr> - 1\<rparr>)"
      and lk: "map_option NextPageMin (view_peek view' (nftpage (nftpage_min exOwner) 17)) =
                 Some None"
      by (elim exE conjE) (rule that)
    from acc have acc': "accounts view' exOwner = Some \<lparr>OwnerCount = 1, MintedTokens = None\<rparr>"
      by simp
    show ?thesis
      by (intro conjI exI [of _ view']) (rule run gone acc' lk)+
  qed
  show ?thesis
    by (intro conjI)
       (rule exTwoPageView_linksValid exTwoPageView_locate_low low
          exTwoPageView_locate_last last)+
qed

end
